(* ===== verification/Go_Prelude.thy ===== *)
theory Go_Prelude
  imports Main
begin

section \<open>Shared vocabulary: Go integers, strings and searches\<close>

text \<open>
  What the exchange's Go code uses of the language and its standard library, and the generic
  lemmas the components share: Euclidean division of \<open>math/big\<close>, base-10 printing and
  reading of integers, \<open>strings.TrimSpace\<close>, \<open>strings.Split\<close>,
  \<open>strings.TrimRight\<close>, and the binary search \<open>sort.Search\<close>. A Go string is a
  sequence of bytes and is modelled as a \<^typ>\<open>string\<close>, one \<^typ>\<open>char\<close> per byte.
\<close>

named_theorems dec_simps \<open>arithmetic of decimals, read on their unscaled integers\<close>
named_theorems wf_intros \<open>introduction rules for well-formedness of states\<close>

subsection \<open>Integer division of math/big\<close>

text \<open>
  \<open>(*big.Int).Div\<close> and \<open>Mod\<close> are Euclidean: the remainder is never negative. The
  callers exclude a zero divisor before they divide (Go panics on it).
\<close>

definition big_Div :: "int \<Rightarrow> int \<Rightarrow> int" where
  "big_Div x y = (if 0 < y then x div y else - (x div (- y)))"

definition big_Mod :: "int \<Rightarrow> int \<Rightarrow> int" where
  "big_Mod x y = x mod \<bar>y\<bar>"

lemma big_Div_pos [simp]: "0 < y \<Longrightarrow> big_Div x y = x div y"
  by (simp add: big_Div_def)

lemma big_Div_Mod: "y \<noteq> 0 \<Longrightarrow> y * big_Div x y + big_Mod x y = x"
proof (cases "0 < y")
  case True
  then show ?thesis by (simp add: big_Mod_def)
next
  case False
  assume "y \<noteq> 0"
  with False have neg: "y < 0" by simp
  have "- y * (x div (- y)) + x mod (- y) = x"
    by (rule mult_div_mod_eq)
  with neg show ?thesis by (simp add: big_Div_def big_Mod_def)
qed

lemma big_Mod_range: "y \<noteq> 0 \<Longrightarrow> 0 \<le> big_Mod x y \<and> big_Mod x y < \<bar>y\<bar>"
  by (simp add: big_Mod_def)

lemma big_Mod_zero_iff: "y \<noteq> 0 \<Longrightarrow> big_Mod x y = 0 \<longleftrightarrow> y dvd x"
  by (simp add: big_Mod_def dvd_eq_mod_eq_0 [symmetric])

subsection \<open>Bytes and decimal digits\<close>

abbreviation byte :: "char \<Rightarrow> nat" where
  "byte c \<equiv> of_char c"

definition is_digit :: "char \<Rightarrow> bool" where
  "is_digit c \<longleftrightarrow> 48 \<le> byte c \<and> byte c \<le> 57"

definition digit_char :: "nat \<Rightarrow> char" where
  "digit_char n = char_of (48 + n)"

definition digit_val :: "char \<Rightarrow> nat" where
  "digit_val c = byte c - 48"

lemma byte_digit_char [simp]: "n < 10 \<Longrightarrow> byte (digit_char n) = 48 + n"
  by (simp add: digit_char_def)

lemma is_digit_digit_char [simp]: "n < 10 \<Longrightarrow> is_digit (digit_char n)"
  by (simp add: is_digit_def)

lemma digit_val_digit_char [simp]: "n < 10 \<Longrightarrow> digit_val (digit_char n) = n"
  by (simp add: digit_val_def)

lemma digit_char_0: "digit_char 0 = CHR ''0''"
proof -
  have "byte (digit_char 0) = byte (CHR ''0'')" by simp
  then show ?thesis by (simp only: of_char_eq_iff)
qed

lemma is_digit_zero [simp]: "is_digit (CHR ''0'')"
  by (simp add: is_digit_def)

text \<open>\<open>(*big.Int).String\<close> of a natural number, and the value of a run of digits.\<close>

fun show_nat :: "nat \<Rightarrow> string" where
  "show_nat n = (if n < 10 then [digit_char n] else show_nat (n div 10) @ [digit_char (n mod 10)])"

declare show_nat.simps [simp del]

fun digits_val :: "nat \<Rightarrow> string \<Rightarrow> nat" where
  "digits_val acc [] = acc"
| "digits_val acc (c # cs) = digits_val (acc * 10 + digit_val c) cs"

lemma digits_val_append: "digits_val acc (xs @ ys) = digits_val (digits_val acc xs) ys"
  by (induction xs arbitrary: acc) auto

lemma show_nat_digits: "list_all is_digit (show_nat n)"
proof (induction n rule: show_nat.induct)
  case (1 n)
  then show ?case by (subst show_nat.simps) auto
qed

lemma show_nat_nonempty [simp]: "show_nat n \<noteq> []"
  by (subst show_nat.simps) simp

lemma digits_val_show_nat: "digits_val 0 (show_nat n) = n"
proof (induction n rule: show_nat.induct)
  case (1 n)
  show ?case
  proof (cases "n < 10")
    case True
    then show ?thesis by (subst show_nat.simps) simp
  next
    case False
    with 1 have "digits_val 0 (show_nat (n div 10)) = n div 10" by simp
    with False show ?thesis by (subst show_nat.simps) (simp add: digits_val_append)
  qed
qed

lemma digits_val_replicate_zero: "digits_val 0 (replicate k (CHR ''0'') @ s) = digits_val 0 s"
  by (induction k) (auto simp: digit_val_def)

lemma digits_val_zeros: "digits_val acc (replicate k (CHR ''0'')) = acc * 10 ^ k"
  by (induction k arbitrary: acc) (auto simp: digit_val_def)

lemma show_nat_length: "n < 10 ^ Suc k \<Longrightarrow> length (show_nat n) \<le> Suc k"
proof (induction k arbitrary: n)
  case 0
  then show ?case by (subst show_nat.simps) simp
next
  case (Suc k)
  then have "n div 10 < 10 ^ Suc k" by (simp add: less_mult_imp_div_less mult.commute)
  then have "length (show_nat (n div 10)) \<le> Suc k" by (rule Suc.IH)
  then show ?case by (subst show_nat.simps) simp
qed

text \<open>\<open>(*big.Int).SetString(s, 10)\<close>: an optional sign, then digits and nothing else.\<close>

definition parse_digits :: "string \<Rightarrow> nat option" where
  "parse_digits s = (if s \<noteq> [] \<and> list_all is_digit s then Some (digits_val 0 s) else None)"

definition big_SetString :: "string \<Rightarrow> int option" where
  "big_SetString s =
     (case s of
        [] \<Rightarrow> None
      | c # cs \<Rightarrow>
          if c = CHR ''-'' then map_option (\<lambda>n. - int n) (parse_digits cs)
          else if c = CHR ''+'' then map_option int (parse_digits cs)
          else map_option int (parse_digits s))"

definition show_int :: "int \<Rightarrow> string" where
  "show_int i = (if i < 0 then CHR ''-'' # show_nat (nat (- i)) else show_nat (nat i))"

lemma parse_digits_ok: "s \<noteq> [] \<Longrightarrow> list_all is_digit s \<Longrightarrow> parse_digits s = Some (digits_val 0 s)"
  by (simp add: parse_digits_def)

lemma big_SetString_digits:
  "s \<noteq> [] \<Longrightarrow> list_all is_digit s \<Longrightarrow> big_SetString s = Some (int (digits_val 0 s))"
  by (cases s) (auto simp: big_SetString_def parse_digits_ok is_digit_def)

lemma big_SetString_show_nat: "big_SetString (show_nat n) = Some (int n)"
  by (simp add: big_SetString_digits show_nat_digits digits_val_show_nat)

lemma big_SetString_show_int: "big_SetString (show_int i) = Some i"
proof (cases "i < 0")
  case True
  then show ?thesis
    by (simp add: show_int_def big_SetString_def parse_digits_ok show_nat_digits digits_val_show_nat)
next
  case False
  then show ?thesis by (simp add: show_int_def big_SetString_show_nat)
qed

subsection \<open>strings.TrimSpace, strings.Split, strings.TrimRight\<close>

text \<open>
  The white space of \<open>unicode.IsSpace\<close> in UTF-8: six ASCII bytes, and the multi-byte code
  points U+0085, U+00A0, U+1680, U+2000 to U+200A, U+2028, U+2029, U+202F, U+205F, U+3000.
\<close>

definition space_runes :: "string list" where
  "space_runes =
     map (\<lambda>b. [char_of (b :: nat)]) [9, 10, 11, 12, 13, 32] @
     map (map (\<lambda>b. char_of (b :: nat)))
       ([[0xC2, 0x85], [0xC2, 0xA0], [0xE1, 0x9A, 0x80]] @
        map (\<lambda>b. [0xE2, 0x80, b]) [0x80 ..< 0x8B] @
        [[0xE2, 0x80, 0xA8], [0xE2, 0x80, 0xA9], [0xE2, 0x80, 0xAF], [0xE2, 0x81, 0x9F],
         [0xE3, 0x80, 0x80]])"

fun trim_prefixes :: "nat \<Rightarrow> string list \<Rightarrow> string \<Rightarrow> string" where
  "trim_prefixes 0 ps s = s"
| "trim_prefixes (Suc n) ps s =
     (case find (\<lambda>p. take (length p) s = p) ps of
        None \<Rightarrow> s
      | Some p \<Rightarrow> trim_prefixes n ps (drop (length p) s))"

text \<open>
  Every rune has at least one byte, so as many rounds as the string has bytes are enough; a
  suffix is a prefix of the reversed string.
\<close>

definition TrimSpace :: "string \<Rightarrow> string" where
  "TrimSpace s =
     (let l = trim_prefixes (length s) space_runes s
      in rev (trim_prefixes (length l) (map rev space_runes) (rev l)))"

definition first_or :: "nat \<Rightarrow> string \<Rightarrow> nat" where
  "first_or d s = (case s of [] \<Rightarrow> d | c # _ \<Rightarrow> byte c)"

lemma space_runes_first: "p \<in> set space_runes \<Longrightarrow> p \<noteq> [] \<and> byte (hd p) \<le> 32 \<or> p \<noteq> [] \<and> 128 \<le> byte (hd p)"
  by (auto simp: space_runes_def)

lemma space_runes_last:
  "p \<in> set space_runes \<Longrightarrow> p \<noteq> [] \<and> (byte (last p) \<le> 32 \<or> 128 \<le> byte (last p))"
  by (auto simp: space_runes_def)

lemma trim_prefixes_id:
  assumes "\<And>p. p \<in> set ps \<Longrightarrow> p \<noteq> [] \<and> hd p \<noteq> c"
  shows "trim_prefixes n ps (c # s) = c # s"
proof (cases n)
  case (Suc k)
  have "find (\<lambda>p. take (length p) (c # s) = p) ps = None"
    unfolding find_None_iff
  proof (rule notI)
    assume "\<exists>p. p \<in> set ps \<and> take (length p) (c # s) = p"
    then obtain p where p: "p \<in> set ps" "take (length p) (c # s) = p" by blast
    with assms [OF p(1)] show False by (cases p) auto
  qed
  with Suc show ?thesis by simp
qed simp

lemma TrimSpace_id:
  assumes "s \<noteq> []" and "32 < byte (hd s)" "byte (hd s) < 128"
    and "32 < byte (last s)" "byte (last s) < 128"
  shows "TrimSpace s = s"
proof -
  obtain c t where s: "s = c # t" using assms(1) by (cases s) auto
  have l: "trim_prefixes (length s) space_runes s = s"
    unfolding s using assms(2,3) s by (intro trim_prefixes_id) (use space_runes_first in fastforce)
  obtain d u where r: "rev s = d # u" using assms(1) by (cases "rev s") auto
  then have d: "d = last s" by (metis last_rev list.sel(1) hd_rev rev_rev_ident)
  have "trim_prefixes (length s) (map rev space_runes) (rev s) = rev s"
    unfolding r
  proof (rule trim_prefixes_id)
    fix p assume "p \<in> set (map rev space_runes)"
    then obtain q where q: "q \<in> set space_runes" "p = rev q" by auto
    with space_runes_last [OF q(1)] assms(4,5) d show "p \<noteq> [] \<and> hd p \<noteq> d"
      by (auto simp: hd_rev)
  qed
  with l show ?thesis by (simp add: TrimSpace_def Let_def)
qed

text \<open>\<open>strings.Split(s, sep)\<close> with a one-byte separator.\<close>

fun split_on :: "char \<Rightarrow> string \<Rightarrow> string list" where
  "split_on d [] = [[]]"
| "split_on d (c # cs) =
     (if c = d then [] # split_on d cs
      else (case split_on d cs of [] \<Rightarrow> [[c]] | p # ps \<Rightarrow> (c # p) # ps))"

lemma split_on_none: "d \<notin> set s \<Longrightarrow> split_on d s = [s]"
  by (induction s) auto

lemma split_on_one: "d \<notin> set s \<Longrightarrow> d \<notin> set t \<Longrightarrow> split_on d (s @ d # t) = [s, t]"
  by (induction s) (auto simp: split_on_none)

text \<open>\<open>strings.TrimRight(s, c)\<close> with a one-byte cutset.\<close>

definition TrimRight :: "char \<Rightarrow> string \<Rightarrow> string" where
  "TrimRight c s = rev (dropWhile (\<lambda>x. x = c) (rev s))"

lemma TrimRight_decomp: "\<exists>k. s = TrimRight c s @ replicate k c"
proof -
  have "rev s = takeWhile (\<lambda>x. x = c) (rev s) @ dropWhile (\<lambda>x. x = c) (rev s)" by simp
  then have "s = TrimRight c s @ rev (takeWhile (\<lambda>x. x = c) (rev s))"
    unfolding TrimRight_def by (metis rev_append rev_rev_ident)
  moreover have "takeWhile (\<lambda>x. x = c) (rev s) =
      replicate (length (takeWhile (\<lambda>x. x = c) (rev s))) c"
    by (metis (mono_tags, lifting) replicate_eqI set_takeWhileD)
  ultimately show ?thesis by (metis rev_replicate)
qed

subsection \<open>sort.Search\<close>

text \<open>
  \<open>sort.Search(n, f)\<close>: the binary search over \<open>[i, j)\<close> with the invariant
  \<open>f(i-1) == false\<close>, \<open>f(j) == true\<close>.
\<close>

function search_loop :: "(nat \<Rightarrow> bool) \<Rightarrow> nat \<Rightarrow> nat \<Rightarrow> nat" where
  "search_loop f i j =
     (if i < j then
        (let h = (i + j) div 2 in
         if \<not> f h then search_loop f (h + 1) j else search_loop f i h)
      else i)"
  by pat_completeness auto
termination
  by (relation "measure (\<lambda>(f, i, j). j - i)") auto

declare search_loop.simps [simp del]

definition sort_Search :: "nat \<Rightarrow> (nat \<Rightarrow> bool) \<Rightarrow> nat" where
  "sort_Search n f = search_loop f 0 n"

text \<open>
  On a predicate that, once true, stays true, the binary search returns the boundary: every
  smaller index fails and the returned index holds (or is the end).
\<close>

lemma search_loop_boundary:
  assumes "\<And>a b. a \<le> b \<Longrightarrow> b < n \<Longrightarrow> f a \<Longrightarrow> f b"
    and "i \<le> j" "j \<le> n"
    and "\<And>k. k < i \<Longrightarrow> \<not> f k" and "j < n \<Longrightarrow> f j"
  shows "search_loop f i j \<le> n \<and> (\<forall>k < search_loop f i j. \<not> f k) \<and>
    (search_loop f i j < n \<longrightarrow> f (search_loop f i j))"
  using assms
proof (induction f i j rule: search_loop.induct)
  case (1 f i j)
  show ?case
  proof (cases "i < j")
    case False
    then have "search_loop f i j = i" by (subst search_loop.simps) simp
    moreover from False "1.prems"(2) have "i = j" by simp
    ultimately show ?thesis using "1.prems" by simp
  next
    case True
    define h where "h = (i + j) div 2"
    have h: "i \<le> h" "h < j" using True by (auto simp: h_def)
    show ?thesis
    proof (cases "f h")
      case fh: True
      have "search_loop f i j = search_loop f i h"
        using True fh by (subst search_loop.simps) (simp add: h_def Let_def)
      moreover have "search_loop f i h \<le> n \<and> (\<forall>k < search_loop f i h. \<not> f k) \<and>
          (search_loop f i h < n \<longrightarrow> f (search_loop f i h))"
        using True fh h "1.prems" by (intro "1.IH"(2) [OF True h_def]) auto
      ultimately show ?thesis by simp
    next
      case fh: False
      have below: "\<not> f k" if "k < h + 1" for k
        using that fh "1.prems"(1) [of k h] h "1.prems"(3) by auto
      have "search_loop f i j = search_loop f (h + 1) j"
        using True fh by (subst search_loop.simps) (simp add: h_def Let_def)
      moreover have "search_loop f (h + 1) j \<le> n \<and> (\<forall>k < search_loop f (h + 1) j. \<not> f k) \<and>
          (search_loop f (h + 1) j < n \<longrightarrow> f (search_loop f (h + 1) j))"
        using True fh h "1.prems" below by (intro "1.IH"(1) [OF True h_def]) auto
      ultimately show ?thesis by simp
    qed
  qed
qed

lemma sort_Search_boundary:
  assumes "\<And>a b. a \<le> b \<Longrightarrow> b < n \<Longrightarrow> f a \<Longrightarrow> f b"
  shows "sort_Search n f \<le> n" and "k < sort_Search n f \<Longrightarrow> \<not> f k"
    and "sort_Search n f < n \<Longrightarrow> f (sort_Search n f)"
  using search_loop_boundary [of n f 0 n] assms by (auto simp: sort_Search_def)

end
