(* ===== verification/Common_Types.thy ===== *)
theory Common_Types
  imports Go_Prelude
begin

section \<open>Domain types and errors (internal/common)\<close>

text \<open>
  The string-typed enumerations of \<open>common/types.go\<close>, the trading-pair symbol with its
  base and quote currency, and the sentinel errors of \<open>common/errors.go\<close>. Go's
  enumerations are open: a \<open>Side\<close> is any string, and the engine uses the value
  \<open>"cancel"\<close> that is neither constant. They are therefore strings here too, and the
  constants are abbreviations of their literals.
\<close>

subsection \<open>Enumerations\<close>

type_synonym Side = string

abbreviation SideBuy :: Side where "SideBuy \<equiv> ''buy''"

abbreviation SideSell :: Side where "SideSell \<equiv> ''sell''"

definition Opposite :: "Side \<Rightarrow> Side" where
  "Opposite s = (if s = SideBuy then SideSell else SideBuy)"

type_synonym OrderType = string

abbreviation OrderTypeMarket :: OrderType where "OrderTypeMarket \<equiv> ''market''"

abbreviation OrderTypeLimit :: OrderType where "OrderTypeLimit \<equiv> ''limit''"

abbreviation OrderTypeStopLoss :: OrderType where "OrderTypeStopLoss \<equiv> ''stop_loss''"

abbreviation OrderTypeStopLimit :: OrderType where "OrderTypeStopLimit \<equiv> ''stop_limit''"

type_synonym TimeInForce = string

abbreviation TIF_GTC :: TimeInForce where "TIF_GTC \<equiv> ''GTC''"

abbreviation TIF_IOC :: TimeInForce where "TIF_IOC \<equiv> ''IOC''"

abbreviation TIF_FOK :: TimeInForce where "TIF_FOK \<equiv> ''FOK''"

type_synonym OrderStatus = string

abbreviation OrderStatusCreated :: OrderStatus where "OrderStatusCreated \<equiv> ''created''"

abbreviation OrderStatusOpen :: OrderStatus where "OrderStatusOpen \<equiv> ''open''"

abbreviation OrderStatusPartiallyFilled :: OrderStatus where
  "OrderStatusPartiallyFilled \<equiv> ''partially_filled''"

abbreviation OrderStatusFilled :: OrderStatus where "OrderStatusFilled \<equiv> ''filled''"

abbreviation OrderStatusCancelled :: OrderStatus where "OrderStatusCancelled \<equiv> ''cancelled''"

abbreviation OrderStatusRejected :: OrderStatus where "OrderStatusRejected \<equiv> ''rejected''"

abbreviation OrderStatusExpired :: OrderStatus where "OrderStatusExpired \<equiv> ''expired''"

definition IsFinal :: "OrderStatus \<Rightarrow> bool" where
  "IsFinal s \<longleftrightarrow> s = OrderStatusFilled \<or> s = OrderStatusCancelled \<or>
     s = OrderStatusRejected \<or> s = OrderStatusExpired"

type_synonym DepositStatus = string

abbreviation DepositStatusPending :: DepositStatus where "DepositStatusPending \<equiv> ''pending''"

abbreviation DepositStatusConfirming :: DepositStatus where "DepositStatusConfirming \<equiv> ''confirming''"

abbreviation DepositStatusConfirmed :: DepositStatus where "DepositStatusConfirmed \<equiv> ''confirmed''"

abbreviation DepositStatusOrphaned :: DepositStatus where "DepositStatusOrphaned \<equiv> ''orphaned''"

type_synonym WithdrawalStatus = string

abbreviation WithdrawalStatusPending :: WithdrawalStatus where "WithdrawalStatusPending \<equiv> ''pending''"

abbreviation WithdrawalStatusApproved :: WithdrawalStatus where "WithdrawalStatusApproved \<equiv> ''approved''"

abbreviation WithdrawalStatusProcessing :: WithdrawalStatus where "WithdrawalStatusProcessing \<equiv> ''processing''"

abbreviation WithdrawalStatusBroadcast :: WithdrawalStatus where "WithdrawalStatusBroadcast \<equiv> ''broadcast''"

abbreviation WithdrawalStatusCompleted :: WithdrawalStatus where "WithdrawalStatusCompleted \<equiv> ''completed''"

abbreviation WithdrawalStatusFailed :: WithdrawalStatus where "WithdrawalStatusFailed \<equiv> ''failed''"

abbreviation WithdrawalStatusRejected :: WithdrawalStatus where "WithdrawalStatusRejected \<equiv> ''rejected''"

type_synonym UserStatus = string

abbreviation UserStatusActive :: UserStatus where "UserStatusActive \<equiv> ''active''"

abbreviation UserStatusSuspended :: UserStatus where "UserStatusSuspended \<equiv> ''suspended''"

abbreviation UserStatusFrozen :: UserStatus where "UserStatusFrozen \<equiv> ''frozen''"

type_synonym Chain = string

abbreviation ChainEthereum :: Chain where "ChainEthereum \<equiv> ''ethereum''"

abbreviation ChainBSC :: Chain where "ChainBSC \<equiv> ''bsc''"

abbreviation ChainArbitrum :: Chain where "ChainArbitrum \<equiv> ''arbitrum''"

subsection \<open>Symbols and currencies\<close>

type_synonym Currency = string

type_synonym Symbol = string

text \<open>
  \<open>Base\<close> and \<open>Quote\<close> cut at the first dash; without a dash the whole symbol is
  the base and the quote is empty. The dash is one byte and never part of a longer rune, so the
  iteration by runes is one by bytes.
\<close>

fun Base :: "Symbol \<Rightarrow> Currency" where
  "Base [] = []"
| "Base (c # cs) = (if c = CHR ''-'' then [] else c # Base cs)"

fun Quote :: "Symbol \<Rightarrow> Currency" where
  "Quote [] = []"
| "Quote (c # cs) = (if c = CHR ''-'' then cs else Quote cs)"

lemma Base_Quote_pair:
  "CHR ''-'' \<notin> set b \<Longrightarrow> Base (b @ CHR ''-'' # q) = b \<and> Quote (b @ CHR ''-'' # q) = q"
  by (induction b) auto

lemma Base_Quote_split: "CHR ''-'' \<in> set s \<Longrightarrow> s = Base s @ CHR ''-'' # Quote s"
  by (induction s) auto

subsection \<open>Errors\<close>

text \<open>
  The sentinel errors that the code compares with \<open>errors.Is\<close>, and what
  \<open>fmt.Errorf\<close> builds: a fresh error, a sentinel with text in front
  (\<open>"...: %w"\<close>) or with text behind (\<open>"%w: ..."\<close>).
\<close>

datatype error =
    ErrInsufficientBalance
  | ErrOrderNotFound
  | ErrMarketNotAvailable
  | ErrInvalidPricePrecision
  | ErrInvalidQtyPrecision
  | ErrOrderSizeOutOfRange
  | ErrRateLimitExceeded
  | ErrRiskBlocked
  | ErrInvalidOrderType
  | ErrInvalidTimeInForce
  | ErrUserNotFound
  | ErrUserSuspended
  | ErrWithdrawalTooLarge
  | ErrInvalidAddress
  | ErrDepositNotConfirmed
  | ErrDuplicateDeposit
  | ErrUnauthorized
  | ErrInvalidSignature
  | ErrTimestampExpired
  | ErrInvalidAPIKey
  | ErrInternalServer
  | Errorf string
  | WrapBefore string error
  | WrapAfter error string

fun errors_Is :: "error \<Rightarrow> error \<Rightarrow> bool" where
  "errors_Is (WrapBefore m e) t = (WrapBefore m e = t \<or> errors_Is e t)"
| "errors_Is (WrapAfter e m) t = (WrapAfter e m = t \<or> errors_Is e t)"
| "errors_Is e t = (e = t)"

text \<open>A Go panic: it ends the goroutine, and with it the process.\<close>

datatype panic = NilPointerDereference | IndexOutOfRange

end
