(* ===== verification/Decimal.thy ===== *)
theory Decimal
  imports Common_Types
begin

section \<open>Fixed-point decimals (internal/common/decimal)\<close>

text \<open>
  A \<open>Decimal\<close> is a pointer to a \<open>big.Int\<close> that counts units of $10^{-18}$; the
  pointer may be nil (the zero value of the struct) and then reads as zero. Values are never
  mutated after construction, so the pointer is modelled by the integer behind it. Every
  operation of \<open>decimal.go\<close> is here except \<open>Float64\<close> (IEEE arithmetic). The lemmas
  show the arithmetic on the unscaled integers, the truncation error of \<open>Mul\<close> and
  \<open>Div\<close>, and that \<open>NewFromString\<close> inverts \<open>String\<close>.
\<close>

subsection \<open>The type and its operations\<close>

abbreviation Precision :: nat where "Precision \<equiv> 18"

abbreviation tenPow18 :: int where "tenPow18 \<equiv> 1000000000000000000"

datatype decimal = Decimal (dvalue: "int option")

definition val :: "decimal \<Rightarrow> int" where
  "val d = (case dvalue d of None \<Rightarrow> 0 | Some v \<Rightarrow> v)"

definition NewFromInt64 :: "int \<Rightarrow> decimal" where
  "NewFromInt64 n = Decimal (Some (n * tenPow18))"

definition Zero :: decimal where "Zero = NewFromInt64 0"

definition One :: decimal where "One = NewFromInt64 1"

text \<open>The zero value \<open>Decimal{}\<close> of an unset field.\<close>

definition NilDecimal :: decimal where "NilDecimal = Decimal None"

definition Add :: "decimal \<Rightarrow> decimal \<Rightarrow> decimal" where
  "Add d e = Decimal (Some (val d + val e))"

definition Sub :: "decimal \<Rightarrow> decimal \<Rightarrow> decimal" where
  "Sub d e = Decimal (Some (val d - val e))"

definition Mul :: "decimal \<Rightarrow> decimal \<Rightarrow> decimal" where
  "Mul d e = Decimal (Some (big_Div (val d * val e) tenPow18))"

definition IsZero :: "decimal \<Rightarrow> bool" where
  "IsZero d \<longleftrightarrow> sgn (val d) = 0"

definition IsNegative :: "decimal \<Rightarrow> bool" where
  "IsNegative d \<longleftrightarrow> sgn (val d) < 0"

definition Div :: "decimal \<Rightarrow> decimal \<Rightarrow> decimal" where
  "Div d e = (if IsZero e then Zero else Decimal (Some (big_Div (val d * tenPow18) (val e))))"

definition Mod :: "decimal \<Rightarrow> decimal \<Rightarrow> decimal" where
  "Mod d e = (if IsZero e then Zero else Decimal (Some (big_Mod (val d) (val e))))"

definition Cmp :: "decimal \<Rightarrow> decimal \<Rightarrow> int" where
  "Cmp d e = (if val d < val e then -1 else if val d = val e then 0 else 1)"

definition Abs :: "decimal \<Rightarrow> decimal" where
  "Abs d = (if IsNegative d then Decimal (Some (- val d)) else d)"

definition Min_decimal :: "decimal \<Rightarrow> decimal \<Rightarrow> decimal" where
  "Min_decimal d e = (if Cmp d e \<le> 0 then d else e)"

definition Max_decimal :: "decimal \<Rightarrow> decimal \<Rightarrow> decimal" where
  "Max_decimal d e = (if Cmp d e \<ge> 0 then d else e)"

subsection \<open>Printing\<close>

text \<open>\<open>fmt.Sprintf("%018d", n)\<close> of a natural number.\<close>

definition pad18 :: "nat \<Rightarrow> string" where
  "pad18 n = (let s = show_nat n in replicate (Precision - length s) (CHR ''0'') @ s)"

definition String :: "decimal \<Rightarrow> string" where
  "String d =
     (let v = \<bar>val d\<bar>;
          intPart = big_Div v tenPow18;
          fracPart = big_Mod v tenPow18;
          fracStr = TrimRight (CHR ''0'') (pad18 (nat fracPart))
      in if fracStr = '''' then
           (if IsNegative d \<and> sgn intPart \<noteq> 0 then ''-'' @ show_int intPart
            else show_int intPart)
         else
           (let result = show_int intPart @ ''.'' @ fracStr
            in if IsNegative d then ''-'' @ result else result))"

subsection \<open>Parsing\<close>

text \<open>
  The rounding loop of \<open>NewFromString\<close> walks the first 18 fraction bytes from the last
  to the first, on the reversed bytes here: a byte below \<open>'9'\<close> is incremented and ends
  the loop, any other byte becomes \<open>'0'\<close>. When the loop runs off the front (every byte is
  at least \<open>'9'\<close>), the Go code never assigns the result back, so the bytes stay as they
  were.
\<close>

fun round_rev :: "string \<Rightarrow> string option" where
  "round_rev [] = None"
| "round_rev (c # cs) =
     (if byte c < byte (CHR ''9'') then Some (char_of (byte c + 1) # cs)
      else map_option ((#) (CHR ''0'')) (round_rev cs))"

definition round_up :: "string \<Rightarrow> string" where
  "round_up fracPart =
     (case round_rev (rev fracPart) of None \<Rightarrow> fracPart | Some r \<Rightarrow> rev r)"

definition clip_frac :: "string \<Rightarrow> string" where
  "clip_frac fracPart =
     (if length fracPart > Precision then
        (let extra = fracPart ! Precision; kept = take Precision fracPart
         in if byte extra \<ge> byte (CHR ''5'') then round_up kept else kept)
      else fracPart)"

definition NewFromString :: "string \<Rightarrow> error + decimal" where
  "NewFromString s0 =
     (let s1 = TrimSpace s0 in
      if s1 = '''' then Inr Zero
      else
        (let neg = (hd s1 = CHR ''-'');
             s = (if neg then tl s1 else s1);
             parts = split_on (CHR ''.'') s
         in if length parts > 2 then Inl (Errorf (''invalid decimal: '' @ s))
            else
              (case big_SetString (parts ! 0) of
                 None \<Rightarrow> Inl (Errorf (''invalid decimal: '' @ s))
               | Some i \<Rightarrow>
                   (let v = i * tenPow18 in
                    if length parts > 1 then
                      (let fracPart = clip_frac (parts ! 1) in
                       case big_SetString fracPart of
                         None \<Rightarrow> Inl (Errorf (''invalid decimal: '' @ s))
                       | Some fracVal \<Rightarrow>
                           (let scale = Precision - length fracPart;
                                w = v + fracVal * 10 ^ scale
                            in Inr (Decimal (Some (if neg then - w else w)))))
                    else Inr (Decimal (Some (if neg then - v else v)))))))"

subsection \<open>Database reading and writing\<close>

text \<open>
  \<open>Scan\<close> dispatches on the dynamic type of the driver's value; \<open>fmt18\<close> stands for
  \<open>fmt.Sprintf("%.18f", v)\<close> on a float64 of type \<open>'f\<close>. On an error the receiver
  keeps its old value. \<open>Value\<close> writes the decimal string.
\<close>

datatype 'f scan_src = SrcNil | SrcBytes string | SrcString string | SrcInt64 int | SrcFloat64 'f
  | SrcOther string

definition Scan :: "('f \<Rightarrow> string) \<Rightarrow> decimal \<Rightarrow> 'f scan_src \<Rightarrow> error option \<times> decimal" where
  "Scan fmt18 d src =
     (let parse = (\<lambda>s. case NewFromString s of Inl e \<Rightarrow> (Some e, d) | Inr p \<Rightarrow> (None, p))
      in case src of
           SrcNil \<Rightarrow> (None, Decimal (Some 0))
         | SrcBytes v \<Rightarrow> parse v
         | SrcString v \<Rightarrow> parse v
         | SrcInt64 v \<Rightarrow> (None, NewFromInt64 v)
         | SrcFloat64 v \<Rightarrow> parse (fmt18 v)
         | SrcOther ty \<Rightarrow> (Some (Errorf (''unsupported Scan type: '' @ ty)), d))"

definition Value :: "decimal \<Rightarrow> string" where
  "Value d = (case dvalue d of None \<Rightarrow> ''0'' | Some _ \<Rightarrow> String d)"

text \<open>
  \<open>decimalMust\<close>: the helper several packages have, which drops the error (the decimal
  that comes with an error is the zero value).
\<close>

definition decimalMust :: "string \<Rightarrow> decimal" where
  "decimalMust s = (case NewFromString s of Inl _ \<Rightarrow> NilDecimal | Inr d \<Rightarrow> d)"

subsection \<open>Arithmetic on the unscaled integers\<close>

lemma val_Decimal [simp]: "val (Decimal (Some v)) = v" "val (Decimal None) = 0"
  by (simp_all add: val_def)

lemma val_NewFromInt64 [simp]: "val (NewFromInt64 n) = n * tenPow18"
  by (simp add: NewFromInt64_def)

lemma val_Zero [simp]: "val Zero = 0"
  by (simp add: Zero_def)

lemma val_NilDecimal [simp]: "val NilDecimal = 0"
  by (simp add: NilDecimal_def)

lemma val_Add [simp]: "val (Add d e) = val d + val e"
  by (simp add: Add_def)

lemma val_Sub [simp]: "val (Sub d e) = val d - val e"
  by (simp add: Sub_def)

lemma val_Mul: "val (Mul d e) = (val d * val e) div tenPow18"
  by (simp add: Mul_def)

lemma val_Abs [simp]: "val (Abs d) = \<bar>val d\<bar>"
  by (simp add: Abs_def IsNegative_def)

lemma IsZero_iff [simp]: "IsZero d \<longleftrightarrow> val d = 0"
  by (simp add: IsZero_def sgn_0_0)

lemma IsNegative_iff [simp]: "IsNegative d \<longleftrightarrow> val d < 0"
  by (simp add: IsNegative_def)

lemma Cmp_iffs [simp]:
  "Cmp d e < 0 \<longleftrightarrow> val d < val e"
  "Cmp d e \<le> 0 \<longleftrightarrow> val d \<le> val e"
  "0 < Cmp d e \<longleftrightarrow> val e < val d"
  "0 \<le> Cmp d e \<longleftrightarrow> val e \<le> val d"
  "Cmp d e = 0 \<longleftrightarrow> val d = val e"
  by (auto simp: Cmp_def)

lemma val_Min [simp]: "val (Min_decimal d e) = min (val d) (val e)"
  by (simp add: Min_decimal_def)

lemma val_Max [simp]: "val (Max_decimal d e) = max (val d) (val e)"
  by (simp add: Max_decimal_def)

lemma val_Div_nonzero:
  "val e \<noteq> 0 \<Longrightarrow> val (Div d e) = big_Div (val d * tenPow18) (val e)"
  by (simp add: Div_def)

lemma val_Div_zero [simp]: "val e = 0 \<Longrightarrow> val (Div d e) = 0"
  by (simp add: Div_def)

lemma val_Mod: "val (Mod d e) = (if val e = 0 then 0 else big_Mod (val d) (val e))"
  by (simp add: Mod_def)

lemma val_Mul_minus_one [simp]: "val (Mul d (NewFromInt64 (-1))) = - val d"
  by (simp add: val_Mul zdiv_zminus1_eq_if)

lemma val_Mul_nonneg: "0 \<le> val d \<Longrightarrow> 0 \<le> val e \<Longrightarrow> 0 \<le> val (Mul d e)"
  by (simp add: val_Mul pos_imp_zdiv_nonneg_iff)

lemma val_Mul_mono:
  "0 \<le> val p \<Longrightarrow> val a \<le> val b \<Longrightarrow> val (Mul p a) \<le> val (Mul p b)"
  by (simp add: val_Mul zdiv_mono1 mult_left_mono)

text \<open>
  Two decimals with the same integer compare as equal and may still differ as values (nil and
  zero), so decimals are preordered by their integers.
\<close>

instantiation decimal :: preorder
begin

definition less_eq_decimal :: "decimal \<Rightarrow> decimal \<Rightarrow> bool" where
  "less_eq_decimal d e \<longleftrightarrow> val d \<le> val e"

definition less_decimal :: "decimal \<Rightarrow> decimal \<Rightarrow> bool" where
  "less_decimal d e \<longleftrightarrow> val d < val e"

instance
  by standard (auto simp: less_eq_decimal_def less_decimal_def)

end

lemmas decimal_order = less_eq_decimal_def less_decimal_def

subsection \<open>Printing then parsing\<close>

lemma pad18_digits: "list_all is_digit (pad18 n)"
  by (simp add: pad18_def Let_def show_nat_digits list_all_iff [of _ "replicate _ _"])

lemma pad18_val: "digits_val 0 (pad18 n) = n"
  by (simp add: pad18_def Let_def digits_val_replicate_zero digits_val_show_nat)

lemma pad18_length: "n < 10 ^ 18 \<Longrightarrow> length (pad18 n) = 18"
  using show_nat_length [of n 17] by (simp add: pad18_def Let_def)

lemma trimmed_frac:
  assumes "n < 10 ^ 18"
  defines "t \<equiv> TrimRight (CHR ''0'') (pad18 n)"
  shows "list_all is_digit t" and "length t \<le> 18"
    and "digits_val 0 t * 10 ^ (18 - length t) = n"
proof -
  obtain k where k: "pad18 n = t @ replicate k (CHR ''0'')"
    using TrimRight_decomp unfolding t_def by blast
  with pad18_length [OF assms(1)] have len: "length t + k = 18"
    by (metis length_append length_replicate)
  show "list_all is_digit t" using pad18_digits [of n] k by simp
  show "length t \<le> 18" using len by simp
  have "digits_val 0 (t @ replicate k (CHR ''0'')) = n" using pad18_val k by metis
  moreover have "k = 18 - length t" using len by simp
  ultimately show "digits_val 0 t * 10 ^ (18 - length t) = n"
    by (simp add: digits_val_append digits_val_zeros)
qed

lemma digit_bytes: "is_digit c \<Longrightarrow> 32 < byte c \<and> byte c < 128 \<and> c \<noteq> CHR ''-'' \<and> c \<noteq> CHR ''.''"
  by (auto simp: is_digit_def)

lemma TrimSpace_number:
  assumes "ip \<noteq> []" "list_all is_digit ip" "list_all is_digit fp"
  shows "TrimSpace ((if neg then [CHR ''-''] else []) @ ip) = (if neg then [CHR ''-''] else []) @ ip"
    and "fp \<noteq> [] \<Longrightarrow>
      TrimSpace ((if neg then [CHR ''-''] else []) @ ip @ CHR ''.'' # fp) =
        (if neg then [CHR ''-''] else []) @ ip @ CHR ''.'' # fp"
proof -
  have h: "is_digit (hd ip)" and l: "is_digit (last ip)"
    using assms(1,2) by (cases ip; simp add: list_all_iff)+
  show "TrimSpace ((if neg then [CHR ''-''] else []) @ ip) = (if neg then [CHR ''-''] else []) @ ip"
    by (rule TrimSpace_id) (use assms(1) digit_bytes [OF h] digit_bytes [OF l] in auto)
  assume fp: "fp \<noteq> []"
  then have f: "is_digit (last fp)" using assms(3) by (simp add: list_all_iff)
  show "TrimSpace ((if neg then [CHR ''-''] else []) @ ip @ CHR ''.'' # fp) =
        (if neg then [CHR ''-''] else []) @ ip @ CHR ''.'' # fp"
    by (rule TrimSpace_id) (use assms(1) fp digit_bytes [OF h] digit_bytes [OF f] in auto)
qed

lemma dot_notin_digits: "list_all is_digit s \<Longrightarrow> CHR ''.'' \<notin> set s"
  using digit_bytes by (auto simp: list_all_iff)

lemma hd_digit_not_minus: "s \<noteq> [] \<Longrightarrow> list_all is_digit s \<Longrightarrow> hd s \<noteq> CHR ''-''"
  using digit_bytes by (cases s) auto

lemma NewFromString_integer:
  assumes "ip \<noteq> []" "list_all is_digit ip"
  shows "NewFromString ((if neg then [CHR ''-''] else []) @ ip) =
    Inr (Decimal (Some ((if neg then -1 else 1) * (int (digits_val 0 ip) * tenPow18))))"
  using assms hd_digit_not_minus [OF assms] TrimSpace_number(1) [OF assms, of "[]" neg]
  by (cases neg) (simp_all add: NewFromString_def Let_def split_on_none dot_notin_digits
      big_SetString_digits)

lemma NewFromString_fraction:
  assumes "ip \<noteq> []" "list_all is_digit ip" "fp \<noteq> []" "list_all is_digit fp" "length fp \<le> 18"
  shows "NewFromString ((if neg then [CHR ''-''] else []) @ ip @ CHR ''.'' # fp) =
    Inr (Decimal (Some ((if neg then -1 else 1) *
      (int (digits_val 0 ip) * tenPow18 + int (digits_val 0 fp) * 10 ^ (18 - length fp)))))"
proof -
  have hd: "hd (ip @ CHR ''.'' # fp) \<noteq> CHR ''-''"
    using hd_digit_not_minus [OF assms(1,2)] assms(1) by simp
  show ?thesis
    using assms hd TrimSpace_number(2) [OF assms(1,2,4), of neg]
    by (cases neg) (simp_all add: NewFromString_def Let_def split_on_one dot_notin_digits
        big_SetString_digits clip_frac_def)
qed

text \<open>
  The text that \<open>String\<close> builds: a sign for negative values, the integer part, and the
  fraction without its trailing zeros when there is one.
\<close>

lemma String_eq:
  fixes d :: decimal
  defines "n \<equiv> nat \<bar>val d\<bar>"
  defines "ip \<equiv> show_nat (n div 10 ^ 18)"
    and "fp \<equiv> TrimRight (CHR ''0'') (pad18 (n mod 10 ^ 18))"
  shows "String d = (if val d < 0 then [CHR ''-''] else []) @ ip @
    (if fp = [] then [] else CHR ''.'' # fp)"
proof -
  have quot: "big_Div \<bar>val d\<bar> tenPow18 = int (n div 10 ^ 18)"
    by (simp add: n_def zdiv_int)
  have rem: "nat (big_Mod \<bar>val d\<bar> tenPow18) = n mod 10 ^ 18"
    by (simp add: n_def big_Mod_def nat_mod_distrib)
  have int_sign: "n div 10 ^ 18 \<noteq> 0" if "val d < 0" and "fp = []"
  proof
    assume z: "n div 10 ^ 18 = 0"
    have "n mod 10 ^ 18 = 0"
      using trimmed_frac(3) [of "n mod 10 ^ 18"] that(2) by (simp add: fp_def)
    with z have "n = 0" by (metis div_mult_mod_eq mult_0 add_0)
    with that(1) show False by (simp add: n_def)
  qed
  have show_ip: "show_int (int (n div 10 ^ 18)) = ip" by (simp add: show_int_def ip_def)
  show ?thesis
    using int_sign unfolding String_def Let_def rem fp_def [symmetric] quot show_ip by auto
qed

lemma NewFromString_String: "NewFromString (String d) = Inr (Decimal (Some (val d)))"
proof -
  define n where "n = nat \<bar>val d\<bar>"
  define ip where "ip = show_nat (n div 10 ^ 18)"
  define fp where "fp = TrimRight (CHR ''0'') (pad18 (n mod 10 ^ 18))"
  have ip: "ip \<noteq> []" "list_all is_digit ip" "digits_val 0 ip = n div 10 ^ 18"
    by (simp_all add: ip_def show_nat_digits digits_val_show_nat)
  have fp: "list_all is_digit fp" "length fp \<le> 18"
    "digits_val 0 fp * 10 ^ (18 - length fp) = n mod 10 ^ 18"
    using trimmed_frac [of "n mod 10 ^ 18"] by (simp_all add: fp_def)
  have value_eq: "(if val d < 0 then -1 else 1) * int n = val d"
    by (simp add: n_def)
  have str: "String d = (if val d < 0 then [CHR ''-''] else []) @ ip @
      (if fp = [] then [] else CHR ''.'' # fp)"
    using String_eq [of d] by (simp only: n_def ip_def fp_def)
  show ?thesis
  proof (cases "fp = []")
    case True
    with fp(3) have "n mod 10 ^ 18 = 0" by simp
    with div_mult_mod_eq [of n "10 ^ 18"] have "n = n div 10 ^ 18 * 10 ^ 18" by linarith
    then have "int n = int (n div 10 ^ 18 * 10 ^ 18)" by (rule arg_cong)
    then have "int n = int (n div 10 ^ 18) * tenPow18" by simp
    then show ?thesis
      using str True value_eq NewFromString_integer [OF ip(1,2), of "val d < 0"] by (simp add: ip(3))
  next
    case False
    have "n = n div 10 ^ 18 * 10 ^ 18 + digits_val 0 fp * 10 ^ (18 - length fp)"
      by (simp only: fp(3) div_mult_mod_eq)
    then have "int n = int (n div 10 ^ 18 * 10 ^ 18 + digits_val 0 fp * 10 ^ (18 - length fp))"
      by (rule arg_cong)
    then have "int n = int (n div 10 ^ 18) * tenPow18 + int (digits_val 0 fp) * 10 ^ (18 - length fp)"
      by simp
    then show ?thesis
      using str False value_eq NewFromString_fraction [OF ip(1,2) False fp(1,2), of "val d < 0"]
      by (simp add: ip(3))
  qed
qed

subsection \<open>Rounding of long fractions\<close>

lemma char_of_byte_nine: "byte c = 57 \<Longrightarrow> c = CHR ''9''"
proof -
  assume "byte c = 57"
  then have "byte c = byte (CHR ''9'')" by simp
  then show ?thesis by (simp only: of_char_eq_iff)
qed

lemma digit_nine: "is_digit c \<Longrightarrow> \<not> byte c < 57 \<Longrightarrow> c = CHR ''9''"
  by (rule char_of_byte_nine) (simp add: is_digit_def)

lemma digit_bump:
  assumes "is_digit c" "byte c < 57"
  shows "is_digit (char_of (byte c + 1)) \<and> digit_val (char_of (byte c + 1)) = digit_val c + 1"
  using assms by (simp add: is_digit_def digit_val_def)

text \<open>The loop adds one to the number, unless every digit is a nine.\<close>

lemma round_rev_digits:
  "list_all is_digit cs \<Longrightarrow>
     (case round_rev cs of
        None \<Rightarrow> cs = replicate (length cs) (CHR ''9'')
      | Some r \<Rightarrow> list_all is_digit r \<and> length r = length cs \<and>
          cs \<noteq> replicate (length cs) (CHR ''9'') \<and>
          digits_val 0 (rev r) = digits_val 0 (rev cs) + 1)"
proof (induction cs)
  case (Cons c cs)
  show ?case
  proof (cases "byte c < 57")
    case True
    then have "c \<noteq> CHR ''9''" by auto
    with True Cons.prems digit_bump [of c] show ?thesis by (simp add: digits_val_append)
  next
    case False
    with Cons.prems have c: "c = CHR ''9''" by (simp add: digit_nine)
    with Cons show ?thesis
      by (auto simp: digits_val_append digit_val_def split: option.splits)
  qed
qed simp

lemma round_up_digits:
  assumes "list_all is_digit s"
  shows "list_all is_digit (round_up s) \<and> length (round_up s) = length s \<and>
    digits_val 0 (round_up s) =
      digits_val 0 s + (if s = replicate (length s) (CHR ''9'') then 0 else 1)"
  using round_rev_digits [of "rev s"] assms
  by (auto simp: round_up_def rev_swap split: option.splits)

lemma clip_frac_digits:
  assumes "list_all is_digit fp" "18 < length fp"
  shows "list_all is_digit (clip_frac fp) \<and> length (clip_frac fp) = 18 \<and>
    digits_val 0 (clip_frac fp) = digits_val 0 (take 18 fp) +
      (if 5 \<le> digit_val (fp ! 18) \<and> take 18 fp \<noteq> replicate 18 (CHR ''9'') then 1 else 0)"
proof -
  have d: "is_digit (fp ! 18)" "list_all is_digit (take 18 fp)"
    using assms by (auto simp: list_all_iff dest: in_set_takeD)
  then have "53 \<le> byte (fp ! 18) \<longleftrightarrow> 5 \<le> digit_val (fp ! 18)"
    by (auto simp: is_digit_def digit_val_def)
  with d round_up_digits [OF d(2)] assms show ?thesis
    by (auto simp: clip_frac_def Let_def)
qed

lemma NewFromString_clipped:
  assumes "ip \<noteq> []" "list_all is_digit ip" "list_all is_digit fp" "18 < length fp"
  shows "NewFromString ((if neg then [CHR ''-''] else []) @ ip @ CHR ''.'' # fp) =
    Inr (Decimal (Some ((if neg then -1 else 1) *
      (int (digits_val 0 ip) * tenPow18 + int (digits_val 0 (clip_frac fp))))))"
proof -
  have hd: "hd (ip @ CHR ''.'' # fp) \<noteq> CHR ''-''"
    using hd_digit_not_minus [OF assms(1,2)] assms(1) by simp
  have fp: "fp \<noteq> []" using assms(4) by auto
  have c: "list_all is_digit (clip_frac fp)" "length (clip_frac fp) = 18"
    using clip_frac_digits [OF assms(3,4)] by simp_all
  then have ne: "clip_frac fp \<noteq> []" by auto
  show ?thesis
    using assms hd fp c ne TrimSpace_number(2) [OF assms(1,2,3) fp, of neg]
    by (cases neg) (simp_all add: NewFromString_def Let_def split_on_one dot_notin_digits
        big_SetString_digits)
qed

subsection \<open>Properties\<close>

text \<open>C29. Printing a decimal and parsing the text gives the decimal back, for every value and
  sign, and two decimals have the same text exactly when they have the same value.\<close>

theorem decimal_text_roundtrip:
  "NewFromString (String d) = Inr (Decimal (Some (val d))) \<and> (String d = String e \<longleftrightarrow> val d = val e)"
proof -
  have "val d = val e" if "String d = String e"
    using NewFromString_String [of d] NewFromString_String [of e] that by simp
  moreover have "String d = String e" if "val d = val e"
    using that by (simp add: String_eq)
  ultimately show ?thesis using NewFromString_String by blast
qed

text \<open>A number with more than 18 fraction digits is rounded half up at the 18th digit, except
  when the 18 kept digits are all nines: then the carry is lost and the value is truncated.\<close>

theorem parse_rounding:
  assumes "ip \<noteq> []" "list_all is_digit ip" "list_all is_digit fp" "18 < length fp"
  shows "NewFromString ((if neg then ''-'' else '''') @ ip @ ''.'' @ fp) =
    Inr (Decimal (Some ((if neg then -1 else 1) *
      (int (digits_val 0 ip) * tenPow18 + int (digits_val 0 (take 18 fp)) +
       (if 5 \<le> digit_val (fp ! 18) \<and> take 18 fp \<noteq> replicate 18 (CHR ''9'') then 1 else 0)))))"
  using NewFromString_clipped [OF assms, of neg] clip_frac_digits [OF assms(3,4)] by simp

theorem parse_rounding_witness:
  "NewFromString ''-0.0000000000000000015'' = Inr (Decimal (Some (-2))) \<and>
   NewFromString ''1.9999999999999999999'' = Inr (Decimal (Some 1999999999999999999))"
proof -
  have "list_all is_digit ''0000000000000000015''" "list_all is_digit ''9999999999999999999''"
    "list_all is_digit ''0''" "list_all is_digit ''1''"
    by code_simp+
  then have
    "NewFromString ((if True then ''-'' else '''') @ ''0'' @ ''.'' @ ''0000000000000000015'') =
      Inr (Decimal (Some ((if True then -1 else 1) *
        (int (digits_val 0 ''0'') * tenPow18 + int (digits_val 0 (take 18 ''0000000000000000015'')) +
         (if 5 \<le> digit_val (''0000000000000000015'' ! 18) \<and>
             take 18 ''0000000000000000015'' \<noteq> replicate 18 (CHR ''9'') then 1 else 0)))))"
    "NewFromString ((if False then ''-'' else '''') @ ''1'' @ ''.'' @ ''9999999999999999999'') =
      Inr (Decimal (Some ((if False then -1 else 1) *
        (int (digits_val 0 ''1'') * tenPow18 + int (digits_val 0 (take 18 ''9999999999999999999'')) +
         (if 5 \<le> digit_val (''9999999999999999999'' ! 18) \<and>
             take 18 ''9999999999999999999'' \<noteq> replicate 18 (CHR ''9'') then 1 else 0)))))"
    by (intro parse_rounding; simp)+
  moreover have tk: "take 18 ''0000000000000000015'' = ''000000000000000001''"
    "take 18 ''9999999999999999999'' = ''999999999999999999''"
    "''0000000000000000015'' ! 18 = CHR ''5''"
    "replicate 18 (CHR ''9'') = ''999999999999999999''"
    by code_simp+
  moreover have
    "(if True then -1 else 1) *
        (int (digits_val 0 ''0'') * tenPow18 + int (digits_val 0 (take 18 ''0000000000000000015'')) +
         (if 5 \<le> digit_val (''0000000000000000015'' ! 18) \<and>
             take 18 ''0000000000000000015'' \<noteq> replicate 18 (CHR ''9'') then 1 else 0)) = (-2 :: int)"
    "(if False then -1 else 1) *
        (int (digits_val 0 ''1'') * tenPow18 + int (digits_val 0 (take 18 ''9999999999999999999'')) +
         (if 5 \<le> digit_val (''9999999999999999999'' ! 18) \<and>
             take 18 ''9999999999999999999'' \<noteq> replicate 18 (CHR ''9'') then 1 else 0)) =
      (1999999999999999999 :: int)"
    unfolding tk by (simp_all add: digit_val_def)
  ultimately show ?thesis by (simp only: if_True if_False append.simps)
qed

text \<open>\<open>Mul\<close> rounds the exact product down to the next multiple of $10^{-18}$, and \<open>Div\<close>
  leaves a non-negative remainder smaller than the divisor: the error is below one unit.\<close>

theorem mul_div_error:
  assumes "val e \<noteq> 0"
  shows "val (Mul d e) * tenPow18 \<le> val d * val e \<and>
    val d * val e < (val (Mul d e) + 1) * tenPow18 \<and>
    0 \<le> val d * tenPow18 - val (Div d e) * val e \<and>
    val d * tenPow18 - val (Div d e) * val e < \<bar>val e\<bar>"
proof -
  have "val (Div d e) * val e + big_Mod (val d * tenPow18) (val e) = val d * tenPow18"
    using big_Div_Mod [OF assms, of "val d * tenPow18"] assms
    by (simp add: val_Div_nonzero mult.commute)
  moreover have "val (Mul d e) * tenPow18 \<le> val d * val e"
    "val d * val e < (val (Mul d e) + 1) * tenPow18"
    unfolding val_Mul distrib_right
    by (use pos_mod_bound [of tenPow18 "val d * val e"] mult_div_mod_eq [of tenPow18 "val d * val e"] in linarith)+
  ultimately show ?thesis using big_Mod_range [OF assms, of "val d * tenPow18"] by auto
qed

theorem mul_div_error_witness:
  "val (Div (NewFromInt64 (-1)) (NewFromInt64 3)) = -333333333333333334 \<and>
   val (NewFromInt64 (-1)) * tenPow18 - val (Div (NewFromInt64 (-1)) (NewFromInt64 3)) * val (NewFromInt64 3)
     < \<bar>val (NewFromInt64 3)\<bar>"
  using mul_div_error [of "NewFromInt64 3" "NewFromInt64 (-1)"] by (simp add: val_Div_nonzero)

end
