(* ===== verification/Database.thy ===== *)
theory Database
  imports Decimal
begin

section \<open>The database tables the services share (migrations/001_init.up.sql)\<close>

text \<open>
  The rows and constraints of the PostgreSQL schema that the SQL texts of the services touch, and
  how a statement acts on them. A NUMERIC(36,18) column holds a multiple of $10^{-18}$ with at
  most 18 digits before the point, and is modelled by the integer that counts those units; a value
  outside the range is an error of the statement. Statements may also fail for reasons outside the
  program (connection, timeout): the list \<open>db_faults\<close> says, for the statements to come in
  their order, which fail and how. A statement that fails changes nothing. A transaction works on
  a copy of the tables; after an error inside it every further statement fails until it is rolled
  back, as PostgreSQL documents. Transactions are serial: row locks (\<open>FOR UPDATE\<close>) order
  those that touch the same rows.
\<close>

subsection \<open>Rows\<close>

record account =
  ac_balance :: int
  ac_frozen :: int
  ac_version :: int

record order_row =
  r_order_id :: string
  r_client_order_id :: string
  r_user_id :: string
  r_symbol :: string
  r_side :: string
  r_type :: string
  r_time_in_force :: string
  r_price :: int
  r_stop_price :: int
  r_quantity :: int
  r_filled_qty :: int
  r_status :: string

record trade_row =
  t_trade_id :: string
  t_symbol :: string
  t_price :: int
  t_quantity :: int
  t_quote :: int
  t_maker_fee :: int
  t_taker_fee :: int

record audit_row =
  au_user_id :: string
  au_currency :: string
  au_type :: string
  au_amount :: int
  au_before :: int
  au_after :: int

record deposit_address_row =
  da_user_id :: string
  da_currency :: string
  da_chain :: string
  da_address :: string
  da_path :: string

record deposit_row =
  dp_tx_hash :: string
  dp_to_address :: string
  dp_currency :: string
  dp_chain :: string
  dp_amount :: int
  dp_status :: DepositStatus
  dp_user_id :: string

record withdrawal_row =
  w_id :: string
  w_user_id :: string
  w_currency :: string
  w_chain :: string
  w_to_address :: string
  w_amount :: int
  w_fee :: int
  w_wallet_type :: string
  w_status :: string

record db =
  db_users :: "string list"
  db_accounts :: "string \<times> string \<rightharpoonup> account"
  db_orders :: "order_row list"
  db_trades :: "trade_row list"
  db_audit :: "audit_row list"
  db_addresses :: "deposit_address_row list"
  db_deposits :: "deposit_row list"
  db_withdrawals :: "withdrawal_row list"
  db_faults :: "error option list"

definition empty_db :: "string list \<Rightarrow> db" where
  "empty_db users = \<lparr>db_users = users, db_accounts = Map.empty, db_orders = [], db_trades = [],
     db_audit = [], db_addresses = [], db_deposits = [], db_withdrawals = [], db_faults = []\<rparr>"

subsection \<open>Column types\<close>

definition numeric_ok :: "int \<Rightarrow> bool" where
  "numeric_ok v \<longleftrightarrow> \<bar>v\<bar> < 10 ^ 36"

text \<open>The text of a NUMERIC(36,18) value always has 18 fraction digits.\<close>

definition numeric_text :: "int \<Rightarrow> string" where
  "numeric_text v =
     (if v < 0 then ''-'' else '''') @ show_nat (nat \<bar>v\<bar> div 10 ^ 18) @ ''.'' @
     pad18 (nat \<bar>v\<bar> mod 10 ^ 18)"

text \<open>VARCHAR(n) counts characters: the bytes that do not continue a UTF-8 sequence.\<close>

definition char_count :: "string \<Rightarrow> nat" where
  "char_count s = length (filter (\<lambda>c. \<not> (128 \<le> byte c \<and> byte c < 192)) s)"

definition varchar_ok :: "nat \<Rightarrow> string \<Rightarrow> bool" where
  "varchar_ok n s \<longleftrightarrow> char_count s \<le> n"

lemma NewFromString_numeric_text: "NewFromString (numeric_text v) = Inr (Decimal (Some v))"
proof -
  define n where "n = nat \<bar>v\<bar>"
  have sgn: "(if v < 0 then -1 else 1) * int n = v" by (simp add: n_def)
  define q r where "q = n div 10 ^ 18" and "r = n mod 10 ^ 18"
  have fp: "length (pad18 r) = 18" by (rule pad18_length) (simp add: r_def)
  then have ne: "pad18 r \<noteq> []" by auto
  have "n = q * 10 ^ 18 + r" by (simp only: q_def r_def div_mult_mod_eq)
  then have "int n = int (q * 10 ^ 18 + r)" by (rule arg_cong)
  then have "int n = int q * tenPow18 + int r" by simp
  moreover have "numeric_text v = (if v < 0 then ''-'' else '''') @ show_nat q @ ''.'' @ pad18 r"
    by (simp only: numeric_text_def n_def q_def r_def)
  ultimately show ?thesis
    using NewFromString_fraction [of "show_nat q" "pad18 r" "v < 0"] fp ne sgn
    by (auto simp: show_nat_digits pad18_digits digits_val_show_nat pad18_val split: if_splits)
qed

subsection \<open>Statements and transactions\<close>

type_synonym 'a sql = "db \<Rightarrow> (error + 'a) \<times> db"

abbreviation pg_error :: "string \<Rightarrow> error" where "pg_error m \<equiv> Errorf (''ERROR: '' @ m)"

definition stmt :: "(db \<Rightarrow> (error + 'a) \<times> db) \<Rightarrow> 'a sql" where
  "stmt q d =
     (case db_faults d of
        [] \<Rightarrow> q d
      | None # fs \<Rightarrow> q (d\<lparr>db_faults := fs\<rparr>)
      | Some e # fs \<Rightarrow> (Inl e, d\<lparr>db_faults := fs\<rparr>))"

record tx =
  tx_db :: db
  tx_aborted :: bool

definition begin_tx :: "db \<Rightarrow> (error + tx) \<times> db" where
  "begin_tx d = stmt (\<lambda>d. (Inr \<lparr>tx_db = d, tx_aborted = False\<rparr>, d)) d"

definition in_tx :: "'a sql \<Rightarrow> tx \<Rightarrow> (error + 'a) \<times> tx" where
  "in_tx q t =
     (if tx_aborted t then (Inl (pg_error ''current transaction is aborted''), t)
      else
        (case q (tx_db t) of
           (Inl e, d) \<Rightarrow> (Inl e, \<lparr>tx_db = d, tx_aborted = True\<rparr>)
         | (Inr x, d) \<Rightarrow> (Inr x, \<lparr>tx_db = d, tx_aborted = False\<rparr>)))"

text \<open>The tables as they were, with the statements of the transaction behind them.\<close>

definition rollback :: "db \<Rightarrow> tx \<Rightarrow> db" where
  "rollback d t = d\<lparr>db_faults := db_faults (tx_db t)\<rparr>"

definition commit :: "db \<Rightarrow> tx \<Rightarrow> error option \<times> db" where
  "commit d t =
     (if tx_aborted t then (Some (pg_error ''commit unexpectedly resulted in rollback''), rollback d t)
      else
        (case stmt (\<lambda>d. (Inr (), d)) (tx_db t) of
           (Inl e, d') \<Rightarrow> (Some e, d\<lparr>db_faults := db_faults d'\<rparr>)
         | (Inr _, d') \<Rightarrow> (None, d')))"

subsection \<open>Statements on accounts\<close>

definition set_account :: "string \<times> string \<Rightarrow> account \<Rightarrow> db \<Rightarrow> db" where
  "set_account k a d = d\<lparr>db_accounts := (db_accounts d)(k \<mapsto> a)\<rparr>"

text \<open>\<open>UPDATE accounts SET balance = b, frozen_balance = f\<close> of one row, with the range check.\<close>

definition write_account :: "string \<times> string \<Rightarrow> account \<Rightarrow> int sql" where
  "write_account k a d =
     (if numeric_ok (ac_balance a) \<and> numeric_ok (ac_frozen a)
      then (Inr 1, set_account k a d)
      else (Inl (pg_error ''numeric field overflow''), d))"

text \<open>\<open>INSERT INTO accounts ... ON CONFLICT (user_id, currency) DO NOTHING\<close>.\<close>

definition insert_account :: "string \<Rightarrow> string \<Rightarrow> account \<Rightarrow> int sql" where
  "insert_account uid cur a d =
     (if \<not> varchar_ok 20 cur then (Inl (pg_error ''value too long for type character varying(20)''), d)
      else if db_accounts d (uid, cur) \<noteq> None then (Inr 0, d)
      else if uid \<notin> set (db_users d) then
        (Inl (pg_error ''violates foreign key constraint''), d)
      else write_account (uid, cur) a d)"

definition insert_audit :: "audit_row \<Rightarrow> int sql" where
  "insert_audit r d =
     (if au_user_id r \<notin> set (db_users d) then (Inl (pg_error ''violates foreign key constraint''), d)
      else if \<not> (varchar_ok 20 (au_currency r) \<and> numeric_ok (au_amount r) \<and>
          numeric_ok (au_before r) \<and> numeric_ok (au_after r)) then
        (Inl (pg_error ''value out of range''), d)
      else (Inr 1, d\<lparr>db_audit := db_audit d @ [r]\<rparr>))"

lemma set_account_simps [simp]:
  "db_accounts (set_account k a d) = (db_accounts d)(k \<mapsto> a)"
  "db_users (set_account k a d) = db_users d" "db_orders (set_account k a d) = db_orders d"
  "db_faults (set_account k a d) = db_faults d" "db_audit (set_account k a d) = db_audit d"
  "db_trades (set_account k a d) = db_trades d" "db_deposits (set_account k a d) = db_deposits d"
  "db_withdrawals (set_account k a d) = db_withdrawals d"
  "db_addresses (set_account k a d) = db_addresses d"
  by (simp_all add: set_account_def)

text \<open>What all accounts of a currency hold together, over a list of owners.\<close>

definition held :: "db \<Rightarrow> string \<times> string \<Rightarrow> int" where
  "held d k = (case db_accounts d k of None \<Rightarrow> 0 | Some a \<Rightarrow> ac_balance a)"

definition frozen :: "db \<Rightarrow> string \<times> string \<Rightarrow> int" where
  "frozen d k = (case db_accounts d k of None \<Rightarrow> 0 | Some a \<Rightarrow> ac_frozen a)"

subsection \<open>Running statements\<close>

text \<open>
  Whatever a statement guarantees on the tables it sees, it guarantees behind a fault: the fault
  list is no table.
\<close>

lemma stmt_cases:
  assumes "stmt q d = (r, d')"
  obtains (fault) e where "r = Inl e" "d' = d\<lparr>db_faults := tl (db_faults d)\<rparr>"
  | (run) fs where "q (d\<lparr>db_faults := fs\<rparr>) = (r, d')"
proof (cases "db_faults d")
  case Nil
  then have "d\<lparr>db_faults := []\<rparr> = d" by simp
  with Nil assms run [of "[]"] show thesis by (simp add: stmt_def)
next
  case (Cons f fs)
  then show thesis using assms fault run [of fs] by (cases f) (auto simp: stmt_def)
qed

lemma held_faults [simp]: "held (d\<lparr>db_faults := fs\<rparr>) = held d" "frozen (d\<lparr>db_faults := fs\<rparr>) = frozen d"
  by (simp_all add: held_def frozen_def fun_eq_iff)

text \<open>A statement that succeeded in a transaction ran on its tables, and the transaction was alive.\<close>

lemma in_tx_Inr:
  assumes "in_tx (stmt q) t = (Inr x, t')"
  shows "\<not> tx_aborted t \<and> \<not> tx_aborted t' \<and> (\<exists>fs. q ((tx_db t)\<lparr>db_faults := fs\<rparr>) = (Inr x, tx_db t'))"
proof -
  have na: "\<not> tx_aborted t" "\<not> tx_aborted t'" and s: "stmt q (tx_db t) = (Inr x, tx_db t')"
    using assms by (auto simp: in_tx_def split: if_splits prod.splits sum.splits)
  from s have "\<exists>fs. q ((tx_db t)\<lparr>db_faults := fs\<rparr>) = (Inr x, tx_db t')"
    by (cases rule: stmt_cases) auto
  with na show ?thesis by blast
qed

lemma in_tx_alive: "in_tx q t = (r, t') \<Longrightarrow> \<not> tx_aborted t' \<Longrightarrow> \<not> tx_aborted t \<and> isl r = False"
  by (auto simp: in_tx_def split: if_splits prod.splits sum.splits)

lemma stmt_tables:
  "stmt (\<lambda>d. (Inr (f d), d)) d = (r, d') \<Longrightarrow> \<exists>fs. d' = d\<lparr>db_faults := fs\<rparr> \<and> (r = Inr (f d') \<or> isl r)"
  by (auto simp: stmt_def split: list.splits option.splits intro: exI [of _ "[]"])

lemma commit_effect:
  assumes "commit d t = (r, d')"
  shows "(r = None \<longrightarrow> \<not> tx_aborted t \<and> (\<exists>fs. d' = (tx_db t)\<lparr>db_faults := fs\<rparr>)) \<and>
    (r \<noteq> None \<longrightarrow> (\<exists>fs. d' = d\<lparr>db_faults := fs\<rparr>))"
proof (cases "tx_aborted t")
  case True
  with assms show ?thesis by (auto simp: commit_def rollback_def)
next
  case False
  obtain q d1 where s: "stmt (\<lambda>d. (Inr (), d)) (tx_db t) = (q, d1)" by fastforce
  with assms False stmt_tables [OF s] show ?thesis by (auto simp: commit_def split: sum.splits)
qed

lemma begin_tx_effect:
  assumes "begin_tx d = (r, d')"
  shows "(\<exists>fs. d' = d\<lparr>db_faults := fs\<rparr>) \<and>
    (\<forall>t. r = Inr t \<longrightarrow> (\<exists>fs. tx_db t = d\<lparr>db_faults := fs\<rparr>) \<and> \<not> tx_aborted t)"
proof -
  have s: "stmt (\<lambda>d. (Inr \<lparr>tx_db = d, tx_aborted = False\<rparr>, d)) d = (r, d')"
    using assms by (simp add: begin_tx_def)
  from stmt_tables [OF s] show ?thesis by auto
qed

lemma held_set_account: "held (set_account k a d) = (held d)(k := ac_balance a)"
  and frozen_set_account: "frozen (set_account k a d) = (frozen d)(k := ac_frozen a)"
  by (simp_all add: held_def frozen_def fun_eq_iff)

end
