(* ===== verification/Order_Balances.thy ===== *)
theory Order_Balances
  imports Database
begin

section \<open>Balances of the order service (order/balance_provider.go)\<close>

text \<open>
  \<open>DbBalanceProvider\<close>: reading, freezing and releasing the funds of a user. The locale
  \<open>balance_store\<close> states what the order service relies on, and is interpreted on the SQL
  statements of the provider.
\<close>

subsection \<open>The provider\<close>

definition select_account :: "string \<Rightarrow> Currency \<Rightarrow> account sql" where
  "select_account uid cur d =
     (case db_accounts d (uid, cur) of
        None \<Rightarrow> (Inl (Errorf ''no rows in result set''), d)
      | Some a \<Rightarrow> (Inr a, d))"

definition GetBalance :: "string \<Rightarrow> Currency \<Rightarrow> decimal sql" where
  "GetBalance uid cur d =
     (case stmt (select_account uid cur) d of
        (Inl e, d') \<Rightarrow> (Inl (WrapBefore ''get balance: '' e), d')
      | (Inr a, d') \<Rightarrow>
          (case NewFromString (numeric_text (ac_balance a)) of
             Inl e \<Rightarrow> (Inl (WrapBefore ''parse balance: '' e), d')
           | Inr b \<Rightarrow> (Inr b, d')))"

definition freeze_stmt :: "string \<Rightarrow> Currency \<Rightarrow> int \<Rightarrow> int sql" where
  "freeze_stmt uid cur amt d =
     (case db_accounts d (uid, cur) of
        None \<Rightarrow> (Inr 0, d)
      | Some a \<Rightarrow>
          if ac_balance a \<ge> amt then
            write_account (uid, cur)
              (a\<lparr>ac_balance := ac_balance a - amt, ac_frozen := ac_frozen a + amt\<rparr>) d
          else (Inr 0, d))"

definition FreezeBalance :: "string \<Rightarrow> Currency \<Rightarrow> decimal \<Rightarrow> unit sql" where
  "FreezeBalance uid cur amount d =
     (case stmt (freeze_stmt uid cur (val amount)) d of
        (Inl e, d') \<Rightarrow> (Inl (WrapBefore ''freeze balance: '' e), d')
      | (Inr n, d') \<Rightarrow> if n = 0 then (Inl ErrInsufficientBalance, d') else (Inr (), d'))"

definition unfreeze_stmt :: "string \<Rightarrow> Currency \<Rightarrow> int \<Rightarrow> int sql" where
  "unfreeze_stmt uid cur amt d =
     (case db_accounts d (uid, cur) of
        None \<Rightarrow> (Inr 0, d)
      | Some a \<Rightarrow>
          if ac_frozen a \<ge> amt then
            write_account (uid, cur)
              (a\<lparr>ac_balance := ac_balance a + amt, ac_frozen := ac_frozen a - amt\<rparr>) d
          else (Inr 0, d))"

definition UnfreezeBalance :: "string \<Rightarrow> Currency \<Rightarrow> decimal \<Rightarrow> unit sql" where
  "UnfreezeBalance uid cur amount d =
     (case stmt (unfreeze_stmt uid cur (val amount)) d of
        (Inl e, d') \<Rightarrow> (Inl e, d')
      | (Inr n, d') \<Rightarrow> (Inr (), d'))"

definition GetFrozenBalance :: "string \<Rightarrow> Currency \<Rightarrow> decimal sql" where
  "GetFrozenBalance uid cur d =
     (case stmt (select_account uid cur) d of
        (Inl e, d') \<Rightarrow> (Inl (WrapBefore ''get frozen balance: '' e), d')
      | (Inr a, d') \<Rightarrow>
          (case NewFromString (numeric_text (ac_frozen a)) of
             Inl e \<Rightarrow> (Inl (WrapBefore ''parse frozen balance: '' e), d')
           | Inr b \<Rightarrow> (Inr b, d')))"

subsection \<open>What the two writes do\<close>

text \<open>Both leave everything but one row alone, and keep balance plus frozen funds of that row.\<close>

definition owned :: "db \<Rightarrow> string \<times> string \<Rightarrow> int" where
  "owned d k = held d k + frozen d k"

definition same_but :: "string \<times> string \<Rightarrow> db \<Rightarrow> db \<Rightarrow> bool" where
  "same_but k d d' \<longleftrightarrow> (\<forall>k'. k' \<noteq> k \<longrightarrow> db_accounts d' k' = db_accounts d k') \<and>
     db_users d' = db_users d \<and> db_orders d' = db_orders d \<and> db_trades d' = db_trades d \<and>
     db_audit d' = db_audit d \<and> db_addresses d' = db_addresses d \<and>
     db_deposits d' = db_deposits d \<and> db_withdrawals d' = db_withdrawals d"

lemma same_but_refl [simp]: "same_but k d d" "same_but k d (d\<lparr>db_faults := fs\<rparr>)"
  by (simp_all add: same_but_def)

lemma same_but_trans: "same_but k d1 d2 \<Longrightarrow> same_but k d2 d3 \<Longrightarrow> same_but k d1 d3"
  by (simp add: same_but_def)

lemma same_but_set [simp]: "same_but k d (set_account k a d)"
  by (simp add: same_but_def)

lemma freeze_stmt_effect:
  assumes "freeze_stmt uid cur amt d = (r, d')"
  shows "same_but (uid, cur) d d' \<and> owned d' (uid, cur) = owned d (uid, cur) \<and>
    (case r of Inr n \<Rightarrow> if n = 0 then d' = d
       else amt \<le> held d (uid, cur) \<and> held d' (uid, cur) = held d (uid, cur) - amt \<and>
         frozen d' (uid, cur) = frozen d (uid, cur) + amt
     | Inl e \<Rightarrow> d' = d)"
  using assms
  by (auto simp: freeze_stmt_def write_account_def owned_def held_def frozen_def
      split: option.splits if_splits)

lemma unfreeze_stmt_effect:
  assumes "unfreeze_stmt uid cur amt d = (r, d')"
  shows "same_but (uid, cur) d d' \<and> owned d' (uid, cur) = owned d (uid, cur) \<and>
    (case r of Inr n \<Rightarrow> if n = 0 then d' = d
       else amt \<le> frozen d (uid, cur) \<and> held d' (uid, cur) = held d (uid, cur) + amt \<and>
         frozen d' (uid, cur) = frozen d (uid, cur) - amt
     | Inl e \<Rightarrow> d' = d)"
  using assms
  by (auto simp: unfreeze_stmt_def write_account_def owned_def held_def frozen_def
      split: option.splits if_splits)

lemma FreezeBalance_effect:
  assumes "FreezeBalance uid cur amount d = (r, d')"
  shows "same_but (uid, cur) d d' \<and> owned d' (uid, cur) = owned d (uid, cur) \<and>
    (case r of
       Inr _ \<Rightarrow> val amount \<le> held d (uid, cur) \<and> held d' (uid, cur) = held d (uid, cur) - val amount \<and>
         frozen d' (uid, cur) = frozen d (uid, cur) + val amount
     | Inl e \<Rightarrow> held d' = held d \<and> frozen d' = frozen d)"
proof -
  obtain r1 d1 where s: "stmt (freeze_stmt uid cur (val amount)) d = (r1, d1)" by fastforce
  have rd: "d' = d1" "r = (case r1 of Inl e \<Rightarrow> Inl (WrapBefore ''freeze balance: '' e)
      | Inr n \<Rightarrow> if n = 0 then Inl ErrInsufficientBalance else Inr ())"
    using assms s by (auto simp: FreezeBalance_def split: sum.splits if_splits)
  show ?thesis
    using s
  proof (cases rule: stmt_cases)
    case (fault e)
    then show ?thesis using rd by (simp add: owned_def)
  next
    case (run fs)
    from freeze_stmt_effect [OF run] rd show ?thesis
      by (auto simp: owned_def same_but_def split: sum.splits if_splits)
  qed
qed

lemma UnfreezeBalance_effect:
  assumes "UnfreezeBalance uid cur amount d = (r, d')"
  shows "same_but (uid, cur) d d' \<and> owned d' (uid, cur) = owned d (uid, cur) \<and>
    (held d' (uid, cur) = held d (uid, cur) \<and> frozen d' (uid, cur) = frozen d (uid, cur) \<or>
     r = Inr () \<and> val amount \<le> frozen d (uid, cur) \<and>
     held d' (uid, cur) = held d (uid, cur) + val amount \<and>
     frozen d' (uid, cur) = frozen d (uid, cur) - val amount)"
proof -
  obtain r1 d1 where s: "stmt (unfreeze_stmt uid cur (val amount)) d = (r1, d1)" by fastforce
  have rd: "d' = d1" "r = (case r1 of Inl e \<Rightarrow> Inl e | Inr n \<Rightarrow> Inr ())"
    using assms s by (auto simp: UnfreezeBalance_def split: sum.splits)
  show ?thesis
    using s
  proof (cases rule: stmt_cases)
    case (fault e)
    then show ?thesis using rd by (simp add: owned_def)
  next
    case (run fs)
    from unfreeze_stmt_effect [OF run] rd show ?thesis
      by (auto simp: owned_def same_but_def split: sum.splits if_splits)
  qed
qed

text \<open>Reading a balance returns it exactly and changes no table.\<close>

lemma GetBalance_effect:
  assumes "GetBalance uid cur d = (r, d')"
  shows "\<exists>fs. d' = d\<lparr>db_faults := fs\<rparr>"
    and "r = Inr b \<Longrightarrow> db_accounts d (uid, cur) \<noteq> None \<and> val b = held d (uid, cur)"
proof -
  obtain r1 d1 where s: "stmt (select_account uid cur) d = (r1, d1)" by fastforce
  have rd: "d' = d1" "r = (case r1 of Inl e \<Rightarrow> Inl (WrapBefore ''get balance: '' e)
      | Inr a \<Rightarrow> Inr (Decimal (Some (ac_balance a))))"
    using assms s by (auto simp: GetBalance_def NewFromString_numeric_text split: sum.splits)
  have "(\<exists>fs. d' = d\<lparr>db_faults := fs\<rparr>) \<and>
      (\<forall>b. r = Inr b \<longrightarrow> db_accounts d (uid, cur) \<noteq> None \<and> val b = held d (uid, cur))"
    using s
  proof (cases rule: stmt_cases)
    case (fault e)
    then show ?thesis using rd by auto
  next
    case (run fs)
    then show ?thesis using rd by (auto simp: select_account_def held_def split: option.splits)
  qed
  then show "\<exists>fs. d' = d\<lparr>db_faults := fs\<rparr>"
    and "r = Inr b \<Longrightarrow> db_accounts d (uid, cur) \<noteq> None \<and> val b = held d (uid, cur)" by blast+
qed

text \<open>
  The relation between the tables before and after an operation of one user: balance plus frozen
  funds of every account are as before, and the accounts of other users are untouched.
\<close>

definition own_funds_only :: "string \<Rightarrow> db \<Rightarrow> db \<Rightarrow> bool" where
  "own_funds_only uid d d' \<longleftrightarrow> (\<forall>k. owned d' k = owned d k) \<and>
     (\<forall>k. fst k \<noteq> uid \<longrightarrow> db_accounts d' k = db_accounts d k)"

named_theorems funds

lemma owned_frame: "db_accounts d' k = db_accounts d k \<Longrightarrow> owned d' k = owned d k"
  by (simp add: owned_def held_def frozen_def)

lemma own_funds_frame: "db_accounts d' = db_accounts d \<Longrightarrow> own_funds_only uid d d'"
  by (auto simp: own_funds_only_def intro!: owned_frame)

lemma own_funds_refl [funds]: "own_funds_only uid d d" "own_funds_only uid d (d\<lparr>db_faults := fs\<rparr>)"
  by (simp_all add: own_funds_frame)

lemma own_funds_trans [trans]:
  "own_funds_only uid d1 d2 \<Longrightarrow> own_funds_only uid d2 d3 \<Longrightarrow> own_funds_only uid d1 d3"
  by (simp add: own_funds_only_def)

lemma same_but_owned: "same_but k d d' \<Longrightarrow> owned d' k = owned d k \<Longrightarrow> own_funds_only (fst k) d d'"
  unfolding own_funds_only_def
proof (intro conjI allI impI)
  fix k' :: "string \<times> string" assume s: "same_but k d d'" and o': "owned d' k = owned d k"
  show "owned d' k' = owned d k'"
  proof (cases "k' = k")
    case False
    with s have "db_accounts d' k' = db_accounts d k'" unfolding same_but_def by blast
    then show ?thesis by (rule owned_frame)
  qed (use o' in simp)
next
  fix k' :: "string \<times> string" assume "same_but k d d'" "fst k' \<noteq> fst k"
  then show "db_accounts d' k' = db_accounts d k'" unfolding same_but_def by metis
qed

subsection \<open>What the order service relies on\<close>

text \<open>
  A store of balances that can be read, frozen and released: every call concerns one account, keeps
  balance plus frozen funds of it, and reading changes no table.
\<close>

locale balance_store =
  fixes freeze release :: "string \<Rightarrow> Currency \<Rightarrow> decimal \<Rightarrow> unit sql"
    and read :: "string \<Rightarrow> Currency \<Rightarrow> decimal sql"
  assumes freeze_law: "freeze uid cur amount d = (r, d') \<Longrightarrow>
      same_but (uid, cur) d d' \<and> owned d' (uid, cur) = owned d (uid, cur)"
    and release_law: "release uid cur amount d = (r, d') \<Longrightarrow>
      same_but (uid, cur) d d' \<and> owned d' (uid, cur) = owned d (uid, cur)"
    and read_law: "read uid cur d = (r2, d') \<Longrightarrow> \<exists>fs. d' = d\<lparr>db_faults := fs\<rparr>"
begin

lemma freeze_funds: "freeze uid cur amount d = (r, d') \<Longrightarrow> own_funds_only uid d d'"
  using freeze_law [of uid cur amount d r d'] same_but_owned [of "(uid, cur)" d d'] by simp

lemma release_funds: "release uid cur amount d = (r, d') \<Longrightarrow> own_funds_only uid d d'"
  using release_law [of uid cur amount d r d'] same_but_owned [of "(uid, cur)" d d'] by simp

lemma read_funds: "read uid' cur d = (r2, d') \<Longrightarrow> own_funds_only uid d d'"
  using read_law [of uid' cur d r2 d'] own_funds_refl by auto

end

interpretation db_balances: balance_store FreezeBalance UnfreezeBalance GetBalance
proof unfold_locales
  fix uid cur amount d r d'
  show "FreezeBalance uid cur amount d = (r, d') \<Longrightarrow>
      same_but (uid, cur) d d' \<and> owned d' (uid, cur) = owned d (uid, cur)"
    using FreezeBalance_effect [of uid cur amount d r d'] by blast
  show "UnfreezeBalance uid cur amount d = (r, d') \<Longrightarrow>
      same_but (uid, cur) d d' \<and> owned d' (uid, cur) = owned d (uid, cur)"
    using UnfreezeBalance_effect [of uid cur amount d r d'] by blast
next
  fix uid cur d d' and r :: "error + decimal"
  show "GetBalance uid cur d = (r, d') \<Longrightarrow> \<exists>fs. d' = d\<lparr>db_faults := fs\<rparr>"
    by (rule GetBalance_effect(1))
qed

lemmas db_balances_funds [funds] =
  db_balances.freeze_funds db_balances.release_funds db_balances.read_funds

end
