(* ===== verification/Order_Queue.thy ===== *)
theory Order_Queue
  imports Decimal
begin

section \<open>Orders and the FIFO queue of a price level (matching/types.go, orderbook.go)\<close>

text \<open>
  The engine's \<open>Order\<close>, the trade record \<open>MatchResult\<close>, and \<open>orderQueue\<close>: the orders of one
  price in arrival order, with their cached volume and count. A queue is the list of its orders
  here; the doubly linked nodes of the Go queue are modelled one by one in theory \<open>Queue_Heap\<close>,
  which refines this model. The locale \<open>order_fifo\<close> states what the rest of the book relies on,
  and the list model provides it.
\<close>

subsection \<open>Orders and trades\<close>

record Order =
  o_OrderID :: string
  o_UserID :: string
  o_Symbol :: Symbol
  o_Side :: Side
  o_Type :: OrderType
  o_TimeInForce :: TimeInForce
  o_Price :: decimal
  o_StopPrice :: decimal
  o_Quantity :: decimal
  o_FilledQty :: decimal
  o_DisplayQty :: decimal
  o_Timestamp :: int
  o_Status :: OrderStatus

definition Remaining :: "Order \<Rightarrow> decimal" where
  "Remaining ord = Sub (o_Quantity ord) (o_FilledQty ord)"

definition IsFilled :: "Order \<Rightarrow> bool" where
  "IsFilled ord \<longleftrightarrow> Cmp (Remaining ord) Zero \<le> 0"

record MatchResult =
  m_TakerOrderID :: string
  m_MakerOrderID :: string
  m_TakerUserID :: string
  m_MakerUserID :: string
  m_Symbol :: Symbol
  m_Price :: decimal
  m_Quantity :: decimal
  m_QuoteQty :: decimal
  m_TakerSide :: Side
  m_Timestamp :: int

text \<open>The unfilled quantity in units of $10^{-18}$.\<close>

abbreviation rem :: "Order \<Rightarrow> int" where
  "rem ord \<equiv> val (Remaining ord)"

abbreviation price :: "Order \<Rightarrow> int" where
  "price ord \<equiv> val (o_Price ord)"

lemma rem_eq: "rem ord = val (o_Quantity ord) - val (o_FilledQty ord)"
  by (simp add: Remaining_def)

lemma IsFilled_iff: "IsFilled ord \<longleftrightarrow> rem ord \<le> 0"
  by (simp add: IsFilled_def)

lemma rem_updates [simp]:
  "rem (ord\<lparr>o_Status := s\<rparr>) = rem ord"
  "rem (ord\<lparr>o_FilledQty := f\<rparr>) = val (o_Quantity ord) - val f"
  by (simp_all add: Remaining_def)

definition total_rem :: "Order list \<Rightarrow> int" where
  "total_rem os = sum_list (map rem os)"

lemma total_rem_simps [simp]:
  "total_rem [] = 0"
  "total_rem (x # xs) = rem x + total_rem xs"
  "total_rem (xs @ ys) = total_rem xs + total_rem ys"
  by (simp_all add: total_rem_def)

lemma total_rem_nonneg: "(\<And>x. x \<in> set os \<Longrightarrow> 0 \<le> rem x) \<Longrightarrow> 0 \<le> total_rem os"
  by (induction os) auto

subsection \<open>The queue and its operations\<close>

record orderQueue =
  q_orders :: "Order list"
  q_volume :: decimal
  q_len :: int

definition new_queue :: orderQueue where
  "new_queue = \<lparr>q_orders = [], q_volume = NilDecimal, q_len = 0\<rparr>"

definition queue_push :: "Order \<Rightarrow> orderQueue \<Rightarrow> orderQueue" where
  "queue_push ord q =
     q\<lparr>q_orders := q_orders q @ [ord], q_volume := Add (q_volume q) (Remaining ord),
       q_len := q_len q + 1\<rparr>"

definition queue_pop :: "orderQueue \<Rightarrow> Order option \<times> orderQueue" where
  "queue_pop q =
     (case q_orders q of
        [] \<Rightarrow> (None, q)
      | ord # rest \<Rightarrow>
          (Some ord, q\<lparr>q_orders := rest, q_volume := Sub (q_volume q) (Remaining ord),
             q_len := q_len q - 1\<rparr>))"

fun find_order :: "string \<Rightarrow> Order list \<Rightarrow> Order option" where
  "find_order oid [] = None"
| "find_order oid (ord # rest) = (if o_OrderID ord = oid then Some ord else find_order oid rest)"

fun drop_order :: "string \<Rightarrow> Order list \<Rightarrow> Order list" where
  "drop_order oid [] = []"
| "drop_order oid (ord # rest) = (if o_OrderID ord = oid then rest else ord # drop_order oid rest)"

definition queue_remove :: "string \<Rightarrow> orderQueue \<Rightarrow> Order option \<times> orderQueue" where
  "queue_remove oid q =
     (case find_order oid (q_orders q) of
        None \<Rightarrow> (None, q)
      | Some ord \<Rightarrow>
          (Some ord, q\<lparr>q_orders := drop_order oid (q_orders q),
             q_volume := Sub (q_volume q) (Remaining ord), q_len := q_len q - 1\<rparr>))"

subsection \<open>Looking an order up and dropping it\<close>

lemma find_order_None_iff: "find_order oid os = None \<longleftrightarrow> oid \<notin> o_OrderID ` set os"
  by (induction os) auto

lemma find_order_SomeD: "find_order oid os = Some ord \<Longrightarrow> ord \<in> set os \<and> o_OrderID ord = oid"
  by (induction os) (auto split: if_splits)

lemma find_order_append:
  "find_order oid (xs @ ys) = (case find_order oid xs of None \<Rightarrow> find_order oid ys | Some x \<Rightarrow> Some x)"
  by (induction xs) auto

lemma drop_order_none: "oid \<notin> o_OrderID ` set os \<Longrightarrow> drop_order oid os = os"
  by (induction os) auto

lemma drop_order_None: "find_order oid os = None \<Longrightarrow> drop_order oid os = os"
  by (simp add: find_order_None_iff drop_order_none)

lemma drop_order_append:
  "drop_order oid (xs @ ys) =
     (case find_order oid xs of None \<Rightarrow> xs @ drop_order oid ys | Some x \<Rightarrow> drop_order oid xs @ ys)"
  by (induction xs) (auto split: option.splits)

lemma drop_order_split:
  "find_order oid os = Some ord \<Longrightarrow>
     \<exists>xs ys. os = xs @ ord # ys \<and> drop_order oid os = xs @ ys \<and> oid \<notin> o_OrderID ` set xs"
proof (induction os)
  case (Cons a os)
  show ?case
  proof (cases "o_OrderID a = oid")
    case True
    with Cons.prems show ?thesis by (intro exI [of _ "[]"] exI [of _ os]) auto
  next
    case False
    with Cons obtain xs ys where "os = xs @ ord # ys" "drop_order oid os = xs @ ys"
      "oid \<notin> o_OrderID ` set xs" by auto
    with False show ?thesis by (intro exI [of _ "a # xs"] exI [of _ ys]) auto
  qed
qed simp

lemma set_drop_order: "set (drop_order oid os) \<subseteq> set os"
  by (induction os) auto

lemma drop_order_filter:
  "distinct (map o_OrderID os) \<Longrightarrow> drop_order oid os = filter (\<lambda>x. o_OrderID x \<noteq> oid) os"
  by (induction os) (auto simp: filter_id_conv image_iff intro!: filter_True [symmetric])

lemma total_rem_drop_order:
  "find_order oid os = Some ord \<Longrightarrow> total_rem (drop_order oid os) = total_rem os - rem ord"
  using drop_order_split [of oid os ord] by auto

lemma length_drop_order:
  "find_order oid os = Some ord \<Longrightarrow> length os = Suc (length (drop_order oid os))"
  using drop_order_split [of oid os ord] by auto

subsection \<open>The interface of a FIFO queue with a cached volume and count\<close>

text \<open>
  A queue state \<open>'q\<close> with its order list \<open>abs\<close>, cached volume \<open>vol\<close> and count
  \<open>len\<close>. The laws say that the three operations act on the list as a FIFO queue with
  removal by identifier and that the two caches stay in step with it.
\<close>

locale order_fifo =
  fixes abs :: "'q \<Rightarrow> Order list"
    and inv :: "'q \<Rightarrow> bool"
    and vol :: "'q \<Rightarrow> int"
    and len :: "'q \<Rightarrow> int"
    and push :: "Order \<Rightarrow> 'q \<Rightarrow> 'q"
    and pop :: "'q \<Rightarrow> Order option \<times> 'q"
    and remove :: "string \<Rightarrow> 'q \<Rightarrow> Order option \<times> 'q"
  assumes vol_abs: "inv q \<Longrightarrow> vol q = total_rem (abs q)"
    and len_abs: "inv q \<Longrightarrow> len q = int (length (abs q))"
    and inv_push: "inv q \<Longrightarrow> inv (push ord q)"
    and abs_push: "inv q \<Longrightarrow> abs (push ord q) = abs q @ [ord]"
    and inv_pop: "inv q \<Longrightarrow> inv (snd (pop q))"
    and abs_pop: "inv q \<Longrightarrow> abs (snd (pop q)) = tl (abs q)"
    and ret_pop: "inv q \<Longrightarrow> fst (pop q) = (case abs q of [] \<Rightarrow> None | x # _ \<Rightarrow> Some x)"
    and inv_remove: "inv q \<Longrightarrow> inv (snd (remove oid q))"
    and abs_remove: "inv q \<Longrightarrow> abs (snd (remove oid q)) = drop_order oid (abs q)"
    and ret_remove: "inv q \<Longrightarrow> fst (remove oid q) = find_order oid (abs q)"
begin

lemma push_last: "inv q \<Longrightarrow> fst (pop q) = None \<Longrightarrow> fst (pop (push ord q)) = Some ord"
  by (simp add: ret_pop inv_push abs_push split: list.splits)

lemma push_keeps_head: "inv q \<Longrightarrow> fst (pop q) = Some x \<Longrightarrow> fst (pop (push ord q)) = Some x"
  by (auto simp: ret_pop inv_push abs_push split: list.splits)

lemma remove_absent: "inv q \<Longrightarrow> oid \<notin> o_OrderID ` set (abs q) \<Longrightarrow>
    fst (remove oid q) = None \<and> vol (snd (remove oid q)) = vol q"
  by (simp add: ret_remove find_order_None_iff vol_abs inv_remove abs_remove drop_order_none)

lemma remove_present: "inv q \<Longrightarrow> fst (remove oid q) = Some ord \<Longrightarrow>
    vol (snd (remove oid q)) = vol q - rem ord \<and> len (snd (remove oid q)) = len q - 1"
  by (simp add: ret_remove vol_abs len_abs inv_remove abs_remove total_rem_drop_order
      length_drop_order [of oid "abs q" ord])

end

subsection \<open>The list model provides the interface\<close>

definition queue_ok :: "orderQueue \<Rightarrow> bool" where
  "queue_ok q \<longleftrightarrow> val (q_volume q) = total_rem (q_orders q) \<and> q_len q = int (length (q_orders q))"

lemma queue_ok_new [simp]: "queue_ok new_queue"
  by (simp add: queue_ok_def new_queue_def)

lemma queue_ok_push [simp]: "queue_ok q \<Longrightarrow> queue_ok (queue_push ord q)"
  by (simp add: queue_ok_def queue_push_def)

lemma queue_ok_pop: "queue_ok q \<Longrightarrow> queue_ok (snd (queue_pop q))"
  by (auto simp: queue_ok_def queue_pop_def split: list.splits)

lemma queue_ok_remove: "queue_ok q \<Longrightarrow> queue_ok (snd (queue_remove oid q))"
  by (auto simp: queue_ok_def queue_remove_def total_rem_drop_order length_drop_order
      split: option.splits)

interpretation list_queue: order_fifo q_orders queue_ok "\<lambda>q. val (q_volume q)" q_len
  queue_push queue_pop queue_remove
proof unfold_locales
  fix q :: orderQueue and ord :: Order and oid :: string
  assume q: "queue_ok q"
  show "val (q_volume q) = total_rem (q_orders q)" and "q_len q = int (length (q_orders q))"
    using q by (simp_all add: queue_ok_def)
  show "queue_ok (queue_push ord q)" "queue_ok (snd (queue_pop q))"
    "queue_ok (snd (queue_remove oid q))"
    using q by (simp_all add: queue_ok_pop queue_ok_remove)
  show "q_orders (queue_push ord q) = q_orders q @ [ord]" by (simp add: queue_push_def)
  show "q_orders (snd (queue_pop q)) = tl (q_orders q)"
    "fst (queue_pop q) = (case q_orders q of [] \<Rightarrow> None | x # _ \<Rightarrow> Some x)"
    by (simp_all add: queue_pop_def split: list.splits)
  show "q_orders (snd (queue_remove oid q)) = drop_order oid (q_orders q)"
    "fst (queue_remove oid q) = find_order oid (q_orders q)"
    by (cases "find_order oid (q_orders q)"; simp add: queue_remove_def drop_order_None)+
qed

end
