(* ===== verification/Order_Book.thy ===== *)
theory Order_Book
  imports Order_Queue "HOL-Library.Word"
begin

section \<open>The order book (matching/orderbook.go)\<close>

text \<open>
  A book holds its bid levels in descending and its ask levels in ascending order of price, each
  level with its FIFO queue. All methods of \<open>OrderBook\<close> are here except the matching loop
  (theory \<open>Matcher\<close>). A book's mutex makes every method one atomic step, so a method is one
  function from the book to the book; where a method also mutates the order it was given, the
  order is returned beside the book. The locale \<open>price_side\<close> holds what both sides share,
  for an order \<open>ahead\<close> on prices, and is interpreted on bids and on asks.
\<close>

subsection \<open>Levels and books\<close>

record priceLevel =
  pl_price :: decimal
  pl_orders :: orderQueue

record OrderBook =
  ob_symbol :: Symbol
  ob_bids :: "priceLevel list"
  ob_asks :: "priceLevel list"
  ob_seqNum :: "64 word"

definition NewOrderBook :: "Symbol \<Rightarrow> OrderBook" where
  "NewOrderBook symb = \<lparr>ob_symbol = symb, ob_bids = [], ob_asks = [], ob_seqNum = 0\<rparr>"

text \<open>A fresh level for an order, and an order queued at an existing level.\<close>

definition new_level :: "Order \<Rightarrow> priceLevel" where
  "new_level ord = \<lparr>pl_price = o_Price ord, pl_orders = queue_push ord new_queue\<rparr>"

definition push_level :: "Order \<Rightarrow> priceLevel \<Rightarrow> priceLevel" where
  "push_level ord pl = pl\<lparr>pl_orders := queue_push ord (pl_orders pl)\<rparr>"

text \<open>\<open>append\<close> of one slot, \<open>copy\<close> of the tail one to the right, store at \<open>i\<close>.\<close>

definition insert_at :: "nat \<Rightarrow> 'a \<Rightarrow> 'a list \<Rightarrow> 'a list" where
  "insert_at i x xs = take i xs @ x # drop i xs"

text \<open>\<open>copy\<close> of the tail one to the left, last slot cut off.\<close>

definition remove_level :: "nat \<Rightarrow> 'a list \<Rightarrow> 'a list" where
  "remove_level i xs = take i xs @ drop (Suc i) xs"

definition bid_insert :: "Order \<Rightarrow> priceLevel list \<Rightarrow> priceLevel list" where
  "bid_insert ord bids =
     (let i = sort_Search (length bids) (\<lambda>i. Cmp (pl_price (bids ! i)) (o_Price ord) \<le> 0)
      in if i < length bids \<and> Cmp (pl_price (bids ! i)) (o_Price ord) = 0
         then bids[i := push_level ord (bids ! i)]
         else insert_at i (new_level ord) bids)"

definition addBid :: "OrderBook \<Rightarrow> Order \<Rightarrow> OrderBook \<times> Order" where
  "addBid ob ord0 =
     (let ord = ord0\<lparr>o_Status := OrderStatusOpen\<rparr>
      in (ob\<lparr>ob_seqNum := ob_seqNum ob + 1, ob_bids := bid_insert ord (ob_bids ob)\<rparr>, ord))"

definition ask_insert :: "Order \<Rightarrow> priceLevel list \<Rightarrow> priceLevel list" where
  "ask_insert ord asks =
     (let i = sort_Search (length asks) (\<lambda>i. Cmp (pl_price (asks ! i)) (o_Price ord) \<ge> 0)
      in if i < length asks \<and> Cmp (pl_price (asks ! i)) (o_Price ord) = 0
         then asks[i := push_level ord (asks ! i)]
         else insert_at i (new_level ord) asks)"

definition addAsk :: "OrderBook \<Rightarrow> Order \<Rightarrow> OrderBook \<times> Order" where
  "addAsk ob ord0 =
     (let ord = ord0\<lparr>o_Status := OrderStatusOpen\<rparr>
      in (ob\<lparr>ob_seqNum := ob_seqNum ob + 1, ob_asks := ask_insert ord (ob_asks ob)\<rparr>, ord))"

subsection \<open>Cancelling and looking up\<close>

text \<open>The search of one side by \<open>CancelOrder\<close>: the first level whose queue holds the order.\<close>

fun cancel_levels :: "string \<Rightarrow> priceLevel list \<Rightarrow> (Order \<times> priceLevel list) option" where
  "cancel_levels oid [] = None"
| "cancel_levels oid (pl # rest) =
     (case queue_remove oid (pl_orders pl) of
        (Some ord, q) \<Rightarrow>
          Some (ord, if q_len q = 0 then rest else pl\<lparr>pl_orders := q\<rparr> # rest)
      | (None, _) \<Rightarrow> map_option (\<lambda>(ord, ls). (ord, pl # ls)) (cancel_levels oid rest))"

definition CancelOrder :: "OrderBook \<Rightarrow> string \<Rightarrow> OrderBook \<times> Order option" where
  "CancelOrder ob oid =
     (case cancel_levels oid (ob_bids ob) of
        Some (ord, bids) \<Rightarrow>
          (ob\<lparr>ob_bids := bids\<rparr>, Some (ord\<lparr>o_Status := OrderStatusCancelled\<rparr>))
      | None \<Rightarrow>
          (case cancel_levels oid (ob_asks ob) of
             Some (ord, asks) \<Rightarrow>
               (ob\<lparr>ob_asks := asks\<rparr>, Some (ord\<lparr>o_Status := OrderStatusCancelled\<rparr>))
           | None \<Rightarrow> (ob, None)))"

fun get_levels :: "string \<Rightarrow> priceLevel list \<Rightarrow> Order option" where
  "get_levels oid [] = None"
| "get_levels oid (pl # rest) =
     (case find_order oid (q_orders (pl_orders pl)) of
        Some ord \<Rightarrow> Some ord
      | None \<Rightarrow> get_levels oid rest)"

definition GetOrder :: "OrderBook \<Rightarrow> string \<Rightarrow> Order option" where
  "GetOrder ob oid =
     (case get_levels oid (ob_bids ob) of
        Some ord \<Rightarrow> Some ord
      | None \<Rightarrow> get_levels oid (ob_asks ob))"

subsection \<open>Reading the book\<close>

definition BestBid :: "OrderBook \<Rightarrow> decimal" where
  "BestBid ob = (if length (ob_bids ob) = 0 then Zero else pl_price (ob_bids ob ! 0))"

definition BestAsk :: "OrderBook \<Rightarrow> decimal" where
  "BestAsk ob = (if length (ob_asks ob) = 0 then Zero else pl_price (ob_asks ob ! 0))"

definition Spread :: "OrderBook \<Rightarrow> decimal" where
  "Spread ob =
     (if length (ob_bids ob) = 0 \<or> length (ob_asks ob) = 0 then Zero
      else Sub (pl_price (ob_asks ob ! 0)) (pl_price (ob_bids ob ! 0)))"

record PriceLevelSnapshot =
  ps_Price :: string
  ps_Volume :: string
  ps_Orders :: int

record BookSnapshot =
  bs_Symbol :: Symbol
  bs_Bids :: "PriceLevelSnapshot list"
  bs_Asks :: "PriceLevelSnapshot list"
  bs_SeqNum :: "64 word"

definition level_snapshot :: "priceLevel \<Rightarrow> PriceLevelSnapshot" where
  "level_snapshot pl =
     \<lparr>ps_Price = String (pl_price pl), ps_Volume = String (q_volume (pl_orders pl)),
      ps_Orders = q_len (pl_orders pl)\<rparr>"

definition clip_depth :: "int \<Rightarrow> nat \<Rightarrow> nat" where
  "clip_depth depth n = (if depth > 0 \<and> depth < int n then nat depth else n)"

definition Snapshot :: "OrderBook \<Rightarrow> int \<Rightarrow> BookSnapshot" where
  "Snapshot ob depth =
     \<lparr>bs_Symbol = ob_symbol ob,
      bs_Bids = map level_snapshot (take (clip_depth depth (length (ob_bids ob))) (ob_bids ob)),
      bs_Asks = map level_snapshot (take (clip_depth depth (length (ob_asks ob))) (ob_asks ob)),
      bs_SeqNum = ob_seqNum ob\<rparr>"

definition Size :: "OrderBook \<Rightarrow> nat \<times> nat" where
  "Size ob = (length (ob_bids ob), length (ob_asks ob))"

abbreviation newline :: string where "newline \<equiv> [CHR 0x0A]"

definition dump_level :: "priceLevel \<Rightarrow> string" where
  "dump_level pl =
     ''  '' @ String (pl_price pl) @ '' x '' @ String (q_volume (pl_orders pl)) @ '' ('' @
     show_int (q_len (pl_orders pl)) @ '' orders)'' @ newline"

definition Dump :: "OrderBook \<Rightarrow> string" where
  "Dump ob =
     ''=== '' @ ob_symbol ob @ '' Order Book ==='' @ newline @
     ''Bids:'' @ newline @ concat (map dump_level (ob_bids ob)) @
     ''Asks:'' @ newline @ concat (map dump_level (ob_asks ob))"

subsection \<open>The orders of a side in matching order\<close>

abbreviation lprice :: "priceLevel \<Rightarrow> int" where
  "lprice pl \<equiv> val (pl_price pl)"

abbreviation lorders :: "priceLevel \<Rightarrow> Order list" where
  "lorders pl \<equiv> q_orders (pl_orders pl)"

definition flat :: "priceLevel list \<Rightarrow> Order list" where
  "flat ls = concat (map lorders ls)"

lemma flat_simps [simp]:
  "flat [] = []"
  "flat (l # ls) = lorders l @ flat ls"
  "flat (ls @ ms) = flat ls @ flat ms"
  by (simp_all add: flat_def)

definition level_ok :: "priceLevel \<Rightarrow> bool" where
  "level_ok l \<longleftrightarrow> queue_ok (pl_orders l) \<and> lorders l \<noteq> [] \<and>
     (\<forall>x \<in> set (lorders l). price x = lprice l \<and> 0 < rem x)"

definition side_ok :: "(int \<Rightarrow> int \<Rightarrow> bool) \<Rightarrow> priceLevel list \<Rightarrow> bool" where
  "side_ok ahead ls \<longleftrightarrow>
     sorted_wrt (\<lambda>a b. ahead (lprice a) (lprice b)) ls \<and> (\<forall>l \<in> set ls. level_ok l)"

lemma side_ok_Nil [simp]: "side_ok ahead []"
  by (simp add: side_ok_def)

lemma side_ok_Cons: "side_ok ahead (l # ls) \<longleftrightarrow>
    level_ok l \<and> (\<forall>m \<in> set ls. ahead (lprice l) (lprice m)) \<and> side_ok ahead ls"
  by (auto simp: side_ok_def)

lemma level_ok_volume: "level_ok l \<Longrightarrow> val (q_volume (pl_orders l)) = total_rem (lorders l)"
  by (simp add: level_ok_def queue_ok_def)

lemma level_ok_push:
  "level_ok l \<Longrightarrow> price ord = lprice l \<Longrightarrow> 0 < rem ord \<Longrightarrow> level_ok (push_level ord l)"
  by (auto simp: level_ok_def push_level_def list_queue.abs_push list_queue.inv_push)

lemma level_ok_new: "0 < rem ord \<Longrightarrow> level_ok (new_level ord)"
  by (simp add: level_ok_def new_level_def list_queue.abs_push new_queue_def queue_ok_def
      queue_push_def)

lemma lorders_push_level [simp]: "lorders (push_level ord l) = lorders l @ [ord]"
  by (simp add: push_level_def queue_push_def)

lemma lprice_push_level [simp]: "lprice (push_level ord l) = lprice l"
  by (simp add: push_level_def)

lemma lorders_new_level [simp]: "lorders (new_level ord) = [ord]"
  by (simp add: new_level_def queue_push_def new_queue_def)

lemma lprice_new_level [simp]: "lprice (new_level ord) = price ord"
  by (simp add: new_level_def)

text \<open>
  The abstract insertion: behind every order whose price is not worse, in front of the first
  order that the newcomer is ahead of.
\<close>

fun insert_order :: "(int \<Rightarrow> int \<Rightarrow> bool) \<Rightarrow> Order \<Rightarrow> Order list \<Rightarrow> Order list" where
  "insert_order ahead ord [] = [ord]"
| "insert_order ahead ord (x # xs) =
     (if ahead (price ord) (price x) then ord # x # xs else x # insert_order ahead ord xs)"

lemma insert_order_behind:
  "(\<And>x. x \<in> set xs \<Longrightarrow> \<not> ahead (price ord) (price x)) \<Longrightarrow>
     insert_order ahead ord (xs @ ys) = xs @ insert_order ahead ord ys"
  by (induction xs) auto

lemma insert_order_front:
  "(\<And>x. x \<in> set ys \<Longrightarrow> ahead (price ord) (price x)) \<Longrightarrow> insert_order ahead ord ys = ord # ys"
  by (cases ys) auto

lemma set_insert_order [simp]: "set (insert_order ahead ord xs) = insert ord (set xs)"
  by (induction xs) auto

lemma total_rem_insert_order [simp]:
  "total_rem (insert_order ahead ord xs) = rem ord + total_rem xs"
  by (induction xs) auto

lemma distinct_insert_order:
  "distinct (map o_OrderID (insert_order ahead ord xs)) \<longleftrightarrow>
     o_OrderID ord \<notin> o_OrderID ` set xs \<and> distinct (map o_OrderID xs)"
  by (induction xs) auto

subsection \<open>One side of a book\<close>

locale price_side =
  fixes ahead :: "int \<Rightarrow> int \<Rightarrow> bool"
    and ins :: "Order \<Rightarrow> priceLevel list \<Rightarrow> priceLevel list"
  assumes ahead_irrefl: "\<not> ahead p p"
    and ahead_trans: "ahead p q \<Longrightarrow> ahead q r \<Longrightarrow> ahead p r"
    and ahead_total: "p \<noteq> q \<Longrightarrow> ahead p q \<or> ahead q p"
    and ins_eq: "ins ord ls =
      (let i = sort_Search (length ls) (\<lambda>i. \<not> ahead (lprice (ls ! i)) (price ord))
       in if i < length ls \<and> lprice (ls ! i) = price ord
          then ls[i := push_level ord (ls ! i)]
          else insert_at i (new_level ord) ls)"
begin

lemma ahead_asym: "ahead p q \<Longrightarrow> \<not> ahead q p"
  using ahead_irrefl ahead_trans by blast

text \<open>The binary search splits the levels into those ahead of the order and the rest.\<close>

lemma search_split:
  fixes p :: int
  assumes "side_ok ahead ls"
  defines "i \<equiv> sort_Search (length ls) (\<lambda>i. \<not> ahead (lprice (ls ! i)) p)"
  shows "i \<le> length ls" and "\<And>l. l \<in> set (take i ls) \<Longrightarrow> ahead (lprice l) p"
    and "\<And>l. l \<in> set (drop i ls) \<Longrightarrow> \<not> ahead (lprice l) p"
proof -
  have sorted: "ahead (lprice (ls ! a)) (lprice (ls ! b))" if "a < b" "b < length ls" for a b
    using assms(1) that by (simp add: side_ok_def sorted_wrt_iff_nth_less)
  have mono: "\<not> ahead (lprice (ls ! b)) p"
    if "a \<le> b" "b < length ls" "\<not> ahead (lprice (ls ! a)) p" for a b
    using that sorted [of a b] ahead_trans by (cases "a = b") auto
  have bd: "i \<le> length ls" "\<And>k. k < i \<Longrightarrow> ahead (lprice (ls ! k)) p"
    "i < length ls \<Longrightarrow> \<not> ahead (lprice (ls ! i)) p"
    using sort_Search_boundary [of "length ls" "\<lambda>i. \<not> ahead (lprice (ls ! i)) p"] mono
    unfolding i_def by blast+
  show "i \<le> length ls" by (rule bd(1))
  show "ahead (lprice l) p" if "l \<in> set (take i ls)" for l
    using that bd(1,2) by (fastforce simp: in_set_conv_nth)
  show "\<not> ahead (lprice l) p" if l: "l \<in> set (drop i ls)" for l
  proof -
    obtain j where j: "j < length ls - i" "l = ls ! (i + j)"
      using l by (auto simp: in_set_conv_nth)
    then have "i < length ls" by simp
    then have "\<not> ahead (lprice (ls ! i)) p" using bd(3) by blast
    with j show ?thesis using mono [of i "i + j"] by simp
  qed
qed

lemma ins_cases:
  assumes ok: "side_ok ahead ls"
  obtains (existing) xs l ys where "ls = xs @ l # ys" "ins ord ls = xs @ push_level ord l # ys"
      "lprice l = price ord" "\<And>m. m \<in> set xs \<Longrightarrow> ahead (lprice m) (price ord)"
      "\<And>m. m \<in> set ys \<Longrightarrow> ahead (price ord) (lprice m)"
  | (fresh) xs ys where "ls = xs @ ys" "ins ord ls = xs @ new_level ord # ys"
      "\<And>m. m \<in> set xs \<Longrightarrow> ahead (lprice m) (price ord)"
      "\<And>m. m \<in> set ys \<Longrightarrow> ahead (price ord) (lprice m)"
proof -
  define i where "i = sort_Search (length ls) (\<lambda>i. \<not> ahead (lprice (ls ! i)) (price ord))"
  note sp = search_split [OF ok, where p = "price ord", folded i_def]
  have sorted: "sorted_wrt (\<lambda>a b. ahead (lprice a) (lprice b)) (drop i ls)"
    using ok by (simp add: side_ok_def sorted_wrt_drop)
  show thesis
  proof (cases "i < length ls \<and> lprice (ls ! i) = price ord")
    case True
    have d: "drop i ls = ls ! i # drop (Suc i) ls" using True by (simp add: Cons_nth_drop_Suc)
    have split: "ls = take i ls @ ls ! i # drop (Suc i) ls" using d by (metis append_take_drop_id)
    have upd: "ins ord ls = take i ls @ push_level ord (ls ! i) # drop (Suc i) ls"
      using True by (simp add: ins_eq i_def [symmetric] Let_def upd_conv_take_nth_drop)
    have "ahead (price ord) (lprice m)" if "m \<in> set (drop (Suc i) ls)" for m
      using sorted that True by (auto simp: d)
    then show thesis using existing [OF split upd] True sp(2) by blast
  next
    case False
    have upd: "ins ord ls = take i ls @ new_level ord # drop i ls"
      using False by (auto simp: ins_eq i_def [symmetric] Let_def insert_at_def)
    have "ahead (price ord) (lprice m)" if m: "m \<in> set (drop i ls)" for m
    proof -
      have i: "i < length ls" using m by (metis drop_eq_Nil empty_iff list.set(1) not_le)
      then have d: "drop i ls = ls ! i # drop (Suc i) ls" by (simp add: Cons_nth_drop_Suc)
      have "ahead (price ord) (lprice (ls ! i))"
        using sp(3) [of "ls ! i"] d False i ahead_total [of "price ord" "lprice (ls ! i)"] by auto
      with sorted m d ahead_trans show ?thesis by auto
    qed
    then show thesis using fresh [of "take i ls" "drop i ls"] upd sp(2) by simp
  qed
qed

lemma side_flat_price: "side_ok ahead ls \<Longrightarrow> x \<in> set (flat ls) \<Longrightarrow> \<exists>l \<in> set ls. price x = lprice l"
  by (auto simp: flat_def side_ok_def level_ok_def)

lemma flat_bounds:
  assumes "\<And>l. l \<in> set ls \<Longrightarrow> level_ok l \<and> P (lprice l)" and "x \<in> set (flat ls)"
  shows "P (price x)"
  using assms by (auto simp: flat_def level_ok_def)

text \<open>Inserting keeps the side well formed and acts on its orders as \<open>insert_order\<close>.\<close>

lemma side_ok_ins:
  assumes ok: "side_ok ahead ls" and pos: "0 < rem ord"
  shows "side_ok ahead (ins ord ls)"
proof (cases rule: ins_cases [OF ok, of ord])
  case (1 xs l ys)
  with ok level_ok_push [of l ord] pos show ?thesis
    by (auto simp: side_ok_def sorted_wrt_append)
next
  case (2 xs ys)
  with ok level_ok_new [OF pos] show ?thesis
    by (auto simp: side_ok_def sorted_wrt_append)
qed

lemma flat_ins:
  assumes ok: "side_ok ahead ls"
  shows "flat (ins ord ls) = insert_order ahead ord (flat ls)"
proof (cases rule: ins_cases [OF ok, of ord])
  case (1 xs l ys)
  have lv: "level_ok m" if "m \<in> set ls" for m using ok that by (simp add: side_ok_def)
  have xs: "\<not> ahead (price ord) (price x)" if "x \<in> set (flat xs @ lorders l)" for x
  proof (cases "x \<in> set (flat xs)")
    case True
    show ?thesis
      by (rule flat_bounds [of xs, OF _ True]) (use 1 lv ahead_asym in auto)
  next
    case False
    with that 1 lv [of l] have "price x = price ord" by (auto simp: level_ok_def)
    with ahead_irrefl show ?thesis by simp
  qed
  have ys: "ahead (price ord) (price x)" if "x \<in> set (flat ys)" for x
    by (rule flat_bounds [of ys, OF _ that]) (use 1 lv in auto)
  have "insert_order ahead ord ((flat xs @ lorders l) @ flat ys) =
      (flat xs @ lorders l) @ insert_order ahead ord (flat ys)"
    by (rule insert_order_behind) (rule xs)
  moreover have "insert_order ahead ord (flat ys) = ord # flat ys"
    by (rule insert_order_front) (rule ys)
  ultimately show ?thesis using 1 by simp
next
  case (2 xs ys)
  have lv: "level_ok m" if "m \<in> set ls" for m using ok that by (simp add: side_ok_def)
  have xs: "\<not> ahead (price ord) (price x)" if "x \<in> set (flat xs)" for x
    by (rule flat_bounds [of xs, OF _ that]) (use 2 lv ahead_asym in auto)
  have ys: "ahead (price ord) (price x)" if "x \<in> set (flat ys)" for x
    by (rule flat_bounds [of ys, OF _ that]) (use 2 lv in auto)
  have "insert_order ahead ord (flat xs @ flat ys) = flat xs @ insert_order ahead ord (flat ys)"
    by (rule insert_order_behind) (rule xs)
  moreover have "insert_order ahead ord (flat ys) = ord # flat ys"
    by (rule insert_order_front) (rule ys)
  ultimately show ?thesis using 2 by simp
qed

text \<open>The first order of a well-formed side has the best price.\<close>

lemma top_is_best:
  assumes "side_ok ahead (l # ls)" and "x \<in> set (flat (l # ls))"
  shows "price x = lprice l \<or> ahead (lprice l) (price x)"
  using assms by (auto simp: side_ok_def level_ok_def flat_def)

lemma lprice_hd_ins:
  assumes "side_ok ahead ls"
  shows "ins ord ls \<noteq> [] \<and>
    lprice (hd (ins ord ls)) = (if ls = [] \<or> ahead (price ord) (lprice (hd ls)) then price ord
      else lprice (hd ls))"
proof (cases rule: ins_cases [OF assms, of ord])
  case (1 xs l ys)
  then show ?thesis using ahead_irrefl ahead_asym by (cases xs) auto
next
  case (2 xs ys)
  then show ?thesis using ahead_asym by (cases xs; cases ys) auto
qed

end

interpretation bid_side: price_side "\<lambda>p q. q < p" bid_insert
  by unfold_locales (auto simp: bid_insert_def Let_def not_less)

interpretation ask_side: price_side "\<lambda>p q. p < q" ask_insert
  by unfold_locales (auto simp: ask_insert_def Let_def not_less)

subsection \<open>Cancelling and looking up, on the orders of a side\<close>

lemma get_levels_flat: "get_levels oid ls = find_order oid (flat ls)"
  by (induction ls) (auto simp: find_order_append split: option.splits)

lemma GetOrder_flat: "GetOrder ob oid = find_order oid (flat (ob_bids ob) @ flat (ob_asks ob))"
  by (simp add: GetOrder_def get_levels_flat find_order_append split: option.split)

lemma cancel_levels_None:
  "cancel_levels oid ls = None \<longleftrightarrow> oid \<notin> o_OrderID ` set (flat ls)"
proof (induction ls)
  case (Cons l ls)
  show ?case
  proof (cases "find_order oid (lorders l)")
    case None
    then have "oid \<notin> o_OrderID ` set (lorders l)" by (simp add: find_order_None_iff)
    with None Cons show ?thesis by (auto simp: queue_remove_def image_Un)
  next
    case (Some x)
    then show ?thesis by (auto simp: queue_remove_def dest: find_order_SomeD)
  qed
qed simp

text \<open>A successful cancel takes out one order and keeps the side well formed.\<close>

lemma level_ok_remove:
  assumes "level_ok l" and r: "queue_remove oid (pl_orders l) = (Some ord, q)" and ne: "q_len q \<noteq> 0"
  shows "level_ok (l\<lparr>pl_orders := q\<rparr>)"
proof -
  have q: "queue_ok q" "q_orders q = drop_order oid (lorders l)"
    using list_queue.inv_remove [of "pl_orders l" oid] list_queue.abs_remove [of "pl_orders l" oid]
      assms(1) r by (simp_all add: level_ok_def)
  with ne have "q_orders q \<noteq> []" by (auto simp: queue_ok_def)
  with q assms(1) show ?thesis
    using set_drop_order [of oid "lorders l"] by (auto simp: level_ok_def)
qed

lemma cancel_levels_Some:
  assumes "side_ok ahead ls" and "cancel_levels oid ls = Some (ord, ls')"
  shows "side_ok ahead ls' \<and> find_order oid (flat ls) = Some ord \<and>
    flat ls' = drop_order oid (flat ls) \<and> lprice ` set ls' \<subseteq> lprice ` set ls"
  using assms
proof (induction ls arbitrary: ls')
  case (Cons l ls)
  obtain r q where rq: "queue_remove oid (pl_orders l) = (r, q)" by fastforce
  have l: "level_ok l" and qok: "queue_ok (pl_orders l)"
    using Cons.prems(1) by (simp_all add: side_ok_Cons level_ok_def)
  have q: "r = find_order oid (lorders l)" "queue_ok q" "q_orders q = drop_order oid (lorders l)"
    using list_queue.ret_remove [OF qok, of oid] list_queue.inv_remove [OF qok, of oid]
      list_queue.abs_remove [OF qok, of oid] rq by simp_all
  show ?case
  proof (cases r)
    case None
    with Cons.prems rq obtain ms where ms: "cancel_levels oid ls = Some (ord, ms)" "ls' = l # ms"
      by auto
    have ok: "side_ok ahead ls" using Cons.prems(1) by (simp add: side_ok_Cons)
    note IH = Cons.IH [OF ok ms(1)]
    have "\<forall>m \<in> set ms. ahead (lprice l) (lprice m)"
      using IH Cons.prems(1) by (auto simp: side_ok_Cons)
    with IH None q(1) l ms(2) show ?thesis
      by (auto simp: side_ok_Cons find_order_append drop_order_append)
  next
    case (Some x)
    with Cons.prems(2) rq have x: "x = ord" and
      ls': "ls' = (if q_len q = 0 then ls else l\<lparr>pl_orders := q\<rparr> # ls)" by auto
    show ?thesis
    proof (cases "q_len q = 0")
      case True
      then have "drop_order oid (lorders l) = []" using q(2,3) by (simp add: queue_ok_def)
      with True Some q(1) x ls' Cons.prems(1) show ?thesis
        by (auto simp: side_ok_Cons find_order_append drop_order_append)
    next
      case False
      with level_ok_remove [OF l _ False] rq Some x have "level_ok (l\<lparr>pl_orders := q\<rparr>)" by simp
      with False Some q x ls' Cons.prems(1) show ?thesis
        by (auto simp: side_ok_Cons find_order_append drop_order_append)
    qed
  qed
qed simp

subsection \<open>Well-formed books\<close>

abbreviation bids_first :: "int \<Rightarrow> int \<Rightarrow> bool" where
  "bids_first \<equiv> \<lambda>p q. q < p"

abbreviation asks_first :: "int \<Rightarrow> int \<Rightarrow> bool" where
  "asks_first \<equiv> \<lambda>p q. p < q"

definition resting :: "OrderBook \<Rightarrow> Order list" where
  "resting ob = flat (ob_bids ob) @ flat (ob_asks ob)"

definition book_ok :: "OrderBook \<Rightarrow> bool" where
  "book_ok ob \<longleftrightarrow>
     side_ok bids_first (ob_bids ob) \<and> side_ok asks_first (ob_asks ob) \<and>
     (\<forall>x \<in> set (flat (ob_bids ob)). o_Side x = SideBuy) \<and>
     (\<forall>x \<in> set (flat (ob_asks ob)). o_Side x = SideSell) \<and>
     distinct (map o_OrderID (resting ob))"

text \<open>No bid is at or above an ask.\<close>

definition uncrossed :: "OrderBook \<Rightarrow> bool" where
  "uncrossed ob \<longleftrightarrow> (\<forall>b \<in> set (ob_bids ob). \<forall>a \<in> set (ob_asks ob). lprice b < lprice a)"

lemma book_ok_new [simp]: "book_ok (NewOrderBook symb)"
  by (simp add: book_ok_def NewOrderBook_def resting_def)

lemma uncrossed_new [simp]: "uncrossed (NewOrderBook symb)"
  by (simp add: uncrossed_def NewOrderBook_def)

lemma lprice_nonempty:
  assumes "side_ok ahead ls" and "l \<in> set ls"
  shows "\<exists>x \<in> set (flat ls). price x = lprice l"
proof -
  have "lorders l \<noteq> []" "\<forall>x \<in> set (lorders l). price x = lprice l"
    using assms by (simp_all add: side_ok_def level_ok_def)
  then obtain x where "x \<in> set (lorders l)" "price x = lprice l" by (cases "lorders l") auto
  with assms(2) show ?thesis by (auto simp: flat_def)
qed

lemma uncrossed_resting:
  assumes "side_ok bids_first (ob_bids ob)" "side_ok asks_first (ob_asks ob)"
  shows "uncrossed ob \<longleftrightarrow>
    (\<forall>x \<in> set (flat (ob_bids ob)). \<forall>y \<in> set (flat (ob_asks ob)). price x < price y)"
proof
  assume "uncrossed ob"
  then show "\<forall>x \<in> set (flat (ob_bids ob)). \<forall>y \<in> set (flat (ob_asks ob)). price x < price y"
    using bid_side.side_flat_price [OF assms(1)] ask_side.side_flat_price [OF assms(2)]
    by (fastforce simp: uncrossed_def)
next
  assume "\<forall>x \<in> set (flat (ob_bids ob)). \<forall>y \<in> set (flat (ob_asks ob)). price x < price y"
  then show "uncrossed ob"
    using lprice_nonempty [OF assms(1)] lprice_nonempty [OF assms(2)]
    unfolding uncrossed_def by metis
qed

text \<open>What cancelling does to a well-formed book.\<close>

lemma CancelOrder_absent:
  "oid \<notin> o_OrderID ` set (resting ob) \<Longrightarrow> CancelOrder ob oid = (ob, None)"
  using cancel_levels_None [of oid "ob_bids ob"] cancel_levels_None [of oid "ob_asks ob"]
  by (auto simp: CancelOrder_def resting_def)

lemma CancelOrder_present:
  assumes ok: "book_ok ob" and f: "find_order oid (resting ob) = Some ord"
  shows "\<exists>ob'. CancelOrder ob oid = (ob', Some (ord\<lparr>o_Status := OrderStatusCancelled\<rparr>)) \<and>
    book_ok ob' \<and> resting ob' = drop_order oid (resting ob) \<and> (uncrossed ob \<longrightarrow> uncrossed ob')"
proof (cases "cancel_levels oid (ob_bids ob)")
  case (Some r)
  obtain x bids where r: "r = (x, bids)" by fastforce
  have c: "side_ok bids_first bids \<and> find_order oid (flat (ob_bids ob)) = Some x \<and>
      flat bids = drop_order oid (flat (ob_bids ob)) \<and> lprice ` set bids \<subseteq> lprice ` set (ob_bids ob)"
    using cancel_levels_Some [of bids_first "ob_bids ob" oid x bids] ok Some r
    by (simp add: book_ok_def)
  then have x: "x = ord" and res: "flat bids @ flat (ob_asks ob) = drop_order oid (resting ob)"
    using f by (simp_all add: resting_def find_order_append drop_order_append)
  have "distinct (map o_OrderID (drop_order oid (resting ob)))"
    using ok by (simp add: book_ok_def drop_order_filter distinct_map_filter)
  then have "book_ok (ob\<lparr>ob_bids := bids\<rparr>)"
    using ok c set_drop_order [of oid "flat (ob_bids ob)"] res
    by (auto simp: book_ok_def resting_def)
  moreover have "uncrossed (ob\<lparr>ob_bids := bids\<rparr>)" if "uncrossed ob"
    using that c unfolding uncrossed_def by fastforce
  ultimately show ?thesis using Some r x res by (simp add: CancelOrder_def resting_def)
next
  case None
  then have nb: "find_order oid (flat (ob_bids ob)) = None"
    by (simp add: cancel_levels_None find_order_None_iff)
  with f have fa: "find_order oid (flat (ob_asks ob)) = Some ord"
    by (simp add: resting_def find_order_append)
  then obtain x asks where Some: "cancel_levels oid (ob_asks ob) = Some (x, asks)"
    using cancel_levels_None [of oid "ob_asks ob"] find_order_None_iff [of oid "flat (ob_asks ob)"]
    by (cases "cancel_levels oid (ob_asks ob)") auto
  have c: "side_ok asks_first asks \<and> find_order oid (flat (ob_asks ob)) = Some x \<and>
      flat asks = drop_order oid (flat (ob_asks ob)) \<and> lprice ` set asks \<subseteq> lprice ` set (ob_asks ob)"
    using cancel_levels_Some [OF _ Some, of asks_first] ok by (simp add: book_ok_def)
  then have x: "x = ord" and res: "flat (ob_bids ob) @ flat asks = drop_order oid (resting ob)"
    using fa nb by (simp_all add: resting_def drop_order_append)
  have "distinct (map o_OrderID (drop_order oid (resting ob)))"
    using ok by (simp add: book_ok_def drop_order_filter distinct_map_filter)
  then have "book_ok (ob\<lparr>ob_asks := asks\<rparr>)"
    using ok c set_drop_order [of oid "flat (ob_asks ob)"] res
    by (auto simp: book_ok_def resting_def)
  moreover have "uncrossed (ob\<lparr>ob_asks := asks\<rparr>)" if "uncrossed ob"
    using that c unfolding uncrossed_def by fastforce
  ultimately show ?thesis using None Some x res by (simp add: CancelOrder_def resting_def)
qed

subsection \<open>Snapshots\<close>

lemma clip_depth_le: "clip_depth depth n \<le> n"
  by (auto simp: clip_depth_def)

text \<open>A level holds exactly the orders of its side that have its price.\<close>

lemma level_orders_by_price:
  assumes "\<And>p. \<not> ahead p p" "side_ok ahead ls" "i < length ls"
  shows "filter (\<lambda>x. price x = lprice (ls ! i)) (flat ls) = lorders (ls ! i)"
  using assms(2,3)
proof (induction ls arbitrary: i)
  case (Cons l ls)
  have l: "level_ok l" "side_ok ahead ls" "\<forall>m \<in> set ls. ahead (lprice l) (lprice m)"
    using Cons.prems(1) by (simp_all add: side_ok_Cons)
  have apart: "lprice m \<noteq> lprice l" if "m \<in> set ls" for m
    using that l(3) assms(1) by (metis (no_types))
  have none: "filter (\<lambda>x. price x = lprice l) (flat ls) = []"
  proof (rule ccontr)
    assume "filter (\<lambda>x. price x = lprice l) (flat ls) \<noteq> []"
    then obtain x where "x \<in> set (flat ls)" "price x = lprice l"
      by (auto simp: filter_empty_conv)
    then obtain m where "m \<in> set ls" "lprice m = lprice l"
      using l(2) by (auto simp: flat_def side_ok_def level_ok_def)
    with apart show False by blast
  qed
  have own: "filter (\<lambda>x. price x = p) (lorders l) = (if p = lprice l then lorders l else [])" for p
    using l(1) by (auto simp: level_ok_def filter_empty_conv intro!: filter_True)
  show ?case
  proof (cases i)
    case 0
    then show ?thesis using none own by simp
  next
    case (Suc j)
    then have "lprice (ls ! j) \<noteq> lprice l" using apart [of "ls ! j"] Cons.prems(2) by simp
    then show ?thesis using Suc own Cons.IH [OF l(2), of j] Cons.prems(2) by simp
  qed
qed simp

text \<open>What one entry of a snapshot says about the orders of its side.\<close>

definition summarises :: "Order list \<Rightarrow> priceLevel \<Rightarrow> PriceLevelSnapshot \<Rightarrow> bool" where
  "summarises os l snap \<longleftrightarrow>
     (let here = filter (\<lambda>x. price x = lprice l) os in
      NewFromString (ps_Price snap) = Inr (Decimal (Some (lprice l))) \<and>
      NewFromString (ps_Volume snap) = Inr (Decimal (Some (total_rem here))) \<and>
      ps_Orders snap = int (length here) \<and> here \<noteq> [])"

lemma level_snapshot_summarises:
  assumes "\<And>p. \<not> ahead p p" "side_ok ahead ls" "i < length ls"
  shows "summarises (flat ls) (ls ! i) (level_snapshot (ls ! i))"
proof -
  have "level_ok (ls ! i)" using assms(2,3) by (simp add: side_ok_def)
  then show ?thesis
    by (simp add: summarises_def Let_def level_orders_by_price [OF assms] level_snapshot_def
        NewFromString_String level_ok_volume) (simp add: level_ok_def queue_ok_def)
qed

subsection \<open>Properties\<close>

text \<open>An order of the examples: a good-till-cancelled limit order for whole units.\<close>

definition sample_order :: "string \<Rightarrow> Side \<Rightarrow> int \<Rightarrow> int \<Rightarrow> Order" where
  "sample_order oid side p q =
     \<lparr>o_OrderID = oid, o_UserID = ''user-'' @ oid, o_Symbol = ''ETH-USDT'', o_Side = side,
      o_Type = OrderTypeLimit, o_TimeInForce = TIF_GTC, o_Price = NewFromInt64 p,
      o_StopPrice = NilDecimal, o_Quantity = NewFromInt64 q, o_FilledQty = NilDecimal,
      o_DisplayQty = NilDecimal, o_Timestamp = 0, o_Status = OrderStatusCreated\<rparr>"

definition sample_book :: OrderBook where
  "sample_book =
     fst (addAsk (fst (addAsk (fst (addBid (NewOrderBook ''ETH-USDT'')
       (sample_order ''b1'' SideBuy 99 4))) (sample_order ''a2'' SideSell 102 7)))
       (sample_order ''a1'' SideSell 101 5))"

text \<open>Adding an order puts it behind every resting order of its side with the same or a better
  price and before every order with a worse one (price-time priority); the side stays sorted, with
  correct cached volumes and counts, the other side is untouched and the sequence number advances.\<close>

theorem insert_priority:
  assumes "book_ok ob" "0 < rem ord"
  shows "flat (ob_bids (fst (addBid ob ord))) =
      insert_order bids_first (ord\<lparr>o_Status := OrderStatusOpen\<rparr>) (flat (ob_bids ob)) \<and>
    side_ok bids_first (ob_bids (fst (addBid ob ord))) \<and>
    ob_asks (fst (addBid ob ord)) = ob_asks ob \<and> ob_seqNum (fst (addBid ob ord)) = ob_seqNum ob + 1 \<and>
    flat (ob_asks (fst (addAsk ob ord))) =
      insert_order asks_first (ord\<lparr>o_Status := OrderStatusOpen\<rparr>) (flat (ob_asks ob)) \<and>
    side_ok asks_first (ob_asks (fst (addAsk ob ord))) \<and>
    ob_bids (fst (addAsk ob ord)) = ob_bids ob \<and> ob_seqNum (fst (addAsk ob ord)) = ob_seqNum ob + 1"
  using assms bid_side.flat_ins bid_side.side_ok_ins ask_side.flat_ins ask_side.side_ok_ins
  by (simp add: addBid_def addAsk_def Let_def book_ok_def)

theorem insert_priority_witness:
  "flat (ob_asks (fst (addAsk sample_book (sample_order ''a3'' SideSell 101 1)))) =
     insert_order asks_first (sample_order ''a3'' SideSell 101 1\<lparr>o_Status := OrderStatusOpen\<rparr>)
       (flat (ob_asks sample_book)) \<and>
   map o_OrderID (flat (ob_asks (fst (addAsk sample_book (sample_order ''a3'' SideSell 101 1))))) =
     [''a1'', ''a3'', ''a2'']"
proof -
  have "book_ok sample_book" "0 < rem (sample_order ''a3'' SideSell 101 1)" by code_simp+
  from insert_priority [OF this]
  have "flat (ob_asks (fst (addAsk sample_book (sample_order ''a3'' SideSell 101 1)))) =
     insert_order asks_first (sample_order ''a3'' SideSell 101 1\<lparr>o_Status := OrderStatusOpen\<rparr>)
       (flat (ob_asks sample_book))" by blast
  moreover have "map o_OrderID (flat (ob_asks (fst (addAsk sample_book (sample_order ''a3'' SideSell 101 1))))) =
     [''a1'', ''a3'', ''a2'']" by code_simp
  ultimately show ?thesis by blast
qed

text \<open>C18. \<open>CancelOrder\<close> of a resting order returns that order, marked cancelled, and removes
  exactly it: the other orders keep their places, the book stays well formed and uncrossed, the
  order can no longer be found, and a second cancel changes nothing and returns nil.\<close>

theorem cancel_removes_exactly_one:
  assumes "book_ok ob" "GetOrder ob oid = Some ord"
  shows "\<exists>ob'. CancelOrder ob oid = (ob', Some (ord\<lparr>o_Status := OrderStatusCancelled\<rparr>)) \<and>
    o_OrderID ord = oid \<and> resting ob' = filter (\<lambda>x. o_OrderID x \<noteq> oid) (resting ob) \<and>
    book_ok ob' \<and> (uncrossed ob \<longrightarrow> uncrossed ob') \<and>
    GetOrder ob' oid = None \<and> CancelOrder ob' oid = (ob', None)"
proof -
  have f: "find_order oid (resting ob) = Some ord"
    using assms(2) by (simp add: GetOrder_flat resting_def)
  obtain ob' where ob': "CancelOrder ob oid = (ob', Some (ord\<lparr>o_Status := OrderStatusCancelled\<rparr>))"
    "book_ok ob'" "resting ob' = drop_order oid (resting ob)" "uncrossed ob \<longrightarrow> uncrossed ob'"
    using CancelOrder_present [OF assms(1) f] by blast
  have flt: "resting ob' = filter (\<lambda>x. o_OrderID x \<noteq> oid) (resting ob)"
    using ob'(3) assms(1) by (simp add: drop_order_filter book_ok_def)
  then have gone: "oid \<notin> o_OrderID ` set (resting ob')" by auto
  then have "GetOrder ob' oid = None"
    by (simp add: GetOrder_flat resting_def find_order_None_iff)
  with ob' flt find_order_SomeD [OF f] CancelOrder_absent [OF gone] show ?thesis by blast
qed

theorem cancel_removes_exactly_one_witness:
  "\<exists>ob'. CancelOrder sample_book ''a1'' =
     (ob', Some (sample_order ''a1'' SideSell 101 5\<lparr>o_Status := OrderStatusCancelled\<rparr>)) \<and>
     GetOrder ob' ''a1'' = None"
proof -
  have "book_ok sample_book"
    "GetOrder sample_book ''a1'' = Some (sample_order ''a1'' SideSell 101 5\<lparr>o_Status := OrderStatusOpen\<rparr>)"
    by code_simp+
  from cancel_removes_exactly_one [OF this] show ?thesis by auto
qed

text \<open>\<open>Snapshot\<close> lists the best levels of each side in matching order, all of them or the
  first \<open>depth\<close> ones; each with the parseable sum of what its orders have left and their number,
  and \<open>BestBid\<close>, \<open>BestAsk\<close> are the best prices of the resting orders.\<close>

theorem snapshot_volumes:
  assumes "book_ok ob"
  shows "length (bs_Bids (Snapshot ob depth)) = clip_depth depth (length (ob_bids ob)) \<and>
    length (bs_Asks (Snapshot ob depth)) = clip_depth depth (length (ob_asks ob)) \<and>
    (\<forall>i < clip_depth depth (length (ob_bids ob)).
      summarises (flat (ob_bids ob)) (ob_bids ob ! i) (bs_Bids (Snapshot ob depth) ! i)) \<and>
    (\<forall>i < clip_depth depth (length (ob_asks ob)).
      summarises (flat (ob_asks ob)) (ob_asks ob ! i) (bs_Asks (Snapshot ob depth) ! i)) \<and>
    (\<forall>x \<in> set (flat (ob_bids ob)). price x \<le> val (BestBid ob)) \<and>
    (\<forall>x \<in> set (flat (ob_asks ob)). val (BestAsk ob) \<le> price x)"
proof -
  have sides: "side_ok bids_first (ob_bids ob)" "side_ok asks_first (ob_asks ob)"
    using assms by (simp_all add: book_ok_def)
  have "\<forall>x \<in> set (flat (ob_bids ob)). price x \<le> val (BestBid ob)"
    using bid_side.top_is_best sides(1) by (cases "ob_bids ob") (fastforce simp: BestBid_def)+
  moreover have "\<forall>x \<in> set (flat (ob_asks ob)). val (BestAsk ob) \<le> price x"
    using ask_side.top_is_best sides(2) by (cases "ob_asks ob") (fastforce simp: BestAsk_def)+
  moreover have "i < clip_depth depth n \<Longrightarrow> i < n" for i n
    using clip_depth_le [of depth n] by simp
  ultimately show ?thesis
    using level_snapshot_summarises [OF _ sides(1)] level_snapshot_summarises [OF _ sides(2)]
    by (simp add: Snapshot_def min_absorb2 clip_depth_le)
qed

theorem snapshot_volumes_witness:
  "length (bs_Asks (Snapshot sample_book 1)) = 1 \<and>
   summarises (flat (ob_asks sample_book)) (ob_asks sample_book ! 0) (bs_Asks (Snapshot sample_book 1) ! 0) \<and>
   lprice (ob_asks sample_book ! 0) = 101 * tenPow18"
proof -
  have "book_ok sample_book" "clip_depth 1 (length (ob_asks sample_book)) = 1"
    "lprice (ob_asks sample_book ! 0) = 101 * tenPow18" by code_simp+
  with snapshot_volumes [of sample_book 1] show ?thesis by simp
qed

end
