(* ===== verification/Matcher.thy ===== *)
theory Matcher
  imports Order_Book
begin

section \<open>Matching a taker against the book (matching/matcher.go)\<close>

text \<open>
  \<open>matchBuy\<close> and \<open>matchSell\<close> walk the opposite side from its best level and its
  oldest order; each round trades with one maker. The clock readings of the rounds are a
  parameter \<open>clk\<close>, indexed by the number of trades made so far. A level with an empty queue
  makes the Go code dereference nil, which the model returns as a panic. The locale
  \<open>matching_side\<close> relates the loop over levels to \<open>match_list\<close>, matching on the plain
  list of makers, and its lemmas about \<open>match_list\<close> give the trading properties of both
  sides.
\<close>

subsection \<open>One round of the loop\<close>

text \<open>
  The body of both loops after the price check, on the queue of the best level with
  \<open>maker\<close> at its head: the trade quantity is the smaller remainder, the price the
  maker's; both filled quantities and the level's volume are updated, and a filled maker is
  popped. Returns the taker, the queue, whether the maker was filled, and the trade.
\<close>

definition trade_qty :: "Order \<Rightarrow> Order \<Rightarrow> decimal" where
  "trade_qty ord maker =
     (let tradeQty = Remaining ord; makerRemaining = Remaining maker
      in if Cmp tradeQty makerRemaining > 0 then makerRemaining else tradeQty)"

definition fill_by :: "decimal \<Rightarrow> Order \<Rightarrow> Order" where
  "fill_by qty ord = ord\<lparr>o_FilledQty := Add (o_FilledQty ord) qty\<rparr>"

definition trade_of :: "Side \<Rightarrow> Symbol \<Rightarrow> int \<Rightarrow> Order \<Rightarrow> Order \<Rightarrow> MatchResult" where
  "trade_of takerSide symb now ord maker =
     \<lparr>m_TakerOrderID = o_OrderID ord, m_MakerOrderID = o_OrderID maker,
      m_TakerUserID = o_UserID ord, m_MakerUserID = o_UserID maker, m_Symbol = symb,
      m_Price = o_Price maker, m_Quantity = trade_qty ord maker,
      m_QuoteQty = Mul (o_Price maker) (trade_qty ord maker), m_TakerSide = takerSide,
      m_Timestamp = now\<rparr>"

definition fill_head ::
  "Side \<Rightarrow> Symbol \<Rightarrow> int \<Rightarrow> Order \<Rightarrow> Order \<Rightarrow> Order list \<Rightarrow> orderQueue \<Rightarrow>
     Order \<times> orderQueue \<times> bool \<times> MatchResult" where
  "fill_head takerSide symb now ord maker rest q =
     (let tradeQty = trade_qty ord maker;
          trade = trade_of takerSide symb now ord maker;
          ord' = fill_by tradeQty ord;
          maker' = fill_by tradeQty maker;
          q' = q\<lparr>q_orders := maker' # rest, q_volume := Sub (q_volume q) tradeQty\<rparr>
      in if IsFilled maker' then
           (ord', snd (queue_pop (q'\<lparr>q_orders := maker'\<lparr>o_Status := OrderStatusFilled\<rparr> # rest\<rparr>)),
            True, trade)
         else (ord', q', False, trade))"

subsection \<open>The two loops\<close>

definition level_count :: "priceLevel list \<Rightarrow> nat" where
  "level_count ls = length (flat ls)"

definition loop_measure :: "Order \<Rightarrow> priceLevel list \<Rightarrow> nat" where
  "loop_measure ord ls = level_count ls + (if rem ord > 0 then 1 else 0)"

text \<open>
  Every round fills the taker or pops a maker, so the number of makers plus one for an unfilled
  taker decreases.
\<close>

lemma fill_head_decreases:
  assumes "fill_head ts symb now ord maker rest (pl_orders l) = (ord', q', filled, t)"
    and "lorders l = maker # rest" and "0 < rem ord"
  shows "loop_measure ord' (if filled \<and> q_len q' = 0 then ls else l\<lparr>pl_orders := q'\<rparr> # ls)
    < loop_measure ord (l # ls)"
  using assms
  by (auto simp: fill_head_def Let_def loop_measure_def level_count_def queue_pop_def fill_by_def
      trade_qty_def IsFilled_iff rem_eq split: if_splits)

function matchBuy_loop ::
  "Symbol \<Rightarrow> (nat \<Rightarrow> int) \<Rightarrow> Order \<Rightarrow> priceLevel list \<Rightarrow> MatchResult list \<Rightarrow>
     panic + Order \<times> priceLevel list \<times> MatchResult list" where
  "matchBuy_loop symb clk ord asks matches =
     (if Cmp (Remaining ord) Zero > 0 then
        (case asks of
           [] \<Rightarrow> Inr (ord, asks, matches)
         | bestAsk # worse \<Rightarrow>
             if o_Type ord = OrderTypeLimit \<and> Cmp (o_Price ord) (pl_price bestAsk) < 0
             then Inr (ord, asks, matches)
             else
               (case lorders bestAsk of
                  [] \<Rightarrow> Inl NilPointerDereference
                | maker # rest \<Rightarrow>
                    (case fill_head SideBuy symb (clk (length matches)) ord maker rest
                            (pl_orders bestAsk) of
                       (ord', q', filled, trade) \<Rightarrow>
                         matchBuy_loop symb clk ord'
                           (if filled \<and> q_len q' = 0 then worse
                            else bestAsk\<lparr>pl_orders := q'\<rparr> # worse)
                           (matches @ [trade]))))
      else Inr (ord, asks, matches))"
  by pat_completeness auto
termination
  by (relation "measure (\<lambda>(symb, clk, ord, ls, ms). loop_measure ord ls)")
    (auto dest!: fill_head_decreases [OF sym])

function matchSell_loop ::
  "Symbol \<Rightarrow> (nat \<Rightarrow> int) \<Rightarrow> Order \<Rightarrow> priceLevel list \<Rightarrow> MatchResult list \<Rightarrow>
     panic + Order \<times> priceLevel list \<times> MatchResult list" where
  "matchSell_loop symb clk ord bids matches =
     (if Cmp (Remaining ord) Zero > 0 then
        (case bids of
           [] \<Rightarrow> Inr (ord, bids, matches)
         | bestBid # worse \<Rightarrow>
             if o_Type ord = OrderTypeLimit \<and> Cmp (o_Price ord) (pl_price bestBid) > 0
             then Inr (ord, bids, matches)
             else
               (case lorders bestBid of
                  [] \<Rightarrow> Inl NilPointerDereference
                | maker # rest \<Rightarrow>
                    (case fill_head SideSell symb (clk (length matches)) ord maker rest
                            (pl_orders bestBid) of
                       (ord', q', filled, trade) \<Rightarrow>
                         matchSell_loop symb clk ord'
                           (if filled \<and> q_len q' = 0 then worse
                            else bestBid\<lparr>pl_orders := q'\<rparr> # worse)
                           (matches @ [trade]))))
      else Inr (ord, bids, matches))"
  by pat_completeness auto
termination
  by (relation "measure (\<lambda>(symb, clk, ord, ls, ms). loop_measure ord ls)")
    (auto dest!: fill_head_decreases [OF sym])

declare matchBuy_loop.simps [simp del] matchSell_loop.simps [simp del]

definition matchBuy ::
  "(nat \<Rightarrow> int) \<Rightarrow> OrderBook \<Rightarrow> Order \<Rightarrow> panic + OrderBook \<times> Order \<times> MatchResult list" where
  "matchBuy clk ob ord =
     (case matchBuy_loop (ob_symbol ob) clk ord (ob_asks ob) [] of
        Inl p \<Rightarrow> Inl p
      | Inr (ord', asks, matches) \<Rightarrow> Inr (ob\<lparr>ob_asks := asks\<rparr>, ord', matches))"

definition matchSell ::
  "(nat \<Rightarrow> int) \<Rightarrow> OrderBook \<Rightarrow> Order \<Rightarrow> panic + OrderBook \<times> Order \<times> MatchResult list" where
  "matchSell clk ob ord =
     (case matchSell_loop (ob_symbol ob) clk ord (ob_bids ob) [] of
        Inl p \<Rightarrow> Inl p
      | Inr (ord', bids, matches) \<Rightarrow> Inr (ob\<lparr>ob_bids := bids\<rparr>, ord', matches))"

subsection \<open>MatchOrder and CanFillFOK\<close>

text \<open>
  Returns the book, the taker as the call leaves it, the trades (none for the \<open>nil\<close> of the
  FOK case) and the order handed back (\<open>None\<close> for \<open>nil\<close>).
\<close>

definition MatchOrder ::
  "(nat \<Rightarrow> int) \<Rightarrow> OrderBook \<Rightarrow> Order \<Rightarrow>
     panic + OrderBook \<times> Order \<times> MatchResult list \<times> Order option" where
  "MatchOrder clk ob ord0 =
     (case (if o_Side ord0 = SideBuy then matchBuy clk ob ord0
            else if o_Side ord0 = SideSell then matchSell clk ob ord0
            else Inr (ob, ord0, [])) of
        Inl p \<Rightarrow> Inl p
      | Inr (ob', ord, matches) \<Rightarrow>
          if Cmp (Remaining ord) Zero \<le> 0 then
            Inr (ob', ord\<lparr>o_Status := OrderStatusFilled\<rparr>, matches, None)
          else if o_TimeInForce ord = TIF_FOK then
            (let c = ord\<lparr>o_Status := OrderStatusCancelled\<rparr> in Inr (ob', c, [], Some c))
          else if o_TimeInForce ord = TIF_IOC then
            (let c = ord\<lparr>o_Status := OrderStatusCancelled\<rparr> in Inr (ob', c, matches, Some c))
          else Inr (ob', ord, matches, Some ord))"

text \<open>The cumulative scan of one side; \<open>worse_than\<close> is the side's price check.\<close>

fun fok_scan :: "(decimal \<Rightarrow> bool) \<Rightarrow> decimal \<Rightarrow> decimal \<Rightarrow> priceLevel list \<Rightarrow> bool" where
  "fok_scan beyond required cumVolume [] = False"
| "fok_scan beyond required cumVolume (pl # rest) =
     (if beyond (pl_price pl) then False
      else
        (let cum = Add cumVolume (q_volume (pl_orders pl))
         in if Cmp cum required \<ge> 0 then True else fok_scan beyond required cum rest))"

definition CanFillFOK :: "OrderBook \<Rightarrow> Order \<Rightarrow> bool" where
  "CanFillFOK ob ord =
     (if o_Side ord = SideBuy then
        fok_scan (\<lambda>p. o_Type ord = OrderTypeLimit \<and> Cmp (o_Price ord) p < 0)
          (o_Quantity ord) Zero (ob_asks ob)
      else
        fok_scan (\<lambda>p. o_Type ord = OrderTypeLimit \<and> Cmp (o_Price ord) p > 0)
          (o_Quantity ord) Zero (ob_bids ob))"

subsection \<open>Matching on the list of makers\<close>

text \<open>
  The reference: makers in matching order, no levels, no cached volumes. \<open>blocked\<close> is the
  price check of a limit order.
\<close>

definition blocked :: "(int \<Rightarrow> int \<Rightarrow> bool) \<Rightarrow> Order \<Rightarrow> int \<Rightarrow> bool" where
  "blocked ahead ord p \<longleftrightarrow> o_Type ord = OrderTypeLimit \<and> ahead (price ord) p"

fun match_list ::
  "(int \<Rightarrow> int \<Rightarrow> bool) \<Rightarrow> Side \<Rightarrow> Symbol \<Rightarrow> (nat \<Rightarrow> int) \<Rightarrow> nat \<Rightarrow> Order \<Rightarrow> Order list \<Rightarrow>
     Order \<times> Order list \<times> MatchResult list" where
  "match_list ahead ts symb clk n ord [] = (ord, [], [])"
| "match_list ahead ts symb clk n ord (mk # mks) =
     (if rem ord \<le> 0 \<or> blocked ahead ord (price mk) then (ord, mk # mks, [])
      else if rem mk \<le> rem ord then
        (case match_list ahead ts symb clk (Suc n) (fill_by (trade_qty ord mk) ord) mks of
           (ord', mks', trades) \<Rightarrow> (ord', mks', trade_of ts symb (clk n) ord mk # trades))
      else (fill_by (trade_qty ord mk) ord, fill_by (trade_qty ord mk) mk # mks,
            [trade_of ts symb (clk n) ord mk]))"

lemma fill_by_fields [simp]:
  "o_OrderID (fill_by q ord) = o_OrderID ord" "o_UserID (fill_by q ord) = o_UserID ord"
  "o_Symbol (fill_by q ord) = o_Symbol ord" "o_Side (fill_by q ord) = o_Side ord"
  "o_Type (fill_by q ord) = o_Type ord" "o_TimeInForce (fill_by q ord) = o_TimeInForce ord"
  "o_Price (fill_by q ord) = o_Price ord" "o_Quantity (fill_by q ord) = o_Quantity ord"
  "o_Status (fill_by q ord) = o_Status ord" "rem (fill_by q ord) = rem ord - val q"
  by (simp_all add: fill_by_def rem_eq)

lemma blocked_fill_by [simp]: "blocked ahead (fill_by q ord) = blocked ahead ord"
  by (simp add: blocked_def fun_eq_iff)

lemma val_trade_qty [simp]: "val (trade_qty ord mk) = min (rem ord) (rem mk)"
  by (simp add: trade_qty_def Let_def)

lemma trade_of_fields [simp]:
  "m_MakerOrderID (trade_of ts symb now ord mk) = o_OrderID mk"
  "m_MakerUserID (trade_of ts symb now ord mk) = o_UserID mk"
  "m_TakerOrderID (trade_of ts symb now ord mk) = o_OrderID ord"
  "m_TakerUserID (trade_of ts symb now ord mk) = o_UserID ord"
  "m_Price (trade_of ts symb now ord mk) = o_Price mk"
  "m_Quantity (trade_of ts symb now ord mk) = trade_qty ord mk"
  "m_QuoteQty (trade_of ts symb now ord mk) = Mul (o_Price mk) (trade_qty ord mk)"
  "m_TakerSide (trade_of ts symb now ord mk) = ts"
  "m_Symbol (trade_of ts symb now ord mk) = symb"
  "m_Timestamp (trade_of ts symb now ord mk) = now"
  by (simp_all add: trade_of_def)

definition traded :: "MatchResult list \<Rightarrow> int" where
  "traded ts = sum_list (map (\<lambda>t. val (m_Quantity t)) ts)"

lemma traded_simps [simp]: "traded [] = 0" "traded (t # ts) = val (m_Quantity t) + traded ts"
  "traded (ts @ us) = traded ts + traded us"
  by (simp_all add: traded_def)

text \<open>Induction on a run of \<open>match_list\<close>, one case per way a round can go.\<close>

lemma match_list_induct [consumes 1, case_names empty stop partial full]:
  assumes "match_list ahead ts symb clk n ord mks = (ord', mks', tr)"
    and "\<And>n ord. P n ord [] ord [] []"
    and "\<And>n ord mk mks. rem ord \<le> 0 \<or> blocked ahead ord (price mk) \<Longrightarrow>
      P n ord (mk # mks) ord (mk # mks) []"
    and "\<And>n ord mk mks. 0 < rem ord \<Longrightarrow> \<not> blocked ahead ord (price mk) \<Longrightarrow> rem ord < rem mk \<Longrightarrow>
      P n ord (mk # mks) (fill_by (trade_qty ord mk) ord) (fill_by (trade_qty ord mk) mk # mks)
        [trade_of ts symb (clk n) ord mk]"
    and "\<And>n ord mk mks ord' mks' tr.
      0 < rem ord \<Longrightarrow> \<not> blocked ahead ord (price mk) \<Longrightarrow> rem mk \<le> rem ord \<Longrightarrow>
      P (Suc n) (fill_by (trade_qty ord mk) ord) mks ord' mks' tr \<Longrightarrow>
      P n ord (mk # mks) ord' mks' (trade_of ts symb (clk n) ord mk # tr)"
  shows "P n ord mks ord' mks' tr"
  using assms(1)
proof (induction mks arbitrary: n ord ord' mks' tr)
  case Nil
  with assms(2) show ?case by simp
next
  case (Cons mk mks)
  consider (stop) "rem ord \<le> 0 \<or> blocked ahead ord (price mk)"
    | (part) "0 < rem ord" "\<not> blocked ahead ord (price mk)" "rem ord < rem mk"
    | (full) "0 < rem ord" "\<not> blocked ahead ord (price mk)" "rem mk \<le> rem ord" by linarith
  then show ?case
  proof cases
    case stop
    with Cons.prems assms(3) show ?thesis by auto
  next
    case part
    with Cons.prems assms(4) show ?thesis by auto
  next
    case full
    obtain o2 ms2 t2 where r: "match_list ahead ts symb clk (Suc n) (fill_by (trade_qty ord mk) ord) mks
        = (o2, ms2, t2)" by (cases rule: prod_cases3)
    then have "ord' = o2" "mks' = ms2" "tr = trade_of ts symb (clk n) ord mk # t2"
      using full Cons.prems by auto
    with assms(5) [OF full Cons.IH [OF r]] show ?thesis by simp
  qed
qed

text \<open>
  The taker changes in its filled quantity only; quantity moves one to one between taker,
  makers and trades.
\<close>

lemma match_list_taker:
  "match_list ahead ts symb clk n ord mks = (ord', mks', tr) \<Longrightarrow>
     ord' = ord\<lparr>o_FilledQty := o_FilledQty ord'\<rparr>"
  by (induction rule: match_list_induct) (auto simp: fill_by_def)

lemma match_list_conserves:
  "match_list ahead ts symb clk n ord mks = (ord', mks', tr) \<Longrightarrow>
     rem ord - rem ord' = traded tr \<and> total_rem mks - total_rem mks' = traded tr"
  by (induction rule: match_list_induct) auto

text \<open>
  Price-time priority: the makers that trade are the first makers of the list, in its order;
  all of them are filled except possibly the last, which stays at the front.
\<close>

definition trade_with :: "MatchResult \<Rightarrow> Order \<Rightarrow> bool" where
  "trade_with t mk \<longleftrightarrow> m_MakerOrderID t = o_OrderID mk \<and> m_MakerUserID t = o_UserID mk \<and>
     m_Price t = o_Price mk"

lemma trade_with_trade_of [simp]: "trade_with (trade_of ts symb now ord mk) mk"
  by (simp add: trade_with_def)

lemma match_list_makers:
  "match_list ahead ts symb clk n ord mks = (ord', mks', tr) \<Longrightarrow>
     list_all2 trade_with tr (take (length tr) mks)"
  by (induction rule: match_list_induct) auto

lemma match_list_rest:
  "match_list ahead ts symb clk n ord mks = (ord', mks', tr) \<Longrightarrow>
     mks' = drop (length tr) mks \<or>
     (\<exists>xs mk ys q. mks = xs @ mk # ys \<and> length tr = Suc (length xs) \<and> mks' = fill_by q mk # ys \<and>
       rem ord' = 0)"
proof (induction rule: match_list_induct)
  case (partial n ord mk mks)
  then show ?case by (intro disjI2 exI [of _ "[]"]) auto
next
  case (full n ord mk mks ord' mks' tr)
  from full.IH show ?case
  proof (elim disjE exE conjE)
    fix xs mk' ys q
    assume "mks = xs @ mk' # ys" "length tr = Suc (length xs)" "mks' = fill_by q mk' # ys" "rem ord' = 0"
    then show ?thesis by (intro disjI2 exI [of _ "mk # xs"] exI [of _ mk'] exI [of _ ys] exI [of _ q]) simp
  qed simp
qed simp_all

lemma match_list_subset:
  "match_list ahead ts symb clk n ord mks = (ord', mks', tr) \<Longrightarrow>
     x \<in> set mks' \<Longrightarrow> \<exists>mk \<in> set mks. x = mk \<or> (\<exists>q. x = fill_by q mk)"
  by (induction rule: match_list_induct) auto

lemma match_list_ids:
  "match_list ahead ts symb clk n ord mks = (ord', mks', tr) \<Longrightarrow>
     \<exists>ids. map o_OrderID mks = ids @ map o_OrderID mks'"
proof (induction rule: match_list_induct)
  case (full n ord mk mks ord' mks' tr)
  then obtain ids where "map o_OrderID mks = ids @ map o_OrderID mks'" by blast
  then show ?case by (intro exI [of _ "o_OrderID mk # ids"]) simp
qed simp_all

text \<open>What each trade says: the identities, the quote amount, the price within the limit.\<close>

lemma match_list_trades:
  "match_list ahead ts symb clk n ord mks = (ord', mks', tr) \<Longrightarrow> t \<in> set tr \<Longrightarrow>
     m_TakerOrderID t = o_OrderID ord \<and> m_TakerUserID t = o_UserID ord \<and> m_TakerSide t = ts \<and>
     m_Symbol t = symb \<and> m_QuoteQty t = Mul (m_Price t) (m_Quantity t) \<and>
     \<not> blocked ahead ord (val (m_Price t))"
  by (induction rule: match_list_induct) auto

lemma match_list_positive:
  "match_list ahead ts symb clk n ord mks = (ord', mks', tr) \<Longrightarrow> (\<And>mk. mk \<in> set mks \<Longrightarrow> 0 < rem mk) \<Longrightarrow>
     (\<forall>t \<in> set tr. 0 < val (m_Quantity t)) \<and> (\<forall>x \<in> set mks'. 0 < rem x) \<and>
     (0 \<le> rem ord \<longrightarrow> 0 \<le> rem ord')"
  by (induction rule: match_list_induct) auto

text \<open>When it stops, and how much it fills: all that is available below the limit.\<close>

lemma match_list_stop:
  "match_list ahead ts symb clk n ord mks = (ord', mks', tr) \<Longrightarrow>
     rem ord' \<le> 0 \<or> mks' = [] \<or> blocked ahead ord (price (hd mks'))"
  by (induction rule: match_list_induct) auto

lemma match_list_fill:
  "match_list ahead ts symb clk n ord mks = (ord', mks', tr) \<Longrightarrow> (\<And>mk. mk \<in> set mks \<Longrightarrow> 0 < rem mk) \<Longrightarrow>
     0 \<le> rem ord \<Longrightarrow>
     rem ord' = max 0 (rem ord - total_rem (takeWhile (\<lambda>x. \<not> blocked ahead ord (price x)) mks))"
proof (induction rule: match_list_induct)
  case (stop n ord mk mks)
  have "0 \<le> total_rem (takeWhile (\<lambda>x. \<not> blocked ahead ord (price x)) (mk # mks))"
    by (rule total_rem_nonneg) (metis stop.prems(1) less_imp_le set_takeWhileD)
  with stop show ?case by auto
next
  case (partial n ord mk mks)
  have "0 \<le> total_rem (takeWhile (\<lambda>x. \<not> blocked ahead ord (price x)) mks)"
    by (rule total_rem_nonneg) (metis partial.prems(1) less_imp_le list.set_intros(2) set_takeWhileD)
  with partial show ?case by auto
qed auto

subsection \<open>The loops match as on the list\<close>

lemma fill_head_eq:
  assumes "level_ok l" and "lorders l = mk # rest" and "0 < rem ord"
    and "fill_head ts symb now ord mk rest (pl_orders l) = (ord', q, filled, t)"
  shows "ord' = fill_by (trade_qty ord mk) ord \<and> t = trade_of ts symb now ord mk \<and>
    filled = (rem mk \<le> rem ord) \<and> queue_ok q \<and>
    q_orders q = (if rem mk \<le> rem ord then rest else fill_by (trade_qty ord mk) mk # rest)"
  using assms
  by (auto simp: fill_head_def Let_def IsFilled_iff queue_pop_def level_ok_def queue_ok_def
      split: if_splits)

locale matching_side = price_side +
  fixes loop :: "Symbol \<Rightarrow> (nat \<Rightarrow> int) \<Rightarrow> Order \<Rightarrow> priceLevel list \<Rightarrow> MatchResult list \<Rightarrow>
      panic + Order \<times> priceLevel list \<times> MatchResult list"
    and ts :: Side
  assumes loop_eq: "loop symb clk ord ls ms =
      (if rem ord > 0 then
         (case ls of
            [] \<Rightarrow> Inr (ord, ls, ms)
          | best # worse \<Rightarrow>
              if blocked ahead ord (lprice best) then Inr (ord, ls, ms)
              else
                (case lorders best of
                   [] \<Rightarrow> Inl NilPointerDereference
                 | maker # rest \<Rightarrow>
                     (case fill_head ts symb (clk (length ms)) ord maker rest (pl_orders best) of
                        (ord', q', filled, trade) \<Rightarrow>
                          loop symb clk ord'
                            (if filled \<and> q_len q' = 0 then worse
                             else best\<lparr>pl_orders := q'\<rparr> # worse)
                            (ms @ [trade]))))
       else Inr (ord, ls, ms))"
begin

lemma loop_stopped: "rem ord \<le> 0 \<Longrightarrow> loop symb clk ord ls ms = Inr (ord, ls, ms)"
  by (subst loop_eq) simp

text \<open>The loop never panics on a well-formed side and refines \<open>match_list\<close>.\<close>

lemma loop_refines:
  assumes "side_ok ahead ls"
  shows "\<exists>ord' ls' tr. loop symb clk ord ls ms = Inr (ord', ls', ms @ tr) \<and> side_ok ahead ls' \<and>
    match_list ahead ts symb clk (length ms) ord (flat ls) = (ord', flat ls', tr) \<and>
    lprice ` set ls' \<subseteq> lprice ` set ls"
  using assms
proof (induction "loop_measure ord ls" arbitrary: ord ls ms rule: less_induct)
  case less
  show ?case
  proof (cases "rem ord > 0 \<and> ls \<noteq> []")
    case False
    then show ?thesis
      using less.prems by (cases "flat ls"; cases ls) (auto simp: loop_eq [of symb clk ord])
  next
    case True
    then obtain l ws where ls: "ls = l # ws" by (cases ls) auto
    have lok: "level_ok l" and wok: "side_ok ahead ws" and ah: "\<forall>m \<in> set ws. ahead (lprice l) (lprice m)"
      using less.prems ls by (simp_all add: side_ok_Cons)
    obtain mk rest where mk: "lorders l = mk # rest"
      using lok by (cases "lorders l") (auto simp: level_ok_def)
    have mkp: "price mk = lprice l" "0 < rem mk" using lok mk by (simp_all add: level_ok_def)
    show ?thesis
    proof (cases "blocked ahead ord (lprice l)")
      case blk: True
      then show ?thesis using less.prems ls mk mkp by (simp add: loop_eq [of symb clk ord])
    next
      case nblk: False
      obtain o2 q fl t where fh: "fill_head ts symb (clk (length ms)) ord mk rest (pl_orders l)
          = (o2, q, fl, t)" by (cases rule: prod_cases4)
      define ls2 where "ls2 = (if fl \<and> q_len q = 0 then ws else l\<lparr>pl_orders := q\<rparr> # ws)"
      have fe: "o2 = fill_by (trade_qty ord mk) ord" "t = trade_of ts symb (clk (length ms)) ord mk"
        "fl = (rem mk \<le> rem ord)" "queue_ok q"
        "q_orders q = (if rem mk \<le> rem ord then rest else fill_by (trade_qty ord mk) mk # rest)"
        using fill_head_eq [OF lok mk _ fh] True by simp_all
      have dec: "loop_measure o2 ls2 < loop_measure ord ls"
        using fill_head_decreases [OF fh mk] True ls by (simp add: ls2_def)
      have flat2: "flat ls2 = (if rem mk \<le> rem ord then rest else fill_by (trade_qty ord mk) mk # rest) @ flat ws"
        using fe by (auto simp: ls2_def queue_ok_def)
      have "level_ok (l\<lparr>pl_orders := q\<rparr>)" if "\<not> (fl \<and> q_len q = 0)"
        using that fe lok mk mkp by (auto simp: level_ok_def queue_ok_def)
      then have ok2: "side_ok ahead ls2" using wok ah by (auto simp: ls2_def side_ok_Cons)
      have step: "loop symb clk ord ls ms = loop symb clk o2 ls2 (ms @ [t])"
        unfolding ls2_def ls by (subst loop_eq) (use True nblk mk fh in simp)
      obtain o3 ls3 tr where IH: "loop symb clk o2 ls2 (ms @ [t]) = Inr (o3, ls3, (ms @ [t]) @ tr)"
        "side_ok ahead ls3" "match_list ahead ts symb clk (Suc (length ms)) o2 (flat ls2) = (o3, flat ls3, tr)"
        "lprice ` set ls3 \<subseteq> lprice ` set ls2"
        using less.hyps [OF dec ok2, of "ms @ [t]"] by auto
      have "match_list ahead ts symb clk (length ms) ord (flat ls) = (o3, flat ls3, t # tr)"
      proof (cases "rem mk \<le> rem ord")
        case True
        then show ?thesis using IH(3) flat2 fe ls mk mkp nblk \<open>rem ord > 0 \<and> ls \<noteq> []\<close> by simp
      next
        case False
        then have "rem o2 = 0" using fe by simp
        then have "o3 = o2 \<and> flat ls3 = flat ls2 \<and> tr = []"
          using IH(3) by (cases "flat ls2") auto
        then show ?thesis using False flat2 fe ls mk mkp nblk \<open>rem ord > 0 \<and> ls \<noteq> []\<close> by simp
      qed
      moreover have "lprice ` set ls3 \<subseteq> lprice ` set ls"
        using IH(4) ls by (auto simp: ls2_def split: if_splits)
      ultimately show ?thesis using step IH by simp
    qed
  qed
qed

end

interpretation buying: matching_side asks_first ask_insert matchBuy_loop SideBuy
  by unfold_locales
    (subst matchBuy_loop.simps, simp add: blocked_def cong: list.case_cong)

interpretation selling: matching_side bids_first bid_insert matchSell_loop SideSell
  by unfold_locales
    (subst matchSell_loop.simps, simp add: blocked_def cong: list.case_cong)

end
