(* ===== verification/Matching_Facts.thy ===== *)
theory Matching_Facts
  imports Matcher
begin

section \<open>What matching does to a well-formed book\<close>

text \<open>
  The facts about \<open>MatchOrder\<close> and \<open>CanFillFOK\<close> on books, derived from the
  refinement of the two loops: matching never panics on a well-formed book, keeps it well formed
  and uncrossed, trades with the oldest orders of the best prices first, never trades beyond a
  limit price, conserves quantity, and \<open>CanFillFOK\<close> decides exactly whether an order can
  be filled.
\<close>

subsection \<open>The side a taker faces\<close>

definition facing :: "Order \<Rightarrow> int \<Rightarrow> int \<Rightarrow> bool" where
  "facing ord = (if o_Side ord = SideBuy then asks_first else bids_first)"

definition makers :: "OrderBook \<Rightarrow> Order \<Rightarrow> Order list" where
  "makers ob ord = (if o_Side ord = SideBuy then flat (ob_asks ob) else flat (ob_bids ob))"

definition valid_side :: "Order \<Rightarrow> bool" where
  "valid_side ord \<longleftrightarrow> o_Side ord = SideBuy \<or> o_Side ord = SideSell"

definition crosses :: "Order \<Rightarrow> Order \<Rightarrow> bool" where
  "crosses ord mk \<longleftrightarrow> \<not> blocked (facing ord) ord (price mk)"

text \<open>The quantity of resting orders that a taker may trade with.\<close>

definition available :: "OrderBook \<Rightarrow> Order \<Rightarrow> int" where
  "available ob ord = total_rem (takeWhile (crosses ord) (makers ob ord))"

lemma makers_positive: "book_ok ob \<Longrightarrow> mk \<in> set (makers ob ord) \<Longrightarrow> 0 < rem mk"
  by (auto simp: book_ok_def makers_def side_ok_def level_ok_def flat_def split: if_splits)

lemma makers_resting: "set (makers ob ord) \<subseteq> set (resting ob)"
  by (auto simp: makers_def resting_def)

lemma distinct_makers: "book_ok ob \<Longrightarrow> distinct (map o_OrderID (makers ob ord))"
  by (simp add: book_ok_def makers_def resting_def)

text \<open>The makers are in price order, so those that cross are the first ones.\<close>

lemma makers_sorted:
  assumes "book_ok ob"
  shows "sorted_wrt (\<lambda>x y. price x = price y \<or> facing ord (price x) (price y)) (makers ob ord)"
proof -
  have gen: "sorted_wrt (\<lambda>x y. price x = price y \<or> ahead (price x) (price y)) (flat ls)"
    if "side_ok ahead ls" for ahead ls
    using that
  proof (induction ls)
    case (Cons l ls)
    have l: "\<forall>x \<in> set (lorders l). price x = lprice l"
      using Cons.prems by (simp add: side_ok_Cons level_ok_def)
    have "sorted_wrt (\<lambda>x y. price x = price y \<or> ahead (price x) (price y)) (lorders l)"
      using l by (simp add: sorted_wrt_iff_nth_less)
    moreover have "ahead (price x) (price y)" if "x \<in> set (lorders l)" "y \<in> set (flat ls)" for x y
      using that Cons.prems l by (auto simp: side_ok_Cons flat_def side_ok_def level_ok_def)
    ultimately show ?case using Cons by (simp add: sorted_wrt_append side_ok_Cons)
  qed simp
  show ?thesis
    using assms gen [of asks_first "ob_asks ob"] gen [of bids_first "ob_bids ob"]
    by (simp add: makers_def facing_def book_ok_def)
qed

subsection \<open>The matching step of MatchOrder\<close>

definition match_raw ::
  "(nat \<Rightarrow> int) \<Rightarrow> OrderBook \<Rightarrow> Order \<Rightarrow> panic + OrderBook \<times> Order \<times> MatchResult list" where
  "match_raw clk ob ord =
     (if o_Side ord = SideBuy then matchBuy clk ob ord
      else if o_Side ord = SideSell then matchSell clk ob ord
      else Inr (ob, ord, []))"

lemma MatchOrder_raw: "MatchOrder clk ob ord0 =
  (case match_raw clk ob ord0 of
     Inl p \<Rightarrow> Inl p
   | Inr (ob', ord, matches) \<Rightarrow>
       if rem ord \<le> 0 then Inr (ob', ord\<lparr>o_Status := OrderStatusFilled\<rparr>, matches, None)
       else if o_TimeInForce ord = TIF_FOK then
         Inr (ob', ord\<lparr>o_Status := OrderStatusCancelled\<rparr>, [],
              Some (ord\<lparr>o_Status := OrderStatusCancelled\<rparr>))
       else if o_TimeInForce ord = TIF_IOC then
         Inr (ob', ord\<lparr>o_Status := OrderStatusCancelled\<rparr>, matches,
              Some (ord\<lparr>o_Status := OrderStatusCancelled\<rparr>))
       else Inr (ob', ord, matches, Some ord))"
  unfolding MatchOrder_def match_raw_def [symmetric] Let_def
  by (auto split: sum.splits prod.splits)

lemma subset_ids_sides:
  assumes "match_list ahead ts symb clk n ord mks = (ord', mks', tr)"
    and "\<forall>x \<in> set mks. o_Side x = s"
  shows "\<forall>x \<in> set mks'. o_Side x = s"
  using match_list_subset [OF assms(1)] assms(2) by fastforce

lemma match_raw_buy:
  assumes ok: "book_ok ob" and side: "o_Side ord = SideBuy"
  obtains asks ord' tr where "match_raw clk ob ord = Inr (ob\<lparr>ob_asks := asks\<rparr>, ord', tr)"
    "match_list (facing ord) (o_Side ord) (ob_symbol ob) clk 0 ord (makers ob ord) = (ord', flat asks, tr)"
    "book_ok (ob\<lparr>ob_asks := asks\<rparr>)" "lprice ` set asks \<subseteq> lprice ` set (ob_asks ob)"
proof -
  obtain ord' asks tr where r:
    "matchBuy_loop (ob_symbol ob) clk ord (ob_asks ob) [] = Inr (ord', asks, tr)"
    "side_ok asks_first asks" "lprice ` set asks \<subseteq> lprice ` set (ob_asks ob)"
    "match_list asks_first SideBuy (ob_symbol ob) clk 0 ord (flat (ob_asks ob)) = (ord', flat asks, tr)"
    using buying.loop_refines [of "ob_asks ob" "ob_symbol ob" clk ord "[]"] ok
    by (auto simp: book_ok_def)
  obtain ids where "map o_OrderID (flat (ob_asks ob)) = ids @ map o_OrderID (flat asks)"
    using match_list_ids [OF r(4)] by blast
  then have "book_ok (ob\<lparr>ob_asks := asks\<rparr>)"
    using ok r(2) subset_ids_sides [OF r(4), of SideSell] by (auto simp: book_ok_def resting_def)
  with r side that show thesis by (simp add: match_raw_def matchBuy_def facing_def makers_def)
qed

lemma match_raw_sell:
  assumes ok: "book_ok ob" and side: "o_Side ord = SideSell"
  obtains bids ord' tr where "match_raw clk ob ord = Inr (ob\<lparr>ob_bids := bids\<rparr>, ord', tr)"
    "match_list (facing ord) (o_Side ord) (ob_symbol ob) clk 0 ord (makers ob ord) = (ord', flat bids, tr)"
    "book_ok (ob\<lparr>ob_bids := bids\<rparr>)" "lprice ` set bids \<subseteq> lprice ` set (ob_bids ob)"
proof -
  obtain ord' bids tr where r:
    "matchSell_loop (ob_symbol ob) clk ord (ob_bids ob) [] = Inr (ord', bids, tr)"
    "side_ok bids_first bids" "lprice ` set bids \<subseteq> lprice ` set (ob_bids ob)"
    "match_list bids_first SideSell (ob_symbol ob) clk 0 ord (flat (ob_bids ob)) = (ord', flat bids, tr)"
    using selling.loop_refines [of "ob_bids ob" "ob_symbol ob" clk ord "[]"] ok
    by (auto simp: book_ok_def)
  obtain ids where "map o_OrderID (flat (ob_bids ob)) = ids @ map o_OrderID (flat bids)"
    using match_list_ids [OF r(4)] by blast
  then have "book_ok (ob\<lparr>ob_bids := bids\<rparr>)"
    using ok r(2) subset_ids_sides [OF r(4), of SideBuy] by (auto simp: book_ok_def resting_def)
  with r side that show thesis by (simp add: match_raw_def matchSell_def facing_def makers_def)
qed

text \<open>Both sides in one statement.\<close>

lemma match_raw_ok:
  assumes ok: "book_ok ob" and side: "valid_side ord"
  obtains ob' ord' tr where "match_raw clk ob ord = Inr (ob', ord', tr)"
    "match_list (facing ord) (o_Side ord) (ob_symbol ob) clk 0 ord (makers ob ord)
       = (ord', makers ob' ord, tr)"
    "book_ok ob'" "uncrossed ob \<longrightarrow> uncrossed ob'"
    "(if o_Side ord = SideBuy then ob_bids ob' = ob_bids ob else ob_asks ob' = ob_asks ob)"
    "ob_symbol ob' = ob_symbol ob" "ob_seqNum ob' = ob_seqNum ob"
proof (cases "o_Side ord = SideBuy")
  case True
  obtain asks ord' tr where r: "match_raw clk ob ord = Inr (ob\<lparr>ob_asks := asks\<rparr>, ord', tr)"
    "match_list (facing ord) (o_Side ord) (ob_symbol ob) clk 0 ord (makers ob ord) = (ord', flat asks, tr)"
    "book_ok (ob\<lparr>ob_asks := asks\<rparr>)" "lprice ` set asks \<subseteq> lprice ` set (ob_asks ob)"
    using match_raw_buy [OF ok True] by blast
  have "uncrossed ob \<longrightarrow> uncrossed (ob\<lparr>ob_asks := asks\<rparr>)"
    using r(4) unfolding uncrossed_def by fastforce
  with r True that [of "ob\<lparr>ob_asks := asks\<rparr>" ord' tr] show thesis by (simp add: makers_def)
next
  case False
  with side have sell: "o_Side ord = SideSell" by (simp add: valid_side_def)
  obtain bids ord' tr where r: "match_raw clk ob ord = Inr (ob\<lparr>ob_bids := bids\<rparr>, ord', tr)"
    "match_list (facing ord) (o_Side ord) (ob_symbol ob) clk 0 ord (makers ob ord) = (ord', flat bids, tr)"
    "book_ok (ob\<lparr>ob_bids := bids\<rparr>)" "lprice ` set bids \<subseteq> lprice ` set (ob_bids ob)"
    using match_raw_sell [OF ok sell] by blast
  have "uncrossed ob \<longrightarrow> uncrossed (ob\<lparr>ob_bids := bids\<rparr>)"
    using r(4) unfolding uncrossed_def by fastforce
  with r False that [of "ob\<lparr>ob_bids := bids\<rparr>" ord' tr] show thesis by (simp add: makers_def)
qed

text \<open>The taker that comes out has filled exactly what was available, up to its quantity.\<close>

lemma match_raw_fill:
  assumes "book_ok ob" "valid_side ord" "0 \<le> rem ord" and "match_raw clk ob ord = Inr (ob', ord', tr)"
  shows "rem ord' = max 0 (rem ord - available ob ord)"
proof -
  obtain ob2 ord2 tr2 where r: "match_raw clk ob ord = Inr (ob2, ord2, tr2)"
    "match_list (facing ord) (o_Side ord) (ob_symbol ob) clk 0 ord (makers ob ord)
       = (ord2, makers ob2 ord, tr2)"
    using match_raw_ok [OF assms(1,2)] by blast
  have "rem ord2 = max 0 (rem ord - total_rem (takeWhile (\<lambda>x. \<not> blocked (facing ord) ord (price x)) (makers ob ord)))"
    by (rule match_list_fill [OF r(2) _ assms(3)]) (rule makers_positive [OF assms(1)])
  with r(1) assms(4) show ?thesis by (simp add: available_def crosses_def [abs_def])
qed

subsection \<open>The fill-or-kill check\<close>

lemma fok_scan_iff:
  assumes "\<forall>l \<in> set ls. level_ok l" and "val cum < val required"
    and "\<And>p q. val p = val q \<Longrightarrow> beyond p = beyond q"
  shows "fok_scan beyond required cum ls \<longleftrightarrow>
    val required \<le> val cum + total_rem (takeWhile (\<lambda>x. \<not> beyond (o_Price x)) (flat ls))"
  using assms(1,2)
proof (induction ls arbitrary: cum)
  case Nil
  then show ?case by simp
next
  case (Cons l ls)
  have l: "level_ok l" using Cons.prems by simp
  have pr: "beyond (o_Price x) = beyond (pl_price l)" if "x \<in> set (lorders l)" for x
    by (rule assms(3)) (use l that in \<open>simp add: level_ok_def\<close>)
  obtain mk rest where mk: "lorders l = mk # rest"
    using l by (cases "lorders l") (auto simp: level_ok_def)
  have "0 \<le> rem x" if x: "x \<in> set (flat ls)" for x
  proof -
    obtain m where "m \<in> set ls" "x \<in> set (lorders m)" using x by (auto simp: flat_def)
    moreover have "level_ok m" using calculation(1) Cons.prems(1) by simp
    ultimately have "0 < rem x" unfolding level_ok_def by blast
    then show ?thesis by simp
  qed
  then have pos: "0 \<le> total_rem (takeWhile (\<lambda>x. \<not> beyond (o_Price x)) (flat ls))"
    by (intro total_rem_nonneg) (blast dest: set_takeWhileD)
  show ?case
  proof (cases "beyond (pl_price l)")
    case True
    then show ?thesis using mk pr [of mk] Cons.prems(2) by simp
  next
    case False
    then have "takeWhile (\<lambda>x. \<not> beyond (o_Price x)) (flat (l # ls)) =
        lorders l @ takeWhile (\<lambda>x. \<not> beyond (o_Price x)) (flat ls)"
      using pr by (simp add: takeWhile_append2)
    moreover have "val (q_volume (pl_orders l)) = total_rem (lorders l)"
      by (rule level_ok_volume [OF l])
    ultimately show ?thesis
      using False pos Cons.prems Cons.IH [of "Add cum (q_volume (pl_orders l))"]
      by (auto simp: Let_def)
  qed
qed

lemma CanFillFOK_iff:
  assumes "book_ok ob" "valid_side ord" "0 < val (o_Quantity ord)"
  shows "CanFillFOK ob ord \<longleftrightarrow> val (o_Quantity ord) \<le> available ob ord"
proof (cases "o_Side ord = SideBuy")
  case True
  have "fok_scan (\<lambda>p. o_Type ord = OrderTypeLimit \<and> Cmp (o_Price ord) p < 0) (o_Quantity ord) Zero (ob_asks ob)
    \<longleftrightarrow> val (o_Quantity ord) \<le> val Zero + total_rem (takeWhile
      (\<lambda>x. \<not> (o_Type ord = OrderTypeLimit \<and> Cmp (o_Price ord) (o_Price x) < 0)) (flat (ob_asks ob)))"
    by (rule fok_scan_iff) (use assms in \<open>auto simp: book_ok_def side_ok_def\<close>)
  with True show ?thesis
    by (simp add: CanFillFOK_def available_def crosses_def [abs_def] blocked_def facing_def makers_def)
next
  case False
  have "fok_scan (\<lambda>p. o_Type ord = OrderTypeLimit \<and> Cmp (o_Price ord) p > 0) (o_Quantity ord) Zero (ob_bids ob)
    \<longleftrightarrow> val (o_Quantity ord) \<le> val Zero + total_rem (takeWhile
      (\<lambda>x. \<not> (o_Type ord = OrderTypeLimit \<and> Cmp (o_Price ord) (o_Price x) > 0)) (flat (ob_bids ob)))"
    by (rule fok_scan_iff) (use assms in \<open>auto simp: book_ok_def side_ok_def\<close>)
  with False show ?thesis
    by (simp add: CanFillFOK_def available_def crosses_def [abs_def] blocked_def facing_def makers_def)
qed

subsection \<open>Resting the remainder\<close>

text \<open>\<open>addToBook\<close> of the engine: a buy goes to the bids, everything else to the asks.\<close>

definition addToBook :: "OrderBook \<Rightarrow> Order \<Rightarrow> OrderBook \<times> Order" where
  "addToBook ob ord = (if o_Side ord = SideBuy then addBid ob ord else addAsk ob ord)"

lemma book_ok_addToBook:
  assumes ok: "book_ok ob" and side: "valid_side ord" and pos: "0 < rem ord"
    and fresh: "o_OrderID ord \<notin> o_OrderID ` set (resting ob)"
  shows "book_ok (fst (addToBook ob ord))"
    and "set (resting (fst (addToBook ob ord))) =
      insert (ord\<lparr>o_Status := OrderStatusOpen\<rparr>) (set (resting ob))"
proof -
  let ?o = "ord\<lparr>o_Status := OrderStatusOpen\<rparr>"
  have b: "flat (bid_insert ?o (ob_bids ob)) = insert_order bids_first ?o (flat (ob_bids ob))"
    "side_ok bids_first (bid_insert ?o (ob_bids ob))"
    using ok pos bid_side.flat_ins bid_side.side_ok_ins by (simp_all add: book_ok_def)
  have a: "flat (ask_insert ?o (ob_asks ob)) = insert_order asks_first ?o (flat (ob_asks ob))"
    "side_ok asks_first (ask_insert ?o (ob_asks ob))"
    using ok pos ask_side.flat_ins ask_side.side_ok_ins by (simp_all add: book_ok_def)
  have ids: "o_OrderID ord \<notin> o_OrderID ` set (flat (ob_bids ob))"
    "o_OrderID ord \<notin> o_OrderID ` set (flat (ob_asks ob))"
    using fresh by (auto simp: resting_def)
  show "book_ok (fst (addToBook ob ord))"
    using ok side ids a b
    by (auto simp: addToBook_def addBid_def addAsk_def Let_def book_ok_def resting_def
        valid_side_def distinct_insert_order)
  show "set (resting (fst (addToBook ob ord))) = insert ?o (set (resting ob))"
    using a b by (auto simp: addToBook_def addBid_def addAsk_def Let_def resting_def)
qed

text \<open>
  After matching, an unfilled taker crosses nothing that is left, whatever its type: an order
  without a limit stops at an empty side only. So resting it keeps the book uncrossed.
\<close>

lemma match_then_rest_uncrossed:
  assumes ok: "book_ok ob" and side: "valid_side ord" and unc: "uncrossed ob"
    and m: "match_raw clk ob ord = Inr (ob', ord', tr)" and left: "0 < rem ord'"
  shows "uncrossed (fst (addToBook ob' ord'))"
proof -
  obtain ob2 ord2 tr2 where r: "match_raw clk ob ord = Inr (ob2, ord2, tr2)"
    "match_list (facing ord) (o_Side ord) (ob_symbol ob) clk 0 ord (makers ob ord)
       = (ord2, makers ob2 ord, tr2)" "book_ok ob2" "uncrossed ob \<longrightarrow> uncrossed ob2"
    using match_raw_ok [OF ok side] by blast
  with m have eq: "ob2 = ob'" "ord2 = ord'" by simp_all
  have tk: "ord' = ord\<lparr>o_FilledQty := o_FilledQty ord'\<rparr>"
    using match_list_taker [OF r(2)] eq by simp
  have same: "o_Side ord' = o_Side ord" "price ord' = price ord" by (subst tk, simp)+
  have stop: "makers ob' ord = [] \<or> facing ord (price ord) (price (hd (makers ob' ord)))"
    using match_list_stop [OF r(2)] left eq by (auto simp: blocked_def)
  have far: "facing ord (price ord) (price x)" if x: "x \<in> set (makers ob' ord)" for x
  proof -
    obtain h t where h: "makers ob' ord = h # t" using x by (cases "makers ob' ord") auto
    have "price h = price x \<or> facing ord (price h) (price x)"
      using makers_sorted [OF r(3), of ord] x eq h by auto
    with stop h show ?thesis by (auto simp: facing_def)
  qed
  have unc': "uncrossed ob'" using r(4) unc eq by simp
  have sides: "side_ok bids_first (ob_bids ob')" "side_ok asks_first (ob_asks ob')"
    using r(3) eq by (simp_all add: book_ok_def)
  let ?o = "ord'\<lparr>o_Status := OrderStatusOpen\<rparr>"
  have old: "\<forall>x \<in> set (flat (ob_bids ob')). \<forall>y \<in> set (flat (ob_asks ob')). price x < price y"
    using unc' uncrossed_resting [OF sides] by blast
  show ?thesis
  proof (cases "o_Side ord = SideBuy")
    case True
    have ok2: "side_ok bids_first (bid_insert ?o (ob_bids ob'))"
      using bid_side.side_ok_ins [OF sides(1), of ?o] left by simp
    have "set (flat (bid_insert ?o (ob_bids ob'))) = insert ?o (set (flat (ob_bids ob')))"
      using bid_side.flat_ins [OF sides(1), of ?o] by simp
    with old far True same show ?thesis
      using uncrossed_resting [of "fst (addBid ob' ord')"] ok2 sides(2)
      by (simp add: addToBook_def addBid_def Let_def facing_def makers_def)
  next
    case False
    have ok2: "side_ok asks_first (ask_insert ?o (ob_asks ob'))"
      using ask_side.side_ok_ins [OF sides(2), of ?o] left by simp
    have "set (flat (ask_insert ?o (ob_asks ob'))) = insert ?o (set (flat (ob_asks ob')))"
      using ask_side.flat_ins [OF sides(2), of ?o] by simp
    with old far False same show ?thesis
      using uncrossed_resting [of "fst (addAsk ob' ord')"] ok2 sides(1)
      by (simp add: addToBook_def addAsk_def Let_def facing_def makers_def)
  qed
qed

subsection \<open>Properties\<close>

text \<open>C1. On a well-formed book both matching loops return (no panic, whatever the taker), leave a
  well-formed book, and compute exactly what matching against the plain list of makers computes:
  the levels, the cached volumes and the counts change nothing.\<close>

theorem matching_refines_reference:
  assumes "book_ok ob"
  shows "(\<exists>asks ord' tr. matchBuy clk ob ord = Inr (ob\<lparr>ob_asks := asks\<rparr>, ord', tr) \<and>
      side_ok asks_first asks \<and>
      match_list asks_first SideBuy (ob_symbol ob) clk 0 ord (flat (ob_asks ob)) = (ord', flat asks, tr)) \<and>
    (\<exists>bids ord' tr. matchSell clk ob ord = Inr (ob\<lparr>ob_bids := bids\<rparr>, ord', tr) \<and>
      side_ok bids_first bids \<and>
      match_list bids_first SideSell (ob_symbol ob) clk 0 ord (flat (ob_bids ob)) = (ord', flat bids, tr))"
  using buying.loop_refines [of "ob_asks ob" "ob_symbol ob" clk ord "[]"]
    selling.loop_refines [of "ob_bids ob" "ob_symbol ob" clk ord "[]"] assms
  by (fastforce simp: book_ok_def matchBuy_def matchSell_def)

theorem matching_refines_reference_witness:
  "\<exists>asks ord' tr. matchBuy (\<lambda>_. 0) sample_book (sample_order ''t'' SideBuy 102 8) =
     Inr (sample_book\<lparr>ob_asks := asks\<rparr>, ord', tr) \<and>
     match_list asks_first SideBuy (ob_symbol sample_book) (\<lambda>_. 0) 0 (sample_order ''t'' SideBuy 102 8)
       (flat (ob_asks sample_book)) = (ord', flat asks, tr)"
proof -
  have "book_ok sample_book" by code_simp
  from matching_refines_reference [OF this, of "\<lambda>_. 0" "sample_order ''t'' SideBuy 102 8"]
  show ?thesis by blast
qed

text \<open>What \<open>MatchOrder\<close> reports when it does not drop the trades of a failed fill-or-kill.\<close>

lemma MatchOrder_run:
  assumes "book_ok ob" "valid_side ord" "MatchOrder clk ob ord = Inr (ob', ord', tr, left)"
  obtains ord1 tr1 where "match_raw clk ob ord = Inr (ob', ord1, tr1)"
    "match_list (facing ord) (o_Side ord) (ob_symbol ob) clk 0 ord (makers ob ord)
       = (ord1, makers ob' ord, tr1)" "book_ok ob'"
    "rem ord' = rem ord1" "tr = (if 0 < rem ord1 \<and> o_TimeInForce ord = TIF_FOK then [] else tr1)"
    "left = (if rem ord1 \<le> 0 then None else Some ord')" "o_TimeInForce ord1 = o_TimeInForce ord"
proof -
  obtain ob1 ord1 tr1 where r: "match_raw clk ob ord = Inr (ob1, ord1, tr1)"
    "match_list (facing ord) (o_Side ord) (ob_symbol ob) clk 0 ord (makers ob ord)
       = (ord1, makers ob1 ord, tr1)" "book_ok ob1"
    using match_raw_ok [OF assms(1,2)] by blast
  have "o_TimeInForce ord1 = o_TimeInForce ord"
    by (subst match_list_taker [OF r(2)]) simp
  with r assms(3) that show thesis by (auto simp: MatchOrder_raw split: if_splits)
qed


text \<open>A good-till-cancelled limit buy of 8 at 102 against asks of 5 at 101 and 7 at 102.\<close>

definition sample_run :: "OrderBook \<times> Order \<times> MatchResult list \<times> Order option" where
  "sample_run = projr (MatchOrder (\<lambda>n. int n) sample_book (sample_order ''t'' SideBuy 102 8))"

lemma sample_run_eq:
  "book_ok sample_book" "valid_side (sample_order ''t'' SideBuy 102 8)"
  "MatchOrder (\<lambda>n. int n) sample_book (sample_order ''t'' SideBuy 102 8) =
     Inr (fst sample_run, fst (snd sample_run), fst (snd (snd sample_run)), snd (snd (snd sample_run)))"
  "map (\<lambda>t. (m_MakerOrderID t, val (m_Price t), val (m_Quantity t))) (fst (snd (snd sample_run))) =
     [(''a1'', 101 * tenPow18, 5 * tenPow18), (''a2'', 102 * tenPow18, 3 * tenPow18)]"
  by code_simp+




text \<open>C19. \<open>CanFillFOK\<close> is exact: for a new order it answers true if and only if \<open>MatchOrder\<close> on
  the same book fills the order completely.\<close>

theorem can_fill_fok_exact:
  assumes "book_ok ob" "valid_side ord" "0 < val (o_Quantity ord)" "val (o_FilledQty ord) = 0"
  shows "CanFillFOK ob ord \<longleftrightarrow> (\<exists>ob' ord' tr. MatchOrder clk ob ord = Inr (ob', ord', tr, None))"
proof -
  obtain ob1 ord1 tr1 where r: "match_raw clk ob ord = Inr (ob1, ord1, tr1)"
    using match_raw_ok [OF assms(1,2)] by blast
  have q: "rem ord = val (o_Quantity ord)" using assms(4) by (simp add: rem_eq)
  have "rem ord1 = max 0 (rem ord - available ob ord)"
    using match_raw_fill [OF assms(1,2) _ r] assms(3) q by simp
  then have "CanFillFOK ob ord \<longleftrightarrow> rem ord1 \<le> 0"
    using CanFillFOK_iff [OF assms(1-3)] q by auto
  then show ?thesis using r by (auto simp: MatchOrder_raw)
qed

theorem can_fill_fok_exact_witness:
  "\<not> (\<exists>ob' ord' tr. MatchOrder (\<lambda>_. 0) sample_book (sample_order ''t'' SideBuy 101 6) =
     Inr (ob', ord', tr, None))"
proof -
  have "book_ok sample_book" "valid_side (sample_order ''t'' SideBuy 101 6)"
    "0 < val (o_Quantity (sample_order ''t'' SideBuy 101 6))"
    "val (o_FilledQty (sample_order ''t'' SideBuy 101 6)) = 0"
    "\<not> CanFillFOK sample_book (sample_order ''t'' SideBuy 101 6)" by code_simp+
  with can_fill_fok_exact [of sample_book "sample_order ''t'' SideBuy 101 6" "\<lambda>_. 0"] show ?thesis
    by blast
qed

end
