(* ===== verification/Order_Validator.thy ===== *)
theory Order_Validator
  imports Order_Balances Matching_Facts
begin

section \<open>Validation of order requests (order/validator.go)\<close>

text \<open>
  \<open>Validator.Validate\<close> with its ten checks in the order of the code, the first failing one
  deciding the error; the request's time in force is defaulted on the way. A validator without a
  balance provider dereferences a nil interface in the ninth check, which is a panic of the model.
  The rate limiter's answer is a function of user and limit.
\<close>

record MarketConfig =
  mc_Symbol :: Symbol
  mc_BaseCurrency :: Currency
  mc_QuoteCurrency :: Currency
  mc_PriceTick :: decimal
  mc_QtyStep :: decimal
  mc_MinOrderQty :: decimal
  mc_MaxOrderQty :: decimal
  mc_MinNotional :: decimal
  mc_Status :: string

record Validator =
  v_markets :: "Symbol \<rightharpoonup> MarketConfig"
  v_balances :: bool
  v_rateLimiter :: "(string \<Rightarrow> int \<Rightarrow> bool) option"

definition NewValidator ::
  "MarketConfig list \<Rightarrow> bool \<Rightarrow> (string \<Rightarrow> int \<Rightarrow> bool) option \<Rightarrow> Validator" where
  "NewValidator markets balances limiter =
     \<lparr>v_markets = foldl (\<lambda>m mc. m(mc_Symbol mc \<mapsto> mc)) Map.empty markets,
      v_balances = balances, v_rateLimiter = limiter\<rparr>"

record PlaceOrderRequest =
  req_UserID :: string
  req_Symbol :: Symbol
  req_Side :: Side
  req_Type :: OrderType
  req_TimeInForce :: TimeInForce
  req_Price :: decimal
  req_StopPrice :: decimal
  req_Quantity :: decimal
  req_ClientOrderID :: string

definition validateOrderType :: "PlaceOrderRequest \<Rightarrow> error option" where
  "validateOrderType req =
     (if req_Type req = OrderTypeMarket \<or> req_Type req = OrderTypeLimit then None
      else if req_Type req = OrderTypeStopLoss \<or> req_Type req = OrderTypeStopLimit then
        (if IsZero (req_StopPrice req) then Some (Errorf ''stop price is required for stop orders'')
         else None)
      else Some ErrInvalidOrderType)"

definition validPrecision :: "decimal \<Rightarrow> decimal \<Rightarrow> bool" where
  "validPrecision value step = (if IsZero step then True else IsZero (Mod value step))"

definition checkBalance :: "PlaceOrderRequest \<Rightarrow> MarketConfig \<Rightarrow> db \<Rightarrow> error option \<times> db" where
  "checkBalance req market d =
     (if req_Side req = SideBuy then
        (if req_Type req = OrderTypeMarket then
           (case GetBalance (req_UserID req) (mc_QuoteCurrency market) d of
              (Inl e, d') \<Rightarrow> (Some e, d')
            | (Inr b, d') \<Rightarrow>
                if IsZero b then
                  (Some (WrapAfter ErrInsufficientBalance ('': zero balance for '' @ mc_QuoteCurrency market)), d')
                else (None, d'))
         else
           (let required = Mul (req_Price req) (req_Quantity req) in
            case GetBalance (req_UserID req) (mc_QuoteCurrency market) d of
              (Inl e, d') \<Rightarrow> (Some e, d')
            | (Inr b, d') \<Rightarrow>
                if Cmp b required < 0 then
                  (Some (WrapAfter ErrInsufficientBalance ('': need '' @ String required @ '' '' @
                     mc_QuoteCurrency market @ '', have '' @ String b)), d')
                else (None, d')))
      else
        (case GetBalance (req_UserID req) (mc_BaseCurrency market) d of
           (Inl e, d') \<Rightarrow> (Some e, d')
         | (Inr b, d') \<Rightarrow>
             if Cmp b (req_Quantity req) < 0 then
               (Some (WrapAfter ErrInsufficientBalance ('': need '' @ String (req_Quantity req) @ '' '' @
                  mc_BaseCurrency market @ '', have '' @ String b)), d')
             else (None, d')))"

text \<open>Limit and stop-limit orders, whose time in force and price are checked.\<close>

definition priced :: "PlaceOrderRequest \<Rightarrow> bool" where
  "priced req \<longleftrightarrow> req_Type req = OrderTypeLimit \<or> req_Type req = OrderTypeStopLimit"

definition default_tif :: "PlaceOrderRequest \<Rightarrow> PlaceOrderRequest" where
  "default_tif req =
     (if priced req \<and> req_TimeInForce req = '''' then req\<lparr>req_TimeInForce := TIF_GTC\<rparr> else req)"

text \<open>Checks 4 to 8, on the request with its time in force filled in.\<close>

definition check_terms :: "PlaceOrderRequest \<Rightarrow> MarketConfig \<Rightarrow> error option" where
  "check_terms req market =
     (if priced req \<and> req_TimeInForce req \<noteq> TIF_GTC \<and> req_TimeInForce req \<noteq> TIF_IOC \<and>
         req_TimeInForce req \<noteq> TIF_FOK then Some ErrInvalidTimeInForce
      else if priced req \<and> \<not> validPrecision (req_Price req) (mc_PriceTick market) then
        Some (WrapAfter ErrInvalidPricePrecision ('': tick size is '' @ String (mc_PriceTick market)))
      else if \<not> validPrecision (req_Quantity req) (mc_QtyStep market) then
        Some (WrapAfter ErrInvalidQtyPrecision ('': step size is '' @ String (mc_QtyStep market)))
      else if Cmp (req_Quantity req) (mc_MinOrderQty market) < 0 then
        Some (WrapAfter ErrOrderSizeOutOfRange ('': min is '' @ String (mc_MinOrderQty market)))
      else if Cmp (req_Quantity req) (mc_MaxOrderQty market) > 0 then
        Some (WrapAfter ErrOrderSizeOutOfRange ('': max is '' @ String (mc_MaxOrderQty market)))
      else if req_Type req = OrderTypeLimit \<and> \<not> IsZero (req_Price req) \<and>
          Cmp (Mul (req_Price req) (req_Quantity req)) (mc_MinNotional market) < 0 then
        Some (WrapAfter ErrOrderSizeOutOfRange ('': min notional is '' @ String (mc_MinNotional market)))
      else None)"

definition Validate ::
  "Validator \<Rightarrow> PlaceOrderRequest \<Rightarrow> db \<Rightarrow> panic + (error option \<times> PlaceOrderRequest \<times> db)" where
  "Validate v req0 d =
     (case v_markets v (req_Symbol req0) of
        None \<Rightarrow> Inr (Some ErrMarketNotAvailable, req0, d)
      | Some market \<Rightarrow>
          if mc_Status market \<noteq> ''active'' then Inr (Some ErrMarketNotAvailable, req0, d)
          else if req_Side req0 \<noteq> SideBuy \<and> req_Side req0 \<noteq> SideSell then
            Inr (Some (Errorf (''invalid side: '' @ req_Side req0)), req0, d)
          else
            (case validateOrderType req0 of
               Some e \<Rightarrow> Inr (Some e, req0, d)
             | None \<Rightarrow>
                 (let req = default_tif req0 in
                  case check_terms req market of
                    Some e \<Rightarrow> Inr (Some e, req, d)
                  | None \<Rightarrow>
                      if \<not> v_balances v then Inl NilPointerDereference
                      else
                        (case checkBalance req market d of
                           (Some e, d') \<Rightarrow> Inr (Some e, req, d')
                         | (None, d') \<Rightarrow>
                             (case v_rateLimiter v of
                                Some allow \<Rightarrow>
                                  if \<not> allow (req_UserID req) 20 then Inr (Some ErrRateLimitExceeded, req, d')
                                  else Inr (None, req, d')
                              | None \<Rightarrow> Inr (None, req, d'))))))"

definition MarketInfo :: "Validator \<Rightarrow> Symbol \<Rightarrow> MarketConfig option" where
  "MarketInfo v symb = v_markets v symb"

subsection \<open>What validation guarantees\<close>

lemma validPrecision_iff: "validPrecision value step \<longleftrightarrow> val step = 0 \<or> val step dvd val value"
  by (auto simp: validPrecision_def val_Mod big_Mod_zero_iff)

lemma default_tif_fields [simp]:
  "req_UserID (default_tif req) = req_UserID req" "req_Symbol (default_tif req) = req_Symbol req"
  "req_Side (default_tif req) = req_Side req" "req_Type (default_tif req) = req_Type req"
  "req_Price (default_tif req) = req_Price req" "req_StopPrice (default_tif req) = req_StopPrice req"
  "req_Quantity (default_tif req) = req_Quantity req" "priced (default_tif req) = priced req"
  "req_ClientOrderID (default_tif req) = req_ClientOrderID req"
  by (simp_all add: default_tif_def priced_def)

text \<open>What the order must cost at least, and in which currency.\<close>

definition cost_currency :: "PlaceOrderRequest \<Rightarrow> MarketConfig \<Rightarrow> Currency" where
  "cost_currency req market =
     (if req_Side req = SideBuy then mc_QuoteCurrency market else mc_BaseCurrency market)"

definition affordable :: "PlaceOrderRequest \<Rightarrow> MarketConfig \<Rightarrow> db \<Rightarrow> bool" where
  "affordable req market d \<longleftrightarrow>
     (let have_now = held d (req_UserID req, cost_currency req market) in
      if req_Side req = SideBuy then
        (if req_Type req = OrderTypeMarket then have_now \<noteq> 0
         else val (Mul (req_Price req) (req_Quantity req)) \<le> have_now)
      else val (req_Quantity req) \<le> have_now)"

lemma checkBalance_effect:
  assumes "checkBalance req market d = (r, d')"
  shows "(\<exists>fs. d' = d\<lparr>db_faults := fs\<rparr>) \<and> (r = None \<longrightarrow> affordable req market d)"
proof -
  obtain g d1 where g: "GetBalance (req_UserID req) (cost_currency req market) d = (g, d1)" by fastforce
  note eff = GetBalance_effect [OF g]
  show ?thesis
    using assms g eff(1) eff(2)
    by (cases g) (auto simp: checkBalance_def cost_currency_def affordable_def Let_def not_less
        split: if_splits)
qed

lemma check_terms_None:
  "check_terms req market = None \<longleftrightarrow>
     (priced req \<longrightarrow> req_TimeInForce req \<in> {TIF_GTC, TIF_IOC, TIF_FOK}) \<and>
     (priced req \<longrightarrow> val (mc_PriceTick market) = 0 \<or> val (mc_PriceTick market) dvd val (req_Price req)) \<and>
     (val (mc_QtyStep market) = 0 \<or> val (mc_QtyStep market) dvd val (req_Quantity req)) \<and>
     val (mc_MinOrderQty market) \<le> val (req_Quantity req) \<and>
     val (req_Quantity req) \<le> val (mc_MaxOrderQty market) \<and>
     (req_Type req = OrderTypeLimit \<and> val (req_Price req) \<noteq> 0 \<longrightarrow>
        val (mc_MinNotional market) \<le> val (Mul (req_Price req) (req_Quantity req)))"
  by (auto simp: check_terms_def validPrecision_iff not_less)

lemma Validate_cases:
  assumes "Validate v req0 d = Inr (None, req, d')"
  obtains market where "v_markets v (req_Symbol req0) = Some market" "mc_Status market = ''active''"
    "req_Side req0 = SideBuy \<or> req_Side req0 = SideSell" "validateOrderType req0 = None"
    "req = default_tif req0" "check_terms req market = None" "v_balances v"
    "checkBalance req market d = (None, d')"
    "\<And>allow. v_rateLimiter v = Some allow \<Longrightarrow> allow (req_UserID req) 20"
  using assms
  by (auto simp: Validate_def Let_def split: option.splits if_splits prod.splits)

subsection \<open>Properties\<close>

text \<open>C23. What a validated request satisfies: an active market, a valid side, type and (for limit and
  stop-limit orders) time in force, a stop price for stop orders, price and quantity on the tick and
  step grid, a quantity within the market's range, the minimal notional of a priced limit order, and
  funds in the currency it costs. Validation changes no table and only fills in the time in force.\<close>

theorem validated_request:
  assumes "Validate v req0 d = Inr (None, req, d')"
  shows "\<exists>market fs. v_markets v (req_Symbol req0) = Some market \<and> mc_Status market = ''active'' \<and>
    req = default_tif req0 \<and> d' = d\<lparr>db_faults := fs\<rparr> \<and>
    (req_Side req = SideBuy \<or> req_Side req = SideSell) \<and>
    req_Type req \<in> {OrderTypeMarket, OrderTypeLimit, OrderTypeStopLoss, OrderTypeStopLimit} \<and>
    (req_Type req \<in> {OrderTypeStopLoss, OrderTypeStopLimit} \<longrightarrow> val (req_StopPrice req) \<noteq> 0) \<and>
    (priced req \<longrightarrow> req_TimeInForce req \<in> {TIF_GTC, TIF_IOC, TIF_FOK} \<and>
      (val (mc_PriceTick market) = 0 \<or> val (mc_PriceTick market) dvd val (req_Price req))) \<and>
    (val (mc_QtyStep market) = 0 \<or> val (mc_QtyStep market) dvd val (req_Quantity req)) \<and>
    val (mc_MinOrderQty market) \<le> val (req_Quantity req) \<and>
    val (req_Quantity req) \<le> val (mc_MaxOrderQty market) \<and>
    (req_Type req = OrderTypeLimit \<and> val (req_Price req) \<noteq> 0 \<longrightarrow>
      val (mc_MinNotional market) \<le> val (Mul (req_Price req) (req_Quantity req))) \<and>
    affordable req market d"
proof (rule Validate_cases [OF assms])
  fix market
  assume r: "v_markets v (req_Symbol req0) = Some market" "mc_Status market = ''active''"
    "req_Side req0 = SideBuy \<or> req_Side req0 = SideSell" "validateOrderType req0 = None"
    "req = default_tif req0" "check_terms req market = None" "checkBalance req market d = (None, d')"
  obtain fs where fs: "d' = d\<lparr>db_faults := fs\<rparr>" "affordable req market d"
    using checkBalance_effect [OF r(7)] by auto
  have ty: "req_Type req \<in> {OrderTypeMarket, OrderTypeLimit, OrderTypeStopLoss, OrderTypeStopLimit}"
    "req_Type req \<in> {OrderTypeStopLoss, OrderTypeStopLimit} \<longrightarrow> val (req_StopPrice req) \<noteq> 0"
    using r(4,5) by (auto simp: validateOrderType_def split: if_splits)
  have tm: "priced req \<longrightarrow> req_TimeInForce req \<in> {TIF_GTC, TIF_IOC, TIF_FOK} \<and>
      (val (mc_PriceTick market) = 0 \<or> val (mc_PriceTick market) dvd val (req_Price req))"
    "val (mc_QtyStep market) = 0 \<or> val (mc_QtyStep market) dvd val (req_Quantity req)"
    "val (mc_MinOrderQty market) \<le> val (req_Quantity req)"
    "val (req_Quantity req) \<le> val (mc_MaxOrderQty market)"
    "req_Type req = OrderTypeLimit \<and> val (req_Price req) \<noteq> 0 \<longrightarrow>
      val (mc_MinNotional market) \<le> val (Mul (req_Price req) (req_Quantity req))"
    using r(6) unfolding check_terms_None by blast+
  have side: "req_Side req = SideBuy \<or> req_Side req = SideSell" using r(3,5) by simp
  show ?thesis
    using r(1,2,5) fs ty tm side by (intro exI [of _ market] exI [of _ fs] conjI) assumption+
qed

text \<open>The market of the gateway's configuration, and an account with 1000 USDT and 5 ETH.\<close>

definition default_market :: MarketConfig where
  "default_market =
     \<lparr>mc_Symbol = ''ETH-USDT'', mc_BaseCurrency = ''ETH'', mc_QuoteCurrency = ''USDT'',
      mc_PriceTick = decimalMust ''0.01'', mc_QtyStep = decimalMust ''0.0001'',
      mc_MinOrderQty = decimalMust ''0.001'', mc_MaxOrderQty = decimalMust ''100'',
      mc_MinNotional = decimalMust ''10'', mc_Status = ''active''\<rparr>"

definition default_validator :: Validator where
  "default_validator = NewValidator [default_market] True None"

definition sample_db :: db where
  "sample_db = (empty_db [''alice'', ''bob''])
     \<lparr>db_accounts := [(''alice'', ''USDT'') \<mapsto>
        \<lparr>ac_balance = 1000 * tenPow18, ac_frozen = 0, ac_version = 1\<rparr>,
      (''bob'', ''ETH'') \<mapsto> \<lparr>ac_balance = 5 * tenPow18, ac_frozen = 0, ac_version = 1\<rparr>]\<rparr>"

definition sample_request :: "string \<Rightarrow> Side \<Rightarrow> OrderType \<Rightarrow> int \<Rightarrow> int \<Rightarrow> PlaceOrderRequest" where
  "sample_request uid side ty p q =
     \<lparr>req_UserID = uid, req_Symbol = ''ETH-USDT'', req_Side = side, req_Type = ty,
      req_TimeInForce = '''', req_Price = NewFromInt64 p, req_StopPrice = One,
      req_Quantity = NewFromInt64 q, req_ClientOrderID = ''''\<rparr>"

lemma default_market_values:
  "default_market =
     \<lparr>mc_Symbol = ''ETH-USDT'', mc_BaseCurrency = ''ETH'', mc_QuoteCurrency = ''USDT'',
      mc_PriceTick = Decimal (Some 10000000000000000), mc_QtyStep = Decimal (Some 100000000000000),
      mc_MinOrderQty = Decimal (Some 1000000000000000), mc_MaxOrderQty = NewFromInt64 100,
      mc_MinNotional = NewFromInt64 10, mc_Status = ''active''\<rparr>"
proof -
  have t: "NewFromString ''0.01'' = Inr (Decimal (Some 10000000000000000))"
    "NewFromString ''0.0001'' = Inr (Decimal (Some 100000000000000))"
    "NewFromString ''0.001'' = Inr (Decimal (Some 1000000000000000))"
    using NewFromString_fraction [of "''0''" "''01''" False]
      NewFromString_fraction [of "''0''" "''0001''" False]
      NewFromString_fraction [of "''0''" "''001''" False]
    by (simp_all add: is_digit_def digit_val_def)
  have "NewFromString ''100'' = Inr (NewFromInt64 100)" "NewFromString ''10'' = Inr (NewFromInt64 10)"
    using NewFromString_integer [of "''100''" False] NewFromString_integer [of "''10''" False]
    by (simp_all add: is_digit_def digit_val_def NewFromInt64_def)
  with t show ?thesis by (simp add: default_market_def decimalMust_def)
qed

lemma sample_validate:
  "Validate default_validator (sample_request ''alice'' SideBuy OrderTypeLimit 100 2) sample_db =
     Inr (None, default_tif (sample_request ''alice'' SideBuy OrderTypeLimit 100 2), sample_db)"
proof -
  let ?r = "sample_request ''alice'' SideBuy OrderTypeLimit 100 2"
  have b: "checkBalance (default_tif ?r) default_market sample_db = (None, sample_db)"
    by (simp add: checkBalance_def sample_request_def default_market_values GetBalance_def stmt_def
        sample_db_def empty_db_def select_account_def NewFromString_numeric_text Let_def
        val_Mul default_tif_def priced_def)
  have t: "check_terms (default_tif ?r) default_market = None"
    by (auto simp: check_terms_None default_market_values sample_request_def val_Mul
        default_tif_def priced_def)
  have f: "v_markets default_validator (req_Symbol ?r) = Some default_market"
    "mc_Status default_market = ''active''" "req_Side ?r = SideBuy" "validateOrderType ?r = None"
    "v_balances default_validator" "v_rateLimiter default_validator = None"
    by (simp_all add: default_validator_def NewValidator_def default_market_values sample_request_def
        validateOrderType_def)
  show ?thesis by (simp add: Validate_def f t b)
qed

theorem validated_request_witness:
  "affordable (default_tif (sample_request ''alice'' SideBuy OrderTypeLimit 100 2)) default_market sample_db"
  using validated_request [OF sample_validate]
  by (auto simp: default_validator_def NewValidator_def default_market_values sample_request_def)

end
