(* ===== verification/Order_Repository.thy ===== *)
theory Order_Repository
  imports Order_Balances Order_Queue
begin

section \<open>Stored orders (order/repository.go)\<close>

text \<open>
  The \<open>orders\<close> table behind \<open>Repository\<close>. \<open>StoredOrder\<close> carries numbers as text;
  a row holds them as NUMERIC(36,18), so what is read back is the same number with 18 fraction
  digits. Times and the surrogate key are left out; rows are kept in the order of their insertion.
\<close>

record StoredOrder =
  so_OrderID :: string
  so_ClientOrderID :: string
  so_UserID :: string
  so_Symbol :: string
  so_Side :: string
  so_Type :: string
  so_TimeInForce :: string
  so_Price :: string
  so_StopPrice :: string
  so_Quantity :: string
  so_FilledQty :: string
  so_Status :: string

text \<open>
  PostgreSQL reads the text of a number; the service only sends what \<open>Decimal.String\<close> prints
  and the literal \<open>"0"\<close>, which \<open>NewFromString\<close> reads to the same number.
\<close>

definition numeric_in :: "string \<Rightarrow> error + int" where
  "numeric_in s =
     (case NewFromString s of
        Inl e \<Rightarrow> Inl (pg_error ''invalid input syntax for type numeric'')
      | Inr v \<Rightarrow> if numeric_ok (val v) then Inr (val v) else Inl (pg_error ''numeric field overflow''))"

definition order_row_of :: "StoredOrder \<Rightarrow> error + order_row" where
  "order_row_of o' =
     (case (numeric_in (so_Price o'), numeric_in (so_StopPrice o'), numeric_in (so_Quantity o'),
         numeric_in (so_FilledQty o')) of
        (Inr p, Inr sp, Inr q, Inr f) \<Rightarrow>
          if varchar_ok 50 (so_OrderID o') \<and> varchar_ok 50 (so_ClientOrderID o') \<and>
             varchar_ok 20 (so_Symbol o') \<and> varchar_ok 4 (so_Side o') \<and> varchar_ok 20 (so_Type o') \<and>
             varchar_ok 3 (so_TimeInForce o') \<and> varchar_ok 20 (so_Status o')
          then Inr \<lparr>r_order_id = so_OrderID o', r_client_order_id = so_ClientOrderID o',
            r_user_id = so_UserID o', r_symbol = so_Symbol o', r_side = so_Side o',
            r_type = so_Type o', r_time_in_force = so_TimeInForce o', r_price = p,
            r_stop_price = sp, r_quantity = q, r_filled_qty = f, r_status = so_Status o'\<rparr>
          else Inl (pg_error ''value too long'')
      | _ \<Rightarrow> Inl (pg_error ''numeric''))"

definition insert_order_stmt :: "StoredOrder \<Rightarrow> unit sql" where
  "insert_order_stmt o' d =
     (case order_row_of o' of
        Inl e \<Rightarrow> (Inl e, d)
      | Inr r \<Rightarrow>
          if so_UserID o' \<notin> set (db_users d) then (Inl (pg_error ''violates foreign key constraint''), d)
          else if so_OrderID o' \<in> r_order_id ` set (db_orders d) then
            (Inl (pg_error ''duplicate key value violates unique constraint''), d)
          else (Inr (), d\<lparr>db_orders := db_orders d @ [r]\<rparr>))"

definition Create :: "StoredOrder \<Rightarrow> unit sql" where
  "Create o' d =
     (case stmt (insert_order_stmt o') d of
        (Inl e, d') \<Rightarrow> (Inl (WrapBefore ''insert order: '' e), d')
      | (Inr _, d') \<Rightarrow> (Inr (), d'))"

definition update_status_stmt :: "string \<Rightarrow> OrderStatus \<Rightarrow> string \<Rightarrow> unit sql" where
  "update_status_stmt oid st filled d =
     (case numeric_in filled of
        Inl e \<Rightarrow> (Inl e, d)
      | Inr f \<Rightarrow>
          if varchar_ok 20 st then
            (Inr (), d\<lparr>db_orders := map (\<lambda>r. if r_order_id r = oid
               then r\<lparr>r_status := st, r_filled_qty := f\<rparr> else r) (db_orders d)\<rparr>)
          else (Inl (pg_error ''value too long''), d))"

definition UpdateStatus :: "string \<Rightarrow> OrderStatus \<Rightarrow> decimal \<Rightarrow> db \<Rightarrow> error option \<times> db" where
  "UpdateStatus oid st filled d =
     (case stmt (update_status_stmt oid st (String filled)) d of
        (Inl e, d') \<Rightarrow> (Some e, d')
      | (Inr _, d') \<Rightarrow> (None, d'))"

definition stored_of_row :: "order_row \<Rightarrow> StoredOrder" where
  "stored_of_row r =
     \<lparr>so_OrderID = r_order_id r, so_ClientOrderID = r_client_order_id r, so_UserID = r_user_id r,
      so_Symbol = r_symbol r, so_Side = r_side r, so_Type = r_type r,
      so_TimeInForce = r_time_in_force r, so_Price = numeric_text (r_price r),
      so_StopPrice = numeric_text (r_stop_price r), so_Quantity = numeric_text (r_quantity r),
      so_FilledQty = numeric_text (r_filled_qty r), so_Status = r_status r\<rparr>"

definition select_order_stmt :: "string \<Rightarrow> (order_row option) sql" where
  "select_order_stmt oid d = (Inr (find (\<lambda>r. r_order_id r = oid) (db_orders d)), d)"

definition GetByID :: "string \<Rightarrow> StoredOrder sql" where
  "GetByID oid d =
     (case stmt (select_order_stmt oid) d of
        (Inl e, d') \<Rightarrow> (Inl (WrapBefore ''get order: '' e), d')
      | (Inr None, d') \<Rightarrow> (Inl ErrOrderNotFound, d')
      | (Inr (Some r), d') \<Rightarrow> (Inr (stored_of_row r), d'))"

definition open_rows :: "string \<Rightarrow> string \<Rightarrow> order_row list \<Rightarrow> order_row list" where
  "open_rows uid symb rows =
     rev (filter (\<lambda>r. r_user_id r = uid \<and> (symb = '''' \<or> r_symbol r = symb) \<and>
       (r_status r = ''open'' \<or> r_status r = ''partially_filled'')) rows)"

definition GetOpenOrders :: "string \<Rightarrow> string \<Rightarrow> (StoredOrder list) sql" where
  "GetOpenOrders uid symb d =
     (case stmt (\<lambda>d. (Inr (open_rows uid symb (db_orders d)), d)) d of
        (Inl e, d') \<Rightarrow> (Inl (WrapBefore ''get open orders: '' e), d')
      | (Inr rows, d') \<Rightarrow> (Inr (map stored_of_row rows), d'))"

end
