(* ===== verification/Order_Lifecycle.thy ===== *)
theory Order_Lifecycle
  imports Common_Types
begin

section \<open>The lifecycle of an order (order/lifecycle.go)\<close>

text \<open>
  The table of status transitions and the two methods of \<open>StateMachine\<close>, with the facts that
  make the table a lifecycle: terminal statuses have no successor, nothing leads back to
  \<open>created\<close>, and what the table reaches is what the constants name.
\<close>

definition orderTransitions :: "OrderStatus \<Rightarrow> OrderStatus list option" where
  "orderTransitions s =
     (if s = OrderStatusCreated then
        Some [OrderStatusOpen, OrderStatusPartiallyFilled, OrderStatusRejected,
          OrderStatusCancelled, OrderStatusFilled]
      else if s = OrderStatusOpen then
        Some [OrderStatusPartiallyFilled, OrderStatusFilled, OrderStatusCancelled, OrderStatusExpired]
      else if s = OrderStatusPartiallyFilled then
        Some [OrderStatusPartiallyFilled, OrderStatusFilled, OrderStatusCancelled, OrderStatusExpired]
      else None)"

definition CanTransition :: "OrderStatus \<Rightarrow> OrderStatus \<Rightarrow> bool" where
  "CanTransition current nxt =
     (case orderTransitions current of None \<Rightarrow> False | Some allowed \<Rightarrow> list_ex (\<lambda>s. s = nxt) allowed)"

text \<open>The Go method returns the nil slice for a status that is not in the table.\<close>

definition ValidTransitions :: "OrderStatus \<Rightarrow> OrderStatus list" where
  "ValidTransitions current = (case orderTransitions current of None \<Rightarrow> [] | Some allowed \<Rightarrow> allowed)"

inductive status_path :: "OrderStatus \<Rightarrow> OrderStatus \<Rightarrow> bool" where
  here: "status_path s s"
| there: "CanTransition s t \<Longrightarrow> status_path t u \<Longrightarrow> status_path s u"

inductive_cases status_pathE: "status_path s u"

lemma CanTransition_iff: "CanTransition s t \<longleftrightarrow> t \<in> set (ValidTransitions s)"
  by (simp add: CanTransition_def ValidTransitions_def list_ex_iff split: option.split)

lemma final_no_transition: "IsFinal s \<Longrightarrow> \<not> CanTransition s t"
  by (auto simp: IsFinal_def CanTransition_def orderTransitions_def)

lemma created_not_reached: "\<not> CanTransition s OrderStatusCreated"
  by (simp add: CanTransition_def orderTransitions_def)

lemma final_path: "status_path s u \<Longrightarrow> IsFinal s \<Longrightarrow> u = s"
  by (induction rule: status_path.induct) (auto simp: final_no_transition)

definition known_statuses :: "OrderStatus list" where
  "known_statuses = [OrderStatusCreated, OrderStatusOpen, OrderStatusPartiallyFilled,
     OrderStatusFilled, OrderStatusCancelled, OrderStatusRejected, OrderStatusExpired]"

lemma transition_known: "CanTransition s t \<Longrightarrow> s \<in> set known_statuses \<and> t \<in> set known_statuses"
  by (auto simp: CanTransition_def orderTransitions_def known_statuses_def split: if_splits)

lemma path_known: "status_path s u \<Longrightarrow> s \<in> set known_statuses \<Longrightarrow> u \<in> set known_statuses"
  by (induction rule: status_path.induct) (auto dest: transition_known)

lemma live_reaches_final: "s \<in> set known_statuses \<Longrightarrow> IsFinal s \<or> CanTransition s OrderStatusCancelled"
  by (auto simp: known_statuses_def IsFinal_def CanTransition_def orderTransitions_def)

subsection \<open>Properties\<close>

text \<open>The table is a lifecycle: a terminal status is never left, \<open>created\<close> is never entered
  again, every path from \<open>created\<close> stays within the seven named statuses, and an order that is
  not in a terminal status can always be cancelled.\<close>

theorem lifecycle_terminal:
  assumes "status_path OrderStatusCreated s" "status_path s u"
  shows "(IsFinal s \<longrightarrow> u = s) \<and> s \<in> set known_statuses \<and>
    (IsFinal s \<longleftrightarrow> ValidTransitions s = []) \<and>
    (CanTransition s OrderStatusCancelled \<longleftrightarrow> \<not> IsFinal s) \<and> \<not> CanTransition s OrderStatusCreated"
proof -
  have k: "s \<in> set known_statuses"
    by (rule path_known [OF assms(1)]) (simp add: known_statuses_def)
  then have "IsFinal s \<longleftrightarrow> ValidTransitions s = []"
    by (auto simp: known_statuses_def IsFinal_def ValidTransitions_def orderTransitions_def)
  with k final_path [OF assms(2)] live_reaches_final [OF k] final_no_transition [of s] created_not_reached
  show ?thesis by blast
qed

theorem lifecycle_terminal_witness:
  "CanTransition OrderStatusPartiallyFilled OrderStatusCancelled \<and>
   \<not> CanTransition OrderStatusPartiallyFilled OrderStatusCreated"
proof -
  have "CanTransition OrderStatusCreated OrderStatusPartiallyFilled" "\<not> IsFinal OrderStatusPartiallyFilled"
    by code_simp+
  then have "status_path OrderStatusCreated OrderStatusPartiallyFilled"
    by (blast intro: status_path.intros)
  from lifecycle_terminal [OF this status_path.here] \<open>\<not> IsFinal OrderStatusPartiallyFilled\<close>
  show ?thesis by blast
qed

end
