(* ===== verification/Events.thy ===== *)
theory Events
  imports Common_Types
begin

section \<open>Domain events and the in-memory bus (internal/events)\<close>

text \<open>
  The event record and its payloads, JSON encoding and decoding at the level of objects (the
  list of their members), and \<open>MemoryEventBus\<close>. JSON text itself is not modelled:
  \<open>encoding/json\<close> writes and reads back the members of an object unchanged (for valid
  UTF-8 strings and integers), and what the services depend on is the naming of the members. A
  \<open>time.Time\<close> is written as the RFC 3339 text of the instant, here \<open>JTime\<close>.
  The Kafka and Redis buses are in theory \<open>Event_Transport\<close>.
\<close>

subsection \<open>JSON objects\<close>

datatype json = JStr string | JInt int | JBool bool | JTime int | JObj "(string \<times> json) list"

type_synonym json_object = "(string \<times> json) list"

text \<open>
  Decoding matches a member to a struct field by its name without regard to ASCII case; members
  that match no field are skipped and a field without a member keeps its zero value. A member of
  the wrong type is an error.
\<close>

definition to_lower :: "char \<Rightarrow> char" where
  "to_lower c = (if 65 \<le> byte c \<and> byte c \<le> 90 then char_of (byte c + 32) else c)"

definition ToLower :: "string \<Rightarrow> string" where
  "ToLower s = map to_lower s"

fun json_member :: "string \<Rightarrow> json_object \<Rightarrow> json option" where
  "json_member k [] = None"
| "json_member k ((k', v) # ms) =
     (case json_member k ms of
        Some w \<Rightarrow> Some w
      | None \<Rightarrow> if ToLower k' = ToLower k then Some v else None)"

definition json_string :: "string \<Rightarrow> json_object \<Rightarrow> error + string" where
  "json_string k ms =
     (case json_member k ms of
        None \<Rightarrow> Inr ''''
      | Some (JStr s) \<Rightarrow> Inr s
      | Some _ \<Rightarrow> Inl (Errorf (''json: cannot unmarshal into Go struct field '' @ k)))"

definition json_int :: "string \<Rightarrow> json_object \<Rightarrow> error + int" where
  "json_int k ms =
     (case json_member k ms of
        None \<Rightarrow> Inr 0
      | Some (JInt i) \<Rightarrow> Inr i
      | Some _ \<Rightarrow> Inl (Errorf (''json: cannot unmarshal into Go struct field '' @ k)))"

text \<open>A member with \<open>omitempty\<close> is left out when it is the empty string.\<close>

definition omit_empty :: "string \<Rightarrow> string \<Rightarrow> json_object" where
  "omit_empty k s = (if s = '''' then [] else [(k, JStr s)])"

subsection \<open>Event types and payloads\<close>

type_synonym EventType = string

abbreviation EventOrderPlaced :: EventType where "EventOrderPlaced \<equiv> ''order.placed''"

abbreviation EventOrderMatched :: EventType where "EventOrderMatched \<equiv> ''order.matched''"

abbreviation EventOrderCancelled :: EventType where "EventOrderCancelled \<equiv> ''order.cancelled''"

abbreviation EventTradeExecuted :: EventType where "EventTradeExecuted \<equiv> ''trade.executed''"

abbreviation EventBalanceChanged :: EventType where "EventBalanceChanged \<equiv> ''balance.changed''"

abbreviation EventDepositDetected :: EventType where "EventDepositDetected \<equiv> ''deposit.detected''"

abbreviation EventDepositConfirmed :: EventType where
  "EventDepositConfirmed \<equiv> ''deposit.confirmed''"

record Event =
  e_ID :: string
  e_Type :: EventType
  e_Payload :: json_object
  e_Timestamp :: int
  e_Version :: int

definition SetPayload :: "json_object \<Rightarrow> Event \<Rightarrow> Event" where
  "SetPayload p e = e\<lparr>e_Payload := p\<rparr>"

record OrderPlacedPayload =
  opp_OrderID :: string
  opp_UserID :: string
  opp_Symbol :: string
  opp_Side :: string
  opp_Type :: string
  opp_Price :: string
  opp_StopPrice :: string
  opp_Quantity :: string
  opp_FilledQty :: string
  opp_TimeInForce :: string
  opp_Status :: string

definition marshal_OrderPlaced :: "OrderPlacedPayload \<Rightarrow> json_object" where
  "marshal_OrderPlaced p =
     [(''order_id'', JStr (opp_OrderID p)), (''user_id'', JStr (opp_UserID p)),
      (''symbol'', JStr (opp_Symbol p)), (''side'', JStr (opp_Side p)),
      (''type'', JStr (opp_Type p)), (''price'', JStr (opp_Price p))] @
     omit_empty ''stop_price'' (opp_StopPrice p) @
     [(''quantity'', JStr (opp_Quantity p)), (''filled_qty'', JStr (opp_FilledQty p)),
      (''time_in_force'', JStr (opp_TimeInForce p)), (''status'', JStr (opp_Status p))]"

record OrderMatchedPayload =
  omp_OrderID :: string
  omp_UserID :: string
  omp_Symbol :: string
  omp_Side :: string
  omp_Status :: string

definition marshal_OrderMatched :: "OrderMatchedPayload \<Rightarrow> json_object" where
  "marshal_OrderMatched p =
     [(''order_id'', JStr (omp_OrderID p)), (''user_id'', JStr (omp_UserID p)),
      (''symbol'', JStr (omp_Symbol p)), (''side'', JStr (omp_Side p)),
      (''status'', JStr (omp_Status p))]"

record OrderCancelledPayload =
  ocp_OrderID :: string
  ocp_UserID :: string
  ocp_Symbol :: string
  ocp_Reason :: string

definition marshal_OrderCancelled :: "OrderCancelledPayload \<Rightarrow> json_object" where
  "marshal_OrderCancelled p =
     [(''order_id'', JStr (ocp_OrderID p)), (''user_id'', JStr (ocp_UserID p)),
      (''symbol'', JStr (ocp_Symbol p))] @ omit_empty ''reason'' (ocp_Reason p)"

record TradeExecutedPayload =
  tep_TradeID :: string
  tep_TakerOrderID :: string
  tep_MakerOrderID :: string
  tep_TakerUserID :: string
  tep_MakerUserID :: string
  tep_Symbol :: string
  tep_Price :: string
  tep_Quantity :: string
  tep_QuoteQty :: string
  tep_TakerSide :: string
  tep_Timestamp :: int

definition marshal_TradeExecuted :: "TradeExecutedPayload \<Rightarrow> json_object" where
  "marshal_TradeExecuted p =
     [(''trade_id'', JStr (tep_TradeID p)), (''taker_order_id'', JStr (tep_TakerOrderID p)),
      (''maker_order_id'', JStr (tep_MakerOrderID p)),
      (''taker_user_id'', JStr (tep_TakerUserID p)),
      (''maker_user_id'', JStr (tep_MakerUserID p)), (''symbol'', JStr (tep_Symbol p)),
      (''price'', JStr (tep_Price p)), (''quantity'', JStr (tep_Quantity p)),
      (''quote_qty'', JStr (tep_QuoteQty p)), (''taker_side'', JStr (tep_TakerSide p)),
      (''timestamp'', JInt (tep_Timestamp p))]"

text \<open>The sequencing of field decodings: the first error is reported.\<close>

definition bind_sum :: "error + 'a \<Rightarrow> ('a \<Rightarrow> error + 'b) \<Rightarrow> error + 'b" where
  "bind_sum r f = (case r of Inl e \<Rightarrow> Inl e | Inr x \<Rightarrow> f x)"

lemma bind_sum_simps [simp]: "bind_sum (Inl e) f = Inl e" "bind_sum (Inr x) f = f x"
  by (simp_all add: bind_sum_def)

definition unmarshal_TradeExecuted :: "json_object \<Rightarrow> error + TradeExecutedPayload" where
  "unmarshal_TradeExecuted ms =
     bind_sum (json_string ''trade_id'' ms) (\<lambda>tid.
     bind_sum (json_string ''taker_order_id'' ms) (\<lambda>toid.
     bind_sum (json_string ''maker_order_id'' ms) (\<lambda>moid.
     bind_sum (json_string ''taker_user_id'' ms) (\<lambda>tuid.
     bind_sum (json_string ''maker_user_id'' ms) (\<lambda>muid.
     bind_sum (json_string ''symbol'' ms) (\<lambda>sy.
     bind_sum (json_string ''price'' ms) (\<lambda>pr.
     bind_sum (json_string ''quantity'' ms) (\<lambda>qt.
     bind_sum (json_string ''quote_qty'' ms) (\<lambda>qq.
     bind_sum (json_string ''taker_side'' ms) (\<lambda>sd.
     bind_sum (json_int ''timestamp'' ms) (\<lambda>ts.
     Inr \<lparr>tep_TradeID = tid, tep_TakerOrderID = toid, tep_MakerOrderID = moid,
       tep_TakerUserID = tuid, tep_MakerUserID = muid, tep_Symbol = sy, tep_Price = pr,
       tep_Quantity = qt, tep_QuoteQty = qq, tep_TakerSide = sd, tep_Timestamp = ts\<rparr>)))))))))))"

record BalanceChangedPayload =
  bcp_UserID :: string
  bcp_Currency :: string
  bcp_Amount :: string
  bcp_NewBalance :: string
  bcp_Reason :: string
  bcp_Reference :: string

definition marshal_BalanceChanged :: "BalanceChangedPayload \<Rightarrow> json_object" where
  "marshal_BalanceChanged p =
     [(''user_id'', JStr (bcp_UserID p)), (''currency'', JStr (bcp_Currency p)),
      (''amount'', JStr (bcp_Amount p)), (''new_balance'', JStr (bcp_NewBalance p)),
      (''reason'', JStr (bcp_Reason p))] @ omit_empty ''reference'' (bcp_Reference p)"

record DepositDetectedPayload =
  ddp_TxHash :: string
  ddp_Currency :: string
  ddp_Chain :: string
  ddp_FromAddress :: string
  ddp_ToAddress :: string
  ddp_Amount :: string
  ddp_BlockNumber :: int
  ddp_Confirmations :: int
  ddp_RequiredConfirmations :: int
  ddp_UserID :: string

definition marshal_DepositDetected :: "DepositDetectedPayload \<Rightarrow> json_object" where
  "marshal_DepositDetected p =
     [(''tx_hash'', JStr (ddp_TxHash p)), (''currency'', JStr (ddp_Currency p)),
      (''chain'', JStr (ddp_Chain p)), (''from_address'', JStr (ddp_FromAddress p)),
      (''to_address'', JStr (ddp_ToAddress p)), (''amount'', JStr (ddp_Amount p)),
      (''block_number'', JInt (ddp_BlockNumber p)),
      (''confirmations'', JInt (ddp_Confirmations p)),
      (''required_confirmations'', JInt (ddp_RequiredConfirmations p)),
      (''user_id'', JStr (ddp_UserID p))]"

lemma unmarshal_marshal_TradeExecuted:
  "unmarshal_TradeExecuted (marshal_TradeExecuted p) = Inr p"
  by (simp add: unmarshal_TradeExecuted_def marshal_TradeExecuted_def json_string_def json_int_def
      ToLower_def to_lower_def)

subsection \<open>MemoryEventBus\<close>

text \<open>
  Handlers act on the state \<open>'s\<close> of the process and may fail; \<open>Publish\<close> hands every
  event to every handler of the topic in subscription order, logs the failures and returns nil.
\<close>

type_synonym 's EventHandler = "Event \<Rightarrow> 's \<Rightarrow> error option \<times> 's"

record 's handlerEntry =
  he_handler :: "'s EventHandler"
  he_group :: string

record 's MemoryEventBus =
  bus_handlers :: "string \<Rightarrow> 's handlerEntry list"

definition NewMemoryEventBus :: "'s MemoryEventBus" where
  "NewMemoryEventBus = \<lparr>bus_handlers = (\<lambda>_. [])\<rparr>"

fun deliver :: "'s handlerEntry list \<Rightarrow> Event \<Rightarrow> 's \<Rightarrow> 's" where
  "deliver [] e s = s"
| "deliver (h # hs) e s = deliver hs e (snd (he_handler h e s))"

fun publish_all :: "'s handlerEntry list \<Rightarrow> Event list \<Rightarrow> 's \<Rightarrow> 's" where
  "publish_all hs [] s = s"
| "publish_all hs (e # es) s = publish_all hs es (deliver hs e s)"

definition Publish ::
  "'s MemoryEventBus \<Rightarrow> string \<Rightarrow> Event list \<Rightarrow> 's \<Rightarrow> error option \<times> 's" where
  "Publish b topic es s = (None, publish_all (bus_handlers b topic) es s)"

definition Subscribe ::
  "'s MemoryEventBus \<Rightarrow> string \<Rightarrow> string \<Rightarrow> 's EventHandler \<Rightarrow> error option \<times> 's MemoryEventBus" where
  "Subscribe b topic grp h =
     (None, b\<lparr>bus_handlers := (bus_handlers b)
        (topic := bus_handlers b topic @ [\<lparr>he_handler = h, he_group = grp\<rparr>])\<rparr>)"

definition CloseBus :: "'s MemoryEventBus \<Rightarrow> error option \<times> 's MemoryEventBus" where
  "CloseBus b = (None, b\<lparr>bus_handlers := (\<lambda>_. [])\<rparr>)"

lemma deliver_append: "deliver (hs @ hs') e s = deliver hs' e (deliver hs e s)"
  by (induction hs arbitrary: s) auto

lemma publish_all_append: "publish_all hs (es @ es') s = publish_all hs es' (publish_all hs es s)"
  by (induction es arbitrary: s) auto

end
