(* ===== verification/Engine.thy ===== *)
theory Engine
  imports Matching_Facts Events
begin

section \<open>One shard of the matching engine (matching/engine.go)\<close>

text \<open>
  \<open>processOrder\<close> handles one message of a shard's channel. Its effects on the outside, the
  answer on the caller's result channel and the events on the bus, are returned as a list in the
  order in which the code performs them. \<open>bus\<close> tells whether the engine has an event bus;
  event identifiers and times are added by the publisher and not part of an effect.
\<close>

record shardResult =
  sr_matches :: "MatchResult list"
  sr_remaining :: "Order option"
  sr_cancelled :: "Order option"
  sr_err :: "error option"

definition empty_result :: shardResult where
  "empty_result = \<lparr>sr_matches = [], sr_remaining = None, sr_cancelled = None, sr_err = None\<rparr>"

datatype effect = Reply shardResult | Emit string EventType json_object

subsection \<open>Event emission\<close>

definition emitOrderPlaced :: "bool \<Rightarrow> Order \<Rightarrow> effect list" where
  "emitOrderPlaced bus ord =
     (if \<not> bus then []
      else [Emit ''order.placed'' EventOrderPlaced (marshal_OrderPlaced
        \<lparr>opp_OrderID = o_OrderID ord, opp_UserID = o_UserID ord, opp_Symbol = o_Symbol ord,
         opp_Side = o_Side ord, opp_Type = o_Type ord, opp_Price = String (o_Price ord),
         opp_StopPrice = '''', opp_Quantity = String (o_Quantity ord),
         opp_FilledQty = String (o_FilledQty ord), opp_TimeInForce = o_TimeInForce ord,
         opp_Status = o_Status ord\<rparr>)])"

definition trade_payload :: "MatchResult \<Rightarrow> TradeExecutedPayload" where
  "trade_payload m =
     \<lparr>tep_TradeID = '''', tep_TakerOrderID = m_TakerOrderID m,
      tep_MakerOrderID = m_MakerOrderID m, tep_TakerUserID = m_TakerUserID m,
      tep_MakerUserID = m_MakerUserID m, tep_Symbol = m_Symbol m,
      tep_Price = String (m_Price m), tep_Quantity = String (m_Quantity m),
      tep_QuoteQty = String (m_QuoteQty m), tep_TakerSide = m_TakerSide m,
      tep_Timestamp = m_Timestamp m\<rparr>"

definition emitTradeExecuted :: "bool \<Rightarrow> MatchResult \<Rightarrow> effect list" where
  "emitTradeExecuted bus m =
     (if \<not> bus then []
      else [Emit ''trade.executed'' EventTradeExecuted (marshal_TradeExecuted (trade_payload m))])"

definition matched_payload :: "Order \<Rightarrow> string \<Rightarrow> json_object" where
  "matched_payload ord st = marshal_OrderMatched
     \<lparr>omp_OrderID = o_OrderID ord, omp_UserID = o_UserID ord, omp_Symbol = o_Symbol ord,
      omp_Side = o_Side ord, omp_Status = st\<rparr>"

definition emitOrderFilled :: "bool \<Rightarrow> Order \<Rightarrow> effect list" where
  "emitOrderFilled bus ord =
     (if \<not> bus then []
      else [Emit ''order.matched'' EventOrderMatched (matched_payload ord ''filled'')])"

definition emitOrderPartiallyFilled :: "bool \<Rightarrow> Order \<Rightarrow> effect list" where
  "emitOrderPartiallyFilled bus ord =
     (if \<not> bus then []
      else [Emit ''order.matched'' EventOrderMatched (matched_payload ord ''partially_filled'')])"

definition emitOrderCancelled :: "bool \<Rightarrow> Order \<Rightarrow> effect list" where
  "emitOrderCancelled bus ord =
     (if \<not> bus then []
      else [Emit ''order.cancelled'' EventOrderCancelled (marshal_OrderCancelled
        \<lparr>ocp_OrderID = o_OrderID ord, ocp_UserID = o_UserID ord, ocp_Symbol = o_Symbol ord,
         ocp_Reason = ''''\<rparr>)])"

definition emitOrderRejected :: "bool \<Rightarrow> Order \<Rightarrow> effect list" where
  "emitOrderRejected bus ord =
     (if \<not> bus then []
      else [Emit ''order.placed'' EventOrderPlaced (marshal_OrderPlaced
        \<lparr>opp_OrderID = o_OrderID ord, opp_UserID = o_UserID ord, opp_Symbol = o_Symbol ord,
         opp_Side = '''', opp_Type = '''', opp_Price = '''', opp_StopPrice = '''',
         opp_Quantity = '''', opp_FilledQty = '''', opp_TimeInForce = '''',
         opp_Status = ''rejected''\<rparr>)])"

subsection \<open>processOrder\<close>

definition reject_order :: "bool \<Rightarrow> OrderBook \<Rightarrow> Order \<Rightarrow> OrderBook \<times> effect list" where
  "reject_order bus ob ord =
     (let r = ord\<lparr>o_Status := OrderStatusRejected\<rparr>
      in (ob, Reply (empty_result\<lparr>sr_remaining := Some r\<rparr>) # emitOrderRejected bus r))"

definition no_liquidity :: "OrderBook \<Rightarrow> Order \<Rightarrow> bool" where
  "no_liquidity ob ord \<longleftrightarrow> o_Type ord = OrderTypeMarket \<and>
     (o_Side ord = SideBuy \<and> IsZero (BestAsk ob) \<or> o_Side ord = SideSell \<and> IsZero (BestBid ob))"

text \<open>Whether \<open>processOrder\<close> puts the order that \<open>MatchOrder\<close> handed back on the book.\<close>

definition rests :: "Order option \<Rightarrow> bool" where
  "rests remaining = (case remaining of None \<Rightarrow> False
     | Some r \<Rightarrow> o_Status r \<noteq> OrderStatusFilled \<and> o_Status r \<noteq> OrderStatusCancelled \<and>
         o_Status r \<noteq> OrderStatusRejected)"

definition processOrder ::
  "bool \<Rightarrow> (nat \<Rightarrow> int) \<Rightarrow> OrderBook \<Rightarrow> Order \<Rightarrow> panic + OrderBook \<times> effect list" where
  "processOrder bus clk ob ord0 =
     (if o_Side ord0 = ''cancel'' then
        (case CancelOrder ob (o_OrderID ord0) of
           (ob', cancelled) \<Rightarrow>
             Inr (ob', Reply (empty_result\<lparr>sr_cancelled := cancelled\<rparr>) #
               (case cancelled of None \<Rightarrow> [] | Some c \<Rightarrow> emitOrderCancelled bus c)))
      else if o_TimeInForce ord0 = TIF_FOK \<and> \<not> CanFillFOK ob ord0 then
        Inr (reject_order bus ob ord0)
      else if no_liquidity ob ord0 then Inr (reject_order bus ob ord0)
      else
        (case MatchOrder clk ob ord0 of
           Inl p \<Rightarrow> Inl p
         | Inr (ob', ord, matches, remaining) \<Rightarrow>
             (let trades = concat (map (emitTradeExecuted bus) matches);
                  filled = (case remaining of None \<Rightarrow> True
                    | Some r \<Rightarrow> o_Status r = OrderStatusFilled);
                  status = (if length matches > 0 then
                      (if filled then emitOrderFilled bus ord
                       else emitOrderPartiallyFilled bus ord)
                    else [])
              in case remaining of
                   Some r \<Rightarrow>
                     if rests remaining then
                       (case addToBook ob' r of
                          (ob'', r') \<Rightarrow>
                            Inr (ob'', trades @ status @ emitOrderPlaced bus r' @
                              [Reply (empty_result\<lparr>sr_matches := matches, sr_remaining := Some r'\<rparr>)]))
                     else
                       Inr (ob', trades @ status @
                         [Reply (empty_result\<lparr>sr_matches := matches, sr_remaining := Some r\<rparr>)])
                 | None \<Rightarrow>
                     Inr (ob', trades @ status @
                       [Reply (empty_result\<lparr>sr_matches := matches\<rparr>)]))))"

text \<open>The answers among the effects.\<close>

fun replies :: "effect list \<Rightarrow> shardResult list" where
  "replies [] = []"
| "replies (Reply r # es) = r # replies es"
| "replies (Emit t ty p # es) = replies es"

lemma replies_append [simp]: "replies (xs @ ys) = replies xs @ replies ys"
  by (induction xs rule: replies.induct) auto

lemma replies_emit [simp]:
  "replies (emitOrderPlaced bus ord) = []" "replies (emitTradeExecuted bus m) = []"
  "replies (emitOrderFilled bus ord) = []" "replies (emitOrderPartiallyFilled bus ord) = []"
  "replies (emitOrderCancelled bus ord) = []" "replies (emitOrderRejected bus ord) = []"
  "replies (concat (map (emitTradeExecuted bus) ms)) = []"
  by (simp_all add: emitOrderPlaced_def emitTradeExecuted_def emitOrderFilled_def
      emitOrderPartiallyFilled_def emitOrderCancelled_def emitOrderRejected_def)
    (induction ms, auto simp: emitTradeExecuted_def)

text \<open>Every message gets exactly one answer.\<close>

lemma processOrder_one_reply:
  "processOrder bus clk ob ord = Inr (ob', es) \<Longrightarrow> \<exists>r. replies es = [r]"
  by (auto simp: processOrder_def reject_order_def Let_def
      split: if_splits prod.splits option.splits sum.splits)

subsection \<open>The book under processOrder\<close>

text \<open>
  A message the order service sends: a new order on a valid side with a quantity left, whose
  identifier is not in the book, or a cancellation.
\<close>

definition admissible :: "OrderBook \<Rightarrow> Order \<Rightarrow> bool" where
  "admissible ob ord \<longleftrightarrow> o_Side ord = ''cancel'' \<or>
     valid_side ord \<and> 0 < rem ord \<and> o_OrderID ord \<notin> o_OrderID ` set (resting ob)"

lemma match_raw_ids:
  assumes "match_list ahead ts symb clk n ord mks = (ord', mks', tr)"
  shows "o_OrderID ` set mks' \<subseteq> o_OrderID ` set mks"
proof -
  obtain ids where "map o_OrderID mks = ids @ map o_OrderID mks'"
    using match_list_ids [OF assms] by blast
  then have "set (map o_OrderID mks') \<subseteq> set (map o_OrderID mks)" by simp
  then show ?thesis by simp
qed

lemma resting_ids_after_match:
  assumes ok: "book_ok ob" and side: "valid_side ord"
    and m: "match_raw clk ob ord = Inr (ob', ord', tr)"
  shows "o_OrderID ` set (resting ob') \<subseteq> o_OrderID ` set (resting ob)"
proof -
  obtain ob2 ord2 tr2 where r: "match_raw clk ob ord = Inr (ob2, ord2, tr2)"
    "match_list (facing ord) (o_Side ord) (ob_symbol ob) clk 0 ord (makers ob ord)
       = (ord2, makers ob2 ord, tr2)"
    "(if o_Side ord = SideBuy then ob_bids ob2 = ob_bids ob else ob_asks ob2 = ob_asks ob)"
    using match_raw_ok [OF ok side] by blast
  with m match_raw_ids [OF r(2)] show ?thesis
    by (auto simp: resting_def makers_def split: if_splits)
qed

lemma processOrder_cases:
  assumes ok: "book_ok ob" and adm: "admissible ob ord"
  obtains (cancel) "o_Side ord = ''cancel''"
      "processOrder bus clk ob ord = Inr (fst (CancelOrder ob (o_OrderID ord)),
         Reply (empty_result\<lparr>sr_cancelled := snd (CancelOrder ob (o_OrderID ord))\<rparr>) #
         (case snd (CancelOrder ob (o_OrderID ord)) of None \<Rightarrow> [] | Some c \<Rightarrow> emitOrderCancelled bus c))"
  | (reject) "valid_side ord" "processOrder bus clk ob ord = Inr (reject_order bus ob ord)"
      "(o_TimeInForce ord = TIF_FOK \<and> \<not> CanFillFOK ob ord) \<or> no_liquidity ob ord"
  | (matched) ob1 ord1 tr where "valid_side ord"
      "\<not> (o_TimeInForce ord = TIF_FOK \<and> \<not> CanFillFOK ob ord)" "\<not> no_liquidity ob ord"
      "match_raw clk ob ord = Inr (ob1, ord1, tr)" "book_ok ob1"
proof (cases "o_Side ord = ''cancel''")
  case True
  then show thesis using cancel by (simp add: processOrder_def split: prod.splits)
next
  case False
  with adm have v: "valid_side ord" by (simp add: admissible_def)
  show thesis
  proof (cases "(o_TimeInForce ord = TIF_FOK \<and> \<not> CanFillFOK ob ord) \<or> no_liquidity ob ord")
    case True
    with False v show thesis by (intro reject) (auto simp: processOrder_def)
  next
    case nr: False
    show thesis
      by (rule match_raw_ok [OF ok v, of clk]) (use nr v matched in blast)
  qed
qed

text \<open>
  The invariant of a shard: its book stays well formed and uncrossed, and the processing of a
  message never panics.
\<close>

lemma processOrder_invariant:
  assumes ok: "book_ok ob" and unc: "uncrossed ob" and adm: "admissible ob ord"
  shows "\<exists>ob' es. processOrder bus clk ob ord = Inr (ob', es) \<and> book_ok ob' \<and> uncrossed ob' \<and>
    o_OrderID ` set (resting ob') \<subseteq> insert (o_OrderID ord) (o_OrderID ` set (resting ob))"
proof (cases rule: processOrder_cases [OF ok adm, of bus clk])
  case 1
  show ?thesis
  proof (cases "find_order (o_OrderID ord) (resting ob)")
    case None
    then have "CancelOrder ob (o_OrderID ord) = (ob, None)"
      by (simp add: CancelOrder_absent find_order_None_iff)
    with 1 ok unc show ?thesis by auto
  next
    case (Some c)
    with CancelOrder_present [OF ok Some] 1 unc set_drop_order [of "o_OrderID ord" "resting ob"]
    show ?thesis by auto
  qed
next
  case 2
  with ok unc show ?thesis by (auto simp: reject_order_def Let_def)
next
  case (3 ob1 ord1 tr)
  have nc: "o_Side ord \<noteq> ''cancel''" using 3(1) by (auto simp: valid_side_def)
  obtain ml: "match_list (facing ord) (o_Side ord) (ob_symbol ob) clk 0 ord (makers ob ord)
       = (ord1, makers ob1 ord, tr)" and u1: "uncrossed ob1"
    using match_raw_ok [OF ok 3(1), of clk] 3(4) unc by (metis Inr_inject Pair_inject)
  have tk: "ord1 = ord\<lparr>o_FilledQty := o_FilledQty ord1\<rparr>" using match_list_taker [OF ml] .
  have same: "o_OrderID ord1 = o_OrderID ord" "o_Side ord1 = o_Side ord" by (subst tk, simp)+
  have v1: "valid_side ord1" using 3(1) same by (simp add: valid_side_def)
  have ids: "o_OrderID ` set (resting ob1) \<subseteq> o_OrderID ` set (resting ob)"
    by (rule resting_ids_after_match [OF ok 3(1,4)])
  have fresh: "o_OrderID ord1 \<notin> o_OrderID ` set (resting ob1)"
    using adm nc ids same by (auto simp: admissible_def)
  have rest: "book_ok (fst (addToBook ob1 ord1)) \<and> uncrossed (fst (addToBook ob1 ord1)) \<and>
      (\<forall>x \<in> set (resting (fst (addToBook ob1 ord1))).
        o_OrderID x = o_OrderID ord \<or> o_OrderID x \<in> o_OrderID ` set (resting ob))" if "0 < rem ord1"
    using book_ok_addToBook [OF 3(5) v1 that fresh]
      match_then_rest_uncrossed [OF ok 3(1) unc 3(4) that] ids same by auto
  show ?thesis
    using 3 nc ids rest 3(5) u1
    by (auto simp: processOrder_def MatchOrder_raw rests_def Let_def split: prod.splits)
qed

subsection \<open>Properties\<close>

text \<open>C7. The shard invariant: whatever message comes (a cancellation, or a new order on a valid
  side with a fresh identifier), \<open>processOrder\<close> does not panic, and the book stays well formed and
  uncrossed; nothing but the message's own order can be new in it.\<close>

theorem shard_invariant:
  assumes "book_ok ob" "uncrossed ob" "admissible ob ord"
  shows "\<exists>ob' es. processOrder bus clk ob ord = Inr (ob', es) \<and> book_ok ob' \<and> uncrossed ob' \<and>
    o_OrderID ` set (resting ob') \<subseteq> insert (o_OrderID ord) (o_OrderID ` set (resting ob)) \<and>
    (\<exists>r. replies es = [r])"
  using processOrder_invariant [OF assms, of bus clk] processOrder_one_reply by metis

theorem shard_invariant_witness:
  "\<exists>ob' es. processOrder True (\<lambda>_. 0) sample_book (sample_order ''t'' SideBuy 101 6) = Inr (ob', es) \<and>
     book_ok ob' \<and> uncrossed ob'"
proof -
  have "book_ok sample_book" "uncrossed sample_book"
    "admissible sample_book (sample_order ''t'' SideBuy 101 6)" by code_simp+
  from shard_invariant [OF this] show ?thesis by blast
qed

text \<open>The reply and the trade events of a matched order.\<close>

fun trade_events :: "effect list \<Rightarrow> json_object list" where
  "trade_events [] = []"
| "trade_events (Reply r # es) = trade_events es"
| "trade_events (Emit t ty p # es) =
     (if t = ''trade.executed'' then p # trade_events es else trade_events es)"

lemma trade_events_append [simp]: "trade_events (xs @ ys) = trade_events xs @ trade_events ys"
  by (induction xs rule: trade_events.induct) auto

lemma trade_events_emit [simp]:
  "trade_events (emitOrderPlaced bus ord) = []" "trade_events (emitOrderFilled bus ord) = []"
  "trade_events (emitOrderPartiallyFilled bus ord) = []"
  "trade_events (emitOrderCancelled bus ord) = []" "trade_events (emitOrderRejected bus ord) = []"
  by (simp_all add: emitOrderPlaced_def emitOrderFilled_def emitOrderPartiallyFilled_def
      emitOrderCancelled_def emitOrderRejected_def)

lemma trade_events_trades [simp]:
  "trade_events (concat (map (emitTradeExecuted bus) ms)) =
     (if bus then map (marshal_TradeExecuted \<circ> trade_payload) ms else [])"
  by (induction ms) (auto simp: emitTradeExecuted_def)

text \<open>The trades a caller is told about are the trades that are published: with an event bus,
  the payloads of the \<open>trade.executed\<close> events of a message are those of the matches in its reply,
  in the same order; without one, nothing is published.\<close>

theorem reported_trades_are_published:
  assumes "processOrder bus clk ob ord = Inr (ob', es)"
  shows "\<exists>r. replies es = [r] \<and>
    trade_events es = (if bus then map (marshal_TradeExecuted \<circ> trade_payload) (sr_matches r) else [])"
  using assms
  by (auto simp: processOrder_def reject_order_def Let_def empty_result_def
      split: if_splits prod.splits option.splits sum.splits)

theorem reported_trades_are_published_witness:
  "\<exists>r. replies (snd (projr (processOrder True (\<lambda>_. 0) sample_book (sample_order ''t'' SideBuy 101 6)))) = [r] \<and>
     trade_events (snd (projr (processOrder True (\<lambda>_. 0) sample_book (sample_order ''t'' SideBuy 101 6)))) =
       map (marshal_TradeExecuted \<circ> trade_payload) (sr_matches r)"
proof -
  have "isl (processOrder True (\<lambda>_. 0) sample_book (sample_order ''t'' SideBuy 101 6)) = False" by code_simp
  then obtain ob' es where "processOrder True (\<lambda>_. 0) sample_book (sample_order ''t'' SideBuy 101 6) = Inr (ob', es)"
    by (cases "processOrder True (\<lambda>_. 0) sample_book (sample_order ''t'' SideBuy 101 6)") auto
  with reported_trades_are_published [OF this] show ?thesis by simp
qed

text \<open>The outcome of an order that passed the checks, by what was available to it.\<close>

lemma processOrder_matched:
  assumes ok: "book_ok ob" and side: "valid_side ord" and pos: "0 < rem ord"
    and pass: "\<not> (o_TimeInForce ord = TIF_FOK \<and> \<not> CanFillFOK ob ord)" "\<not> no_liquidity ob ord"
  obtains ob1 ord1 tr where "match_raw clk ob ord = Inr (ob1, ord1, tr)" "book_ok ob1"
    "ord1 = ord\<lparr>o_FilledQty := o_FilledQty ord1\<rparr>"
    "rem ord1 = max 0 (rem ord - available ob ord)" "traded tr = rem ord - rem ord1"
    "o_OrderID ` set (resting ob1) \<subseteq> o_OrderID ` set (resting ob)"
proof -
  obtain ob1 ord1 tr where r: "match_raw clk ob ord = Inr (ob1, ord1, tr)"
    "match_list (facing ord) (o_Side ord) (ob_symbol ob) clk 0 ord (makers ob ord)
       = (ord1, makers ob1 ord, tr)" "book_ok ob1"
    using match_raw_ok [OF ok side] by blast
  show thesis
    by (rule that [OF r(1,3) match_list_taker [OF r(2)]])
      (use match_raw_fill [OF ok side _ r(1)] pos match_list_conserves [OF r(2)]
        resting_ids_after_match [OF ok side r(1)] in auto)
qed

text \<open>C8. A fill-or-kill order is all or nothing: either its whole quantity is traded, nothing of it
  is handed back and it does not rest, or the book is left exactly as it was, no trade is
  published and the reply carries the order marked rejected.\<close>

theorem fok_all_or_nothing:
  assumes "book_ok ob" "admissible ob ord" "valid_side ord" "o_TimeInForce ord = TIF_FOK"
    "val (o_FilledQty ord) = 0" "processOrder bus clk ob ord = Inr (ob', es)"
  shows "(\<exists>r. replies es = [r] \<and> traded (sr_matches r) = val (o_Quantity ord) \<and>
      sr_remaining r = None \<and> o_OrderID ord \<notin> o_OrderID ` set (resting ob')) \<or>
    (ob' = ob \<and> trade_events es = [] \<and>
      replies es = [empty_result\<lparr>sr_remaining := Some (ord\<lparr>o_Status := OrderStatusRejected\<rparr>)\<rparr>])"
proof -
  have nc: "o_Side ord \<noteq> ''cancel''" and pos: "0 < rem ord"
    and fresh: "o_OrderID ord \<notin> o_OrderID ` set (resting ob)"
    using assms(2,3) by (auto simp: admissible_def valid_side_def)
  have q: "rem ord = val (o_Quantity ord)" using assms(5) by (simp add: rem_eq)
  show ?thesis
  proof (cases "CanFillFOK ob ord \<and> \<not> no_liquidity ob ord")
    case False
    then have "processOrder bus clk ob ord = Inr (reject_order bus ob ord)"
      using nc assms(4) by (auto simp: processOrder_def)
    with assms(6) show ?thesis by (simp add: reject_order_def Let_def) auto
  next
    case True
    then have av: "val (o_Quantity ord) \<le> available ob ord"
      using CanFillFOK_iff [OF assms(1,3)] pos q by simp
    obtain ob1 ord1 tr where r: "match_raw clk ob ord = Inr (ob1, ord1, tr)"
      "rem ord1 = max 0 (rem ord - available ob ord)" "traded tr = rem ord - rem ord1"
      "o_OrderID ` set (resting ob1) \<subseteq> o_OrderID ` set (resting ob)"
      using processOrder_matched [OF assms(1,3) pos] True by metis
    then have z: "rem ord1 = 0" using av q by simp
    with r(1) have "MatchOrder clk ob ord = Inr (ob1, ord1\<lparr>o_Status := OrderStatusFilled\<rparr>, tr, None)"
      by (simp add: MatchOrder_raw)
    with True nc assms(6) have "ob' = ob1" "\<exists>r. replies es = [r] \<and> sr_matches r = tr \<and> sr_remaining r = None"
      by (auto simp: processOrder_def Let_def empty_result_def)
    moreover have "o_OrderID ord \<notin> o_OrderID ` set (resting ob1)" using fresh r(4) by blast
    moreover have "traded tr = val (o_Quantity ord)" using r(3) z q by simp
    ultimately show ?thesis by blast
  qed
qed

definition sample_fok :: "int \<Rightarrow> Order" where
  "sample_fok q = sample_order ''t'' SideBuy 101 q\<lparr>o_TimeInForce := TIF_FOK\<rparr>"

theorem fok_all_or_nothing_witness:
  "fst (projr (processOrder True (\<lambda>_. 0) sample_book (sample_fok 6))) = sample_book \<and>
   \<not> CanFillFOK sample_book (sample_fok 6)"
proof -
  let ?p = "processOrder True (\<lambda>_. 0) sample_book (sample_fok 6)"
  have e: "?p = Inr (fst (projr ?p), snd (projr ?p))" by code_simp
  have h: "book_ok sample_book" "admissible sample_book (sample_fok 6)" "valid_side (sample_fok 6)"
    "o_TimeInForce (sample_fok 6) = TIF_FOK" "val (o_FilledQty (sample_fok 6)) = 0"
    "\<not> CanFillFOK sample_book (sample_fok 6)" "map sr_matches (replies (snd (projr ?p))) = [[]]"
    "val (o_Quantity (sample_fok 6)) = 6 * tenPow18"
    by code_simp+
  show ?thesis using fok_all_or_nothing [OF h(1-5) e] h(6-8) by auto
qed

text \<open>An immediate-or-cancel order never rests: after it is processed, no order with its
  identifier is in the book, and the reply hands back either nothing or the order in a final status.\<close>

theorem ioc_never_rests:
  assumes "book_ok ob" "admissible ob ord" "valid_side ord" "o_TimeInForce ord = TIF_IOC"
    "processOrder bus clk ob ord = Inr (ob', es)"
  shows "o_OrderID ord \<notin> o_OrderID ` set (resting ob') \<and>
    (\<exists>r. replies es = [r] \<and> (case sr_remaining r of None \<Rightarrow> True
       | Some left \<Rightarrow> o_Status left \<in> {OrderStatusCancelled, OrderStatusRejected}))"
proof -
  have nc: "o_Side ord \<noteq> ''cancel''" and pos: "0 < rem ord"
    and fresh: "o_OrderID ord \<notin> o_OrderID ` set (resting ob)"
    using assms(2,3) by (auto simp: admissible_def valid_side_def)
  show ?thesis
  proof (cases "no_liquidity ob ord")
    case True
    with assms(4,5) nc fresh show ?thesis
      by (auto simp: processOrder_def reject_order_def Let_def empty_result_def)
  next
    case False
    have pass: "\<not> (o_TimeInForce ord = TIF_FOK \<and> \<not> CanFillFOK ob ord)" using assms(4) by simp
    obtain ob1 ord1 tr where r: "match_raw clk ob ord = Inr (ob1, ord1, tr)"
      "ord1 = ord\<lparr>o_FilledQty := o_FilledQty ord1\<rparr>"
      "o_OrderID ` set (resting ob1) \<subseteq> o_OrderID ` set (resting ob)"
      by (rule processOrder_matched [OF assms(1,3) pos pass False, of clk]) (rule that)
    have "o_TimeInForce ord1 = TIF_IOC" by (subst r(2)) (simp add: assms(4))
    then have "MatchOrder clk ob ord =
        (if rem ord1 \<le> 0 then Inr (ob1, ord1\<lparr>o_Status := OrderStatusFilled\<rparr>, tr, None)
         else Inr (ob1, ord1\<lparr>o_Status := OrderStatusCancelled\<rparr>, tr,
           Some (ord1\<lparr>o_Status := OrderStatusCancelled\<rparr>)))"
      using r(1) by (simp add: MatchOrder_raw)
    with assms(5) pass nc False have "ob' = ob1 \<and> (\<exists>r. replies es = [r] \<and>
        (case sr_remaining r of None \<Rightarrow> True | Some left \<Rightarrow> o_Status left = OrderStatusCancelled))"
      by (auto simp: processOrder_def rests_def Let_def empty_result_def split: if_splits)
    moreover have "o_OrderID ord \<notin> o_OrderID ` set (resting ob1)" using fresh r(3) by blast
    ultimately show ?thesis by (auto split: option.splits)
  qed
qed

definition sample_ioc :: Order where
  "sample_ioc = sample_order ''t'' SideBuy 101 6\<lparr>o_TimeInForce := TIF_IOC\<rparr>"

theorem ioc_never_rests_witness:
  "''t'' \<notin> o_OrderID ` set (resting (fst (projr (processOrder True (\<lambda>_. 0) sample_book sample_ioc))))"
proof -
  let ?p = "processOrder True (\<lambda>_. 0) sample_book sample_ioc"
  have e: "?p = Inr (fst (projr ?p), snd (projr ?p))" by code_simp
  have h: "book_ok sample_book" "admissible sample_book sample_ioc" "valid_side sample_ioc"
    "o_TimeInForce sample_ioc = TIF_IOC" "o_OrderID sample_ioc = ''t''"
    by code_simp+
  show ?thesis using ioc_never_rests [OF h(1-4) e] h(5) by simp
qed


definition sample_market :: Order where
  "sample_market = sample_order ''t'' SideSell 0 20\<lparr>o_Type := OrderTypeMarket, o_TimeInForce := ''''\<rparr>"

definition sample_market_book :: OrderBook where
  "sample_market_book = fst (projr (processOrder True (\<lambda>_. 0) sample_book sample_market))"


end
