(* ===== verification/Engine_Steps.thy ===== *)
theory Engine_Steps
  imports Engine
begin

section \<open>The concurrent engine (matching/engine.go)\<close>

text \<open>
  The engine as a transition system: callers of \<open>PlaceOrder\<close> and \<open>CancelOrder\<close>, whose
  context may end at any time, the channel of 1024 messages in front of each shard, and the shard
  goroutines, in every interleaving. A caller goes through the two \<open>select\<close> statements of the
  code: it first waits for room in the shard's channel, then for the answer on its own result
  channel. A shard performs the effects of a message (answer, events) one by one before it takes
  the next message. Shards live in a heap, because callers keep the pointer of a shard that
  \<open>RemoveSymbol\<close> has taken out of the map. The lists \<open>sh_sent\<close> and \<open>sh_got\<close> are
  histories that the program does not have: the calls whose message entered the channel and those
  whose message the shard has taken, in order.
\<close>

subsection \<open>State\<close>

record shard =
  sh_symbol :: Symbol
  sh_book :: OrderBook
  sh_in :: "(nat \<times> Order) list"
  sh_stopped :: bool
  sh_running :: bool
  sh_cur :: nat
  sh_todo :: "effect list"
  sh_sent :: "nat list"
  sh_got :: "nat list"

datatype call_result = NoShard | CtxDone | Answer shardResult

datatype phase = Sending nat | Waiting nat | Returned call_result

record call =
  c_order :: Order
  c_phase :: phase

record Engine =
  en_shards :: "Symbol \<rightharpoonup> nat"
  en_heap :: "nat \<rightharpoonup> shard"
  en_next :: nat
  en_calls :: "nat \<rightharpoonup> call"
  en_answers :: "nat \<rightharpoonup> shardResult"
  en_bus :: bool
  en_log :: "(string \<times> EventType \<times> json_object) list"

definition channel_capacity :: nat where "channel_capacity = 1024"

definition NewEngine :: "bool \<Rightarrow> Engine" where
  "NewEngine bus = \<lparr>en_shards = Map.empty, en_heap = Map.empty, en_next = 0,
     en_calls = Map.empty, en_answers = Map.empty, en_bus = bus, en_log = []\<rparr>"

subsection \<open>Operations\<close>

definition new_shard :: "Symbol \<Rightarrow> shard" where
  "new_shard symb = \<lparr>sh_symbol = symb, sh_book = NewOrderBook symb, sh_in = [],
     sh_stopped = False, sh_running = True, sh_cur = 0, sh_todo = [], sh_sent = [], sh_got = []\<rparr>"

definition AddSymbol :: "Symbol \<Rightarrow> Engine \<Rightarrow> error option \<times> Engine" where
  "AddSymbol symb e =
     (case en_shards e symb of
        Some _ \<Rightarrow> (Some (Errorf (''symbol '' @ symb @ '' already registered'')), e)
      | None \<Rightarrow>
          (None, e\<lparr>en_shards := (en_shards e)(symb \<mapsto> en_next e),
             en_heap := (en_heap e)(en_next e \<mapsto> new_shard symb), en_next := en_next e + 1\<rparr>))"

definition set_shard :: "nat \<Rightarrow> shard \<Rightarrow> Engine \<Rightarrow> Engine" where
  "set_shard sid s e = e\<lparr>en_heap := (en_heap e)(sid \<mapsto> s)\<rparr>"

definition RemoveSymbol :: "Symbol \<Rightarrow> Engine \<Rightarrow> error option \<times> Engine" where
  "RemoveSymbol symb e =
     (case en_shards e symb of
        None \<Rightarrow> (Some (Errorf (''symbol '' @ symb @ '' not found'')), e)
      | Some sid \<Rightarrow>
          (None, e\<lparr>en_shards := (en_shards e)(symb := None),
             en_heap := (en_heap e)(sid := map_option (sh_stopped_update (\<lambda>_. True)) (en_heap e sid))\<rparr>))"

definition StopEngine :: "Engine \<Rightarrow> Engine" where
  "StopEngine e = e\<lparr>en_shards := Map.empty,
     en_heap := (\<lambda>sid. if sid \<in> ran (en_shards e)
       then map_option (sh_stopped_update (\<lambda>_. True)) (en_heap e sid) else en_heap e sid)\<rparr>"

text \<open>The message of a cancellation: an order with three fields set.\<close>

definition cancel_msg :: "Symbol \<Rightarrow> string \<Rightarrow> Order" where
  "cancel_msg symb oid =
     \<lparr>o_OrderID = oid, o_UserID = '''', o_Symbol = symb, o_Side = ''cancel'', o_Type = '''',
      o_TimeInForce = '''', o_Price = NilDecimal, o_StopPrice = NilDecimal,
      o_Quantity = NilDecimal, o_FilledQty = NilDecimal, o_DisplayQty = NilDecimal,
      o_Timestamp = 0, o_Status = ''''\<rparr>"

text \<open>The first part of \<open>PlaceOrder\<close> and \<open>CancelOrder\<close>: the lookup of the shard.\<close>

definition start_call :: "nat \<Rightarrow> Order \<Rightarrow> Engine \<Rightarrow> Engine" where
  "start_call c ord e = e\<lparr>en_calls := (en_calls e)(c \<mapsto>
     \<lparr>c_order = ord, c_phase = (case en_shards e (o_Symbol ord) of
        None \<Rightarrow> Returned NoShard | Some sid \<Rightarrow> Sending sid)\<rparr>)\<rparr>"

definition set_phase :: "nat \<Rightarrow> phase \<Rightarrow> Engine \<Rightarrow> Engine" where
  "set_phase c p e = e\<lparr>en_calls := (en_calls e)(c :=
     map_option (c_phase_update (\<lambda>_. p)) (en_calls e c))\<rparr>"

text \<open>What the two methods return for the way the call ended.\<close>

definition place_return :: "Symbol \<Rightarrow> error \<Rightarrow> call_result \<Rightarrow>
    MatchResult list \<times> Order option \<times> error option" where
  "place_return symb ctx_err r =
     (case r of
        NoShard \<Rightarrow> ([], None, Some (Errorf (''symbol '' @ symb @ '' not found'')))
      | CtxDone \<Rightarrow> ([], None, Some ctx_err)
      | Answer a \<Rightarrow> (sr_matches a, sr_remaining a, sr_err a))"

definition cancel_return :: "Symbol \<Rightarrow> error \<Rightarrow> call_result \<Rightarrow> error + Order" where
  "cancel_return symb ctx_err r =
     (case r of
        NoShard \<Rightarrow> Inl (Errorf (''symbol '' @ symb @ '' not found''))
      | CtxDone \<Rightarrow> Inl ctx_err
      | Answer a \<Rightarrow> (case sr_cancelled a of None \<Rightarrow> Inl ErrOrderNotFound | Some c \<Rightarrow> Inr c))"

definition GetOrderBook :: "Symbol \<Rightarrow> int \<Rightarrow> Engine \<Rightarrow> error + BookSnapshot" where
  "GetOrderBook symb depth e =
     (case en_shards e symb of
        None \<Rightarrow> Inl (Errorf (''symbol '' @ symb @ '' not found''))
      | Some sid \<Rightarrow>
          (case en_heap e sid of
             None \<Rightarrow> Inl (Errorf (''symbol '' @ symb @ '' not found''))
           | Some s \<Rightarrow> Inr (Snapshot (sh_book s) depth)))"

definition engine_GetOrder :: "Symbol \<Rightarrow> string \<Rightarrow> Engine \<Rightarrow> Order option" where
  "engine_GetOrder symb oid e =
     (case en_shards e symb of
        None \<Rightarrow> None
      | Some sid \<Rightarrow> (case en_heap e sid of None \<Rightarrow> None | Some s \<Rightarrow> GetOrder (sh_book s) oid))"

subsection \<open>Steps\<close>

text \<open>The send on the shard's channel, when there is room.\<close>

definition send_order :: "nat \<Rightarrow> nat \<Rightarrow> Order \<Rightarrow> shard \<Rightarrow> Engine \<Rightarrow> Engine" where
  "send_order c sid ord s e = set_phase c (Waiting sid)
     (set_shard sid (s\<lparr>sh_in := sh_in s @ [(c, ord)], sh_sent := sh_sent s @ [c]\<rparr>) e)"

text \<open>The shard takes the next message.\<close>

definition take_order :: "bool \<Rightarrow> (nat \<Rightarrow> int) \<Rightarrow> shard \<Rightarrow> panic + shard" where
  "take_order bus clk s =
     (case sh_in s of
        [] \<Rightarrow> Inr s
      | (c, ord) # rest \<Rightarrow>
          (case processOrder bus clk (sh_book s) ord of
             Inl p \<Rightarrow> Inl p
           | Inr (book, es) \<Rightarrow> Inr (s\<lparr>sh_book := book, sh_in := rest, sh_cur := c, sh_todo := es,
               sh_got := sh_got s @ [c]\<rparr>)))"

definition perform :: "nat \<Rightarrow> effect \<Rightarrow> Engine \<Rightarrow> Engine" where
  "perform c ef e =
     (case ef of
        Reply r \<Rightarrow> e\<lparr>en_answers := (en_answers e)(c \<mapsto> r)\<rparr>
      | Emit topic ty p \<Rightarrow> e\<lparr>en_log := en_log e @ [(topic, ty, p)]\<rparr>)"

text \<open>
  What the order service guarantees of a new order: a valid side, a quantity left, and an
  identifier that no earlier order has (\<open>common.NewOrderID\<close>).
\<close>

definition placed :: "Engine \<Rightarrow> nat \<Rightarrow> string \<Rightarrow> bool" where
  "placed e c oid \<longleftrightarrow> (case en_calls e c of None \<Rightarrow> False
     | Some k \<Rightarrow> o_Side (c_order k) \<noteq> ''cancel'' \<and> o_OrderID (c_order k) = oid)"

definition new_order :: "Engine \<Rightarrow> Order \<Rightarrow> bool" where
  "new_order e ord \<longleftrightarrow> valid_side ord \<and> 0 < rem ord \<and> (\<forall>c. \<not> placed e c (o_OrderID ord))"

inductive engine_step :: "Engine \<Rightarrow> Engine \<Rightarrow> bool" where
  add_symbol: "engine_step e (snd (AddSymbol symb e))"
| remove_symbol: "engine_step e (snd (RemoveSymbol symb e))"
| stop: "engine_step e (StopEngine e)"
| place: "en_calls e c = None \<Longrightarrow> new_order e ord \<Longrightarrow> engine_step e (start_call c ord e)"
| cancel: "en_calls e c = None \<Longrightarrow> engine_step e (start_call c (cancel_msg symb oid) e)"
| send: "en_calls e c = Some k \<Longrightarrow> c_phase k = Sending sid \<Longrightarrow> en_heap e sid = Some s \<Longrightarrow>
    length (sh_in s) < channel_capacity \<Longrightarrow> engine_step e (send_order c sid (c_order k) s e)"
| expire_sending: "en_calls e c = Some k \<Longrightarrow> c_phase k = Sending sid \<Longrightarrow>
    engine_step e (set_phase c (Returned CtxDone) e)"
| expire_waiting: "en_calls e c = Some k \<Longrightarrow> c_phase k = Waiting sid \<Longrightarrow>
    engine_step e (set_phase c (Returned CtxDone) e)"
| receive: "en_calls e c = Some k \<Longrightarrow> c_phase k = Waiting sid \<Longrightarrow> en_answers e c = Some r \<Longrightarrow>
    engine_step e (set_phase c (Returned (Answer r)) e)"
| take: "en_heap e sid = Some s \<Longrightarrow> sh_running s \<Longrightarrow> sh_todo s = [] \<Longrightarrow>
    take_order (en_bus e) clk s = Inr s' \<Longrightarrow> engine_step e (set_shard sid s' e)"
| act: "en_heap e sid = Some s \<Longrightarrow> sh_todo s = ef # efs \<Longrightarrow>
    engine_step e (perform (sh_cur s) ef (set_shard sid (s\<lparr>sh_todo := efs\<rparr>) e))"
| quit: "en_heap e sid = Some s \<Longrightarrow> sh_running s \<Longrightarrow> sh_todo s = [] \<Longrightarrow> sh_stopped s \<Longrightarrow>
    engine_step e (set_shard sid (s\<lparr>sh_running := False\<rparr>) e)"

inductive engine_reachable :: "bool \<Rightarrow> Engine \<Rightarrow> bool" for bus where
  start: "engine_reachable bus (NewEngine bus)"
| more: "engine_reachable bus e \<Longrightarrow> engine_step e e' \<Longrightarrow> engine_reachable bus e'"

subsection \<open>The invariant\<close>

text \<open>The identifiers of the orders, cancellations aside, among given calls.\<close>

definition placed_ids :: "Engine \<Rightarrow> nat set \<Rightarrow> string set" where
  "placed_ids e cs = {oid. \<exists>c \<in> cs. placed e c oid}"

definition shard_inv :: "Engine \<Rightarrow> shard \<Rightarrow> bool" where
  "shard_inv e s \<longleftrightarrow> book_ok (sh_book s) \<and> uncrossed (sh_book s) \<and>
     sh_got s @ map fst (sh_in s) = sh_sent s \<and> distinct (sh_sent s) \<and>
     o_OrderID ` set (resting (sh_book s)) \<subseteq> placed_ids e (set (sh_got s)) \<and>
     (\<forall>(c, ord) \<in> set (sh_in s). en_answers e c = None \<and>
        (\<exists>k. en_calls e c = Some k \<and> c_order k = ord)) \<and>
     (\<forall>c \<in> set (sh_sent s). \<exists>k. en_calls e c = Some k \<and> (\<forall>sid. c_phase k \<noteq> Sending sid)) \<and>
     (replies (sh_todo s) = [] \<or> (\<exists>r. replies (sh_todo s) = [r]) \<and>
        sh_cur s \<in> set (sh_got s) \<and> en_answers e (sh_cur s) = None)"

definition calls_inv :: "Engine \<Rightarrow> bool" where
  "calls_inv e \<longleftrightarrow>
     (\<forall>c k. en_calls e c = Some k \<longrightarrow>
        o_Side (c_order k) = ''cancel'' \<or> valid_side (c_order k) \<and> 0 < rem (c_order k)) \<and>
     (\<forall>c c' oid. placed e c oid \<longrightarrow> placed e c' oid \<longrightarrow> c = c') \<and>
     (\<forall>c k sid. en_calls e c = Some k \<longrightarrow> c_phase k = Sending sid \<longrightarrow> en_answers e c = None) \<and>
     (\<forall>c. en_calls e c = None \<longrightarrow> en_answers e c = None)"

definition heap_inv :: "Engine \<Rightarrow> bool" where
  "heap_inv e \<longleftrightarrow>
     (\<forall>sid s. en_heap e sid = Some s \<longrightarrow> sid < en_next e \<and> shard_inv e s) \<and>
     (\<forall>sid s sid' s'. en_heap e sid = Some s \<longrightarrow> en_heap e sid' = Some s' \<longrightarrow> sid \<noteq> sid' \<longrightarrow>
        set (sh_sent s) \<inter> set (sh_sent s') = {})"

definition engine_inv :: "Engine \<Rightarrow> bool" where
  "engine_inv e \<longleftrightarrow> calls_inv e \<and> heap_inv e"

lemma set_CancelOrder:
  assumes "book_ok ob"
  shows "set (resting (fst (CancelOrder ob oid))) \<subseteq> set (resting ob)"
proof (cases "find_order oid (resting ob)")
  case None
  then show ?thesis by (simp add: find_order_None_iff CancelOrder_absent)
next
  case (Some ord)
  with CancelOrder_present [OF assms Some] set_drop_order [of oid "resting ob"] show ?thesis by auto
qed

subsection \<open>Preservation\<close>

text \<open>What most steps leave of calls and answers: calls only move on, answers are as before.\<close>

definition moves_on :: "Engine \<Rightarrow> Engine \<Rightarrow> bool" where
  "moves_on e e' \<longleftrightarrow> en_answers e' = en_answers e \<and>
     (\<forall>c k. en_calls e c = Some k \<longrightarrow> (\<exists>k'. en_calls e' c = Some k' \<and> c_order k' = c_order k \<and>
        (\<forall>sid. c_phase k' = Sending sid \<longrightarrow> c_phase k = Sending sid)))"

lemma placed_ids_moves_on: "moves_on e e' \<Longrightarrow> placed_ids e cs \<subseteq> placed_ids e' cs"
  by (fastforce simp: placed_ids_def moves_on_def placed_def split: option.splits)

lemma placed_ids_mono: "cs \<subseteq> cs' \<Longrightarrow> placed_ids e cs \<subseteq> placed_ids e cs'"
  by (auto simp: placed_ids_def)

lemma moves_onD:
  "moves_on e e' \<Longrightarrow> en_calls e c = Some k \<Longrightarrow> \<exists>k'. en_calls e' c = Some k' \<and> c_order k' = c_order k \<and>
     (\<forall>sid. c_phase k' = Sending sid \<longrightarrow> c_phase k = Sending sid)"
  by (simp add: moves_on_def)

lemma shard_inv_sentD:
  "shard_inv e s \<Longrightarrow> c \<in> set (sh_sent s) \<Longrightarrow> \<exists>k. en_calls e c = Some k \<and> (\<forall>sid. c_phase k \<noteq> Sending sid)"
  by (simp add: shard_inv_def)

lemma shard_inv_bookD: "shard_inv e s \<Longrightarrow> book_ok (sh_book s) \<and> uncrossed (sh_book s)"
  by (simp add: shard_inv_def)

lemma shard_inv_fifoD: "shard_inv e s \<Longrightarrow> sh_got s @ map fst (sh_in s) = sh_sent s \<and> distinct (sh_sent s)"
  unfolding shard_inv_def by blast

lemma shard_inv_idsD:
  "shard_inv e s \<Longrightarrow> o_OrderID ` set (resting (sh_book s)) \<subseteq> placed_ids e (set (sh_got s))"
  by (simp add: shard_inv_def)

lemma shard_invI:
  assumes "book_ok (sh_book s)" "uncrossed (sh_book s)"
    "sh_got s @ map fst (sh_in s) = sh_sent s" "distinct (sh_sent s)"
    "o_OrderID ` set (resting (sh_book s)) \<subseteq> placed_ids e (set (sh_got s))"
    "\<And>c ord. (c, ord) \<in> set (sh_in s) \<Longrightarrow>
       en_answers e c = None \<and> (\<exists>k. en_calls e c = Some k \<and> c_order k = ord)"
    "\<And>c. c \<in> set (sh_sent s) \<Longrightarrow> \<exists>k. en_calls e c = Some k \<and> (\<forall>sid. c_phase k \<noteq> Sending sid)"
    "replies (sh_todo s) = [] \<or> (\<exists>r. replies (sh_todo s) = [r]) \<and>
       sh_cur s \<in> set (sh_got s) \<and> en_answers e (sh_cur s) = None"
  shows "shard_inv e s"
  unfolding shard_inv_def using assms by blast

lemma shard_inv_inD:
  "shard_inv e s \<Longrightarrow> (c, ord) \<in> set (sh_in s) \<Longrightarrow>
     en_answers e c = None \<and> (\<exists>k. en_calls e c = Some k \<and> c_order k = ord)"
  by (auto simp: shard_inv_def)

lemma shard_inv_gotD: "shard_inv e s \<Longrightarrow> set (sh_got s) \<subseteq> set (sh_sent s)"
  unfolding shard_inv_def by (metis Un_upper1 set_append)

lemma shard_inv_inS: "shard_inv e s \<Longrightarrow> fst ` set (sh_in s) \<subseteq> set (sh_sent s)"
  unfolding shard_inv_def by (metis Un_upper2 set_append set_map)

text \<open>An answer to a call that is neither queued nor being processed at a shard.\<close>

lemma shard_inv_answer:
  assumes "en_calls e' = en_calls e" "en_answers e' = (en_answers e)(c \<mapsto> r)" "shard_inv e s"
    "c \<notin> fst ` set (sh_in s)" "replies (sh_todo s) = [] \<or> sh_cur s \<noteq> c"
  shows "shard_inv e' s"
proof -
  have pl: "placed_ids e' = placed_ids e" using assms(1) by (simp add: placed_ids_def placed_def fun_eq_iff)
  have "\<forall>(d, ord) \<in> set (sh_in s). en_answers e' d = None \<and> (\<exists>k. en_calls e' d = Some k \<and> c_order k = ord)"
    using assms(1,2,4) shard_inv_inD [OF assms(3)] by (fastforce simp: image_iff)
  then show ?thesis
    using assms unfolding shard_inv_def pl by (elim conjE) (intro conjI; (assumption | (simp; fail) | auto))
qed

lemma shard_inv_moves_on:
  assumes mv: "moves_on e e'" and inv: "shard_inv e s"
  shows "shard_inv e' s"
proof -
  have ans: "en_answers e' = en_answers e" using mv by (simp add: moves_on_def)
  have "\<forall>c \<in> set (sh_sent s). \<exists>k. en_calls e' c = Some k \<and> (\<forall>sid. c_phase k \<noteq> Sending sid)"
    using shard_inv_sentD [OF inv] moves_onD [OF mv] by metis
  moreover have "\<forall>(c, ord) \<in> set (sh_in s). en_answers e' c = None \<and>
      (\<exists>k. en_calls e' c = Some k \<and> c_order k = ord)"
  proof (intro ballI, clarify)
    fix c ord assume "(c, ord) \<in> set (sh_in s)"
    with shard_inv_inD [OF inv] moves_onD [OF mv] ans
    show "en_answers e' c = None \<and> (\<exists>k. en_calls e' c = Some k \<and> c_order k = ord)" by metis
  qed
  moreover have "o_OrderID ` set (resting (sh_book s)) \<subseteq> placed_ids e' (set (sh_got s))"
    using placed_ids_moves_on [OF mv] inv unfolding shard_inv_def by blast
  ultimately show ?thesis using inv ans unfolding shard_inv_def by simp
qed

lemma shard_inv_flags [simp]:
  "shard_inv e (s\<lparr>sh_stopped := b\<rparr>) = shard_inv e s" "shard_inv e (s\<lparr>sh_running := b\<rparr>) = shard_inv e s"
  by (simp_all add: shard_inv_def)

lemma heap_inv_moves_on:
  assumes "moves_on e e'" "heap_inv e" "en_heap e' = en_heap e" "en_next e' = en_next e"
  shows "heap_inv e'"
  using assms shard_inv_moves_on by (auto simp: heap_inv_def)

lemma heap_inv_set:
  assumes "heap_inv e" "sid < en_next e" "shard_inv e s"
    "\<And>sid' s'. en_heap e sid' = Some s' \<Longrightarrow> sid' \<noteq> sid \<Longrightarrow> set (sh_sent s) \<inter> set (sh_sent s') = {}"
  shows "heap_inv (set_shard sid s e)"
proof -
  have "moves_on e (set_shard sid s e)" by (auto simp: moves_on_def set_shard_def)
  note mv = shard_inv_moves_on [OF this]
  show ?thesis
    using assms mv by (fastforce simp: heap_inv_def set_shard_def)
qed

lemma calls_inv_frame:
  "en_calls e' = en_calls e \<Longrightarrow> en_answers e' = en_answers e \<Longrightarrow> calls_inv e \<Longrightarrow> calls_inv e'"
  by (simp add: calls_inv_def placed_def)

lemma moves_on_frame: "en_calls e' = en_calls e \<Longrightarrow> en_answers e' = en_answers e \<Longrightarrow> moves_on e e'"
  by (auto simp: moves_on_def)

lemma engine_inv_set:
  assumes "engine_inv e" "en_heap e sid = Some s" "shard_inv e s'" "sh_sent s' = sh_sent s"
  shows "engine_inv (set_shard sid s' e)"
proof -
  have "heap_inv (set_shard sid s' e)"
    by (rule heap_inv_set) (use assms in \<open>auto simp: engine_inv_def heap_inv_def\<close>)
  with assms(1) calls_inv_frame [of "set_shard sid s' e" e] show ?thesis
    by (simp add: engine_inv_def set_shard_def)
qed

lemma inv_add:
  assumes inv: "engine_inv e"
  shows "engine_inv (snd (AddSymbol symb e))"
proof (cases "en_shards e symb")
  case None
  define e' where "e' = e\<lparr>en_shards := (en_shards e)(symb \<mapsto> en_next e),
     en_heap := (en_heap e)(en_next e \<mapsto> new_shard symb), en_next := en_next e + 1\<rparr>"
  have mv: "moves_on e e'" by (rule moves_on_frame) (simp_all add: e'_def)
  have n: "shard_inv e' (new_shard symb)"
    by (auto simp: shard_inv_def new_shard_def resting_def NewOrderBook_def book_ok_def uncrossed_def)
  have old: "shard_inv e' s \<and> sid < en_next e" if "en_heap e sid = Some s" for sid s
    using inv that shard_inv_moves_on [OF mv] by (simp add: engine_inv_def heap_inv_def)
  have "heap_inv e'"
    unfolding heap_inv_def
  proof (intro conjI allI impI)
    fix sid s assume "en_heap e' sid = Some s"
    then show "sid < en_next e'" "shard_inv e' s"
      using n old by (auto simp: e'_def split: if_splits dest: less_SucI)
  next
    fix sid s sid' s' assume "en_heap e' sid = Some s" "en_heap e' sid' = Some s'" "sid \<noteq> sid'"
    then show "set (sh_sent s) \<inter> set (sh_sent s') = {}"
      using inv by (auto simp: e'_def new_shard_def engine_inv_def heap_inv_def split: if_splits)
  qed
  moreover have "calls_inv e'" by (rule calls_inv_frame [of _ e]) (use inv in \<open>simp_all add: e'_def engine_inv_def\<close>)
  ultimately show ?thesis using None by (simp add: AddSymbol_def engine_inv_def e'_def)
qed (simp add: AddSymbol_def inv)

text \<open>Stopping shards changes flags only.\<close>

lemma inv_flags:
  assumes "engine_inv e" "en_calls e' = en_calls e" "en_answers e' = en_answers e"
    "en_next e' = en_next e"
    "\<And>sid s'. en_heap e' sid = Some s' \<Longrightarrow> \<exists>s b. en_heap e sid = Some s \<and> (s' = s \<or> s' = s\<lparr>sh_stopped := b\<rparr>)"
  shows "engine_inv e'"
proof -
  have mv: "moves_on e e'" by (rule moves_on_frame) (use assms in auto)
  have "sid < en_next e' \<and> shard_inv e' s'" if h: "en_heap e' sid = Some s'" for sid s'
  proof -
    obtain s b where s: "en_heap e sid = Some s" "s' = s \<or> s' = s\<lparr>sh_stopped := b\<rparr>"
      using assms(5) [OF h] by blast
    then have "shard_inv e s" "sid < en_next e" using assms(1) by (auto simp: engine_inv_def heap_inv_def)
    with s assms(4) shard_inv_moves_on [OF mv] show ?thesis by auto
  qed
  moreover have "set (sh_sent s) \<inter> set (sh_sent s') = {}"
    if h: "en_heap e' sid = Some s" "en_heap e' sid' = Some s'" "sid \<noteq> sid'" for sid s sid' s'
  proof -
    obtain t t' where t: "en_heap e sid = Some t" "sh_sent s = sh_sent t"
      "en_heap e sid' = Some t'" "sh_sent s' = sh_sent t'"
      using assms(5) [OF h(1)] assms(5) [OF h(2)] by fastforce
    with h(3) assms(1) show ?thesis unfolding engine_inv_def heap_inv_def by metis
  qed
  ultimately have "heap_inv e'" unfolding heap_inv_def by blast
  with calls_inv_frame [of e' e] assms show ?thesis by (simp add: engine_inv_def)
qed

lemma inv_start_call:
  assumes "engine_inv e" "en_calls e c = None"
    "o_Side ord = ''cancel'' \<or> new_order e ord"
  shows "engine_inv (start_call c ord e)"
proof -
  let ?e = "start_call c ord e"
  have mv: "moves_on e ?e"
    using assms(2) by (auto simp: moves_on_def start_call_def)
  have "heap_inv ?e"
    by (rule heap_inv_moves_on [OF mv]) (use assms(1) in \<open>auto simp: engine_inv_def start_call_def\<close>)
  moreover have "calls_inv ?e"
  proof -
    have p: "placed ?e d oid \<longleftrightarrow> (if d = c then o_Side ord \<noteq> ''cancel'' \<and> o_OrderID ord = oid else placed e d oid)"
      for d oid by (simp add: placed_def start_call_def)
    have "d = d'" if "placed ?e d oid" "placed ?e d' oid" for d d' oid
      using that assms(1,3) by (auto simp: p engine_inv_def calls_inv_def new_order_def split: if_splits)
    moreover have "o_Side (c_order k) = ''cancel'' \<or> valid_side (c_order k) \<and> 0 < rem (c_order k)"
      if "en_calls ?e d = Some k" for d k
      using that assms(1,3) by (auto simp: start_call_def engine_inv_def calls_inv_def new_order_def split: if_splits)
    moreover have "en_answers ?e = en_answers e" by (simp add: start_call_def)
    moreover have "en_answers e c = None" using assms(1,2) by (simp add: engine_inv_def calls_inv_def)
    ultimately show ?thesis using assms(1)
      unfolding calls_inv_def engine_inv_def by (auto simp: start_call_def split: if_splits)
  qed
  ultimately show ?thesis by (simp add: engine_inv_def)
qed

lemma inv_set_phase:
  assumes "engine_inv e" "\<And>sid. p \<noteq> Sending sid"
  shows "engine_inv (set_phase c p e)"
proof -
  let ?e = "set_phase c p e"
  have mv: "moves_on e ?e"
    using assms(2) by (auto simp: moves_on_def set_phase_def)
  have "heap_inv ?e"
    by (rule heap_inv_moves_on [OF mv]) (use assms(1) in \<open>auto simp: engine_inv_def set_phase_def\<close>)
  moreover have "calls_inv ?e"
  proof -
    have pl: "placed ?e = placed e"
      by (auto simp: placed_def set_phase_def fun_eq_iff split: option.splits)
    have an: "en_answers ?e = en_answers e" by (simp add: set_phase_def)
    have pre: "\<exists>k0. en_calls e d = Some k0 \<and> c_order k0 = c_order k \<and>
        (\<forall>sid. c_phase k = Sending sid \<longrightarrow> c_phase k0 = Sending sid)"
      if "en_calls ?e d = Some k" for d k
      using that assms(2) by (auto simp: set_phase_def split: if_splits)
    have none: "en_calls ?e d = None \<longleftrightarrow> en_calls e d = None" for d
      by (auto simp: set_phase_def)
    have inv: "calls_inv e" using assms(1) by (simp add: engine_inv_def)
    have ok: "o_Side (c_order k) = ''cancel'' \<or> valid_side (c_order k) \<and> 0 < rem (c_order k)"
      if k: "en_calls ?e d = Some k" for d k
      using pre [OF k] inv unfolding calls_inv_def by fastforce
    have sends: "en_answers e d = None" if k: "en_calls ?e d = Some k" "c_phase k = Sending sid" for d k sid
      using pre [OF k(1)] k(2) inv unfolding calls_inv_def by fastforce
    show ?thesis
      unfolding calls_inv_def pl an using ok sends none inv unfolding calls_inv_def by simp
  qed
  ultimately show ?thesis by (simp add: engine_inv_def)
qed

lemma inv_send:
  assumes inv: "engine_inv e" and k: "en_calls e c = Some k" "c_phase k = Sending sid"
    and s: "en_heap e sid = Some s"
  shows "engine_inv (send_order c sid (c_order k) s e)"
proof -
  let ?s = "s\<lparr>sh_in := sh_in s @ [(c, c_order k)], sh_sent := sh_sent s @ [c]\<rparr>"
  let ?e1 = "set_phase c (Waiting sid) e"
  have inv1: "engine_inv ?e1" by (rule inv_set_phase [OF inv]) simp
  have s1: "en_heap ?e1 sid = Some s" using s by (simp add: set_phase_def)
  have si: "shard_inv ?e1 s" using inv1 s1 by (simp add: engine_inv_def heap_inv_def)
  have unsent: "c \<notin> set (sh_sent s')" if "en_heap e sid' = Some s'" for sid' s'
    using that inv k shard_inv_sentD [of e s' c] by (fastforce simp: engine_inv_def heap_inv_def)
  have ans: "en_answers ?e1 c = None"
    using inv k by (simp add: set_phase_def engine_inv_def calls_inv_def)
  have new: "en_calls ?e1 c = Some (k\<lparr>c_phase := Waiting sid\<rparr>)"
    using k by (simp add: set_phase_def)
  have "shard_inv ?e1 ?s"
    using si unsent [OF s] ans new by (auto simp: shard_inv_def)
  then have "heap_inv (set_shard sid ?s ?e1)"
    using inv1 s1 unsent
    by (intro heap_inv_set) (auto simp: engine_inv_def heap_inv_def set_phase_def)
  moreover have "calls_inv (set_shard sid ?s ?e1)"
    by (rule calls_inv_frame [of _ ?e1]) (use inv1 in \<open>auto simp: engine_inv_def set_shard_def\<close>)
  moreover have "send_order c sid (c_order k) s e = set_shard sid ?s ?e1"
    by (simp add: send_order_def set_phase_def set_shard_def)
  ultimately show ?thesis by (simp add: engine_inv_def)
qed

text \<open>The message at the head of a channel is admissible for the shard's book.\<close>

lemma head_admissible:
  assumes inv: "engine_inv e" and s: "en_heap e sid = Some s" and h: "sh_in s = (c, ord) # rest"
  shows "admissible (sh_book s) ord"
proof -
  have si: "shard_inv e s" using inv s by (simp add: engine_inv_def heap_inv_def)
  obtain k where k: "en_calls e c = Some k" "c_order k = ord"
    using shard_inv_inD [OF si, of c ord] h by auto
  have "o_OrderID ord \<notin> o_OrderID ` set (resting (sh_book s))" if "o_Side ord \<noteq> ''cancel''"
  proof
    assume "o_OrderID ord \<in> o_OrderID ` set (resting (sh_book s))"
    then have "o_OrderID ord \<in> placed_ids e (set (sh_got s))" using si by (auto simp: shard_inv_def)
    then obtain c' where c': "c' \<in> set (sh_got s)" "placed e c' (o_OrderID ord)"
      by (auto simp: placed_ids_def)
    have "placed e c (o_OrderID ord)" using k that by (simp add: placed_def)
    with c' inv have "c = c'" unfolding engine_inv_def calls_inv_def by blast
    moreover have "distinct (sh_got s @ map fst (sh_in s))" using si by (simp add: shard_inv_def)
    ultimately show False using c' h by auto
  qed
  then show ?thesis using inv k by (auto simp: admissible_def engine_inv_def calls_inv_def)
qed

text \<open>A shard never panics, and taking a message keeps the invariant.\<close>

lemma take_order_ok:
  assumes inv: "engine_inv e" and s: "en_heap e sid = Some s" and idle: "sh_todo s = []"
  shows "\<exists>s'. take_order (en_bus e) clk s = Inr s' \<and> shard_inv e s' \<and> sh_sent s' = sh_sent s"
proof (cases "sh_in s")
  case Nil
  then show ?thesis using inv s by (simp add: take_order_def engine_inv_def heap_inv_def)
next
  case (Cons m rest)
  obtain c ord where m: "m = (c, ord)" by fastforce
  have si: "shard_inv e s" using inv s by (simp add: engine_inv_def heap_inv_def)
  have adm: "admissible (sh_book s) ord" using head_admissible [OF inv s] Cons m by blast
  obtain book es where p: "processOrder (en_bus e) clk (sh_book s) ord = Inr (book, es)"
    "book_ok book" "uncrossed book"
    "o_OrderID ` set (resting book) \<subseteq> insert (o_OrderID ord) (o_OrderID ` set (resting (sh_book s)))"
    using processOrder_invariant [OF _ _ adm, of "en_bus e" clk] si unfolding shard_inv_def by blast
  obtain r where r: "replies es = [r]" using processOrder_one_reply [OF p(1)] by blast
  obtain k where k: "en_calls e c = Some k" "c_order k = ord" "en_answers e c = None"
    using shard_inv_inD [OF si, of c ord] Cons m by auto
  have ids: "o_OrderID ` set (resting book) \<subseteq> placed_ids e (set (sh_got s @ [c]))"
  proof (cases "o_Side ord = ''cancel''")
    case True
    then have "book = fst (CancelOrder (sh_book s) (o_OrderID ord))"
      using p(1) by (cases "CancelOrder (sh_book s) (o_OrderID ord)") (simp add: processOrder_def)
    then have "set (resting book) \<subseteq> set (resting (sh_book s))"
      using set_CancelOrder [of "sh_book s" "o_OrderID ord"] si by (simp add: shard_inv_def)
    then have "o_OrderID ` set (resting book) \<subseteq> placed_ids e (set (sh_got s))"
      using si unfolding shard_inv_def by blast
    then show ?thesis using placed_ids_mono [of "set (sh_got s)" "set (sh_got s @ [c])" e] by auto
  next
    case False
    then have "placed e c (o_OrderID ord)" using k by (simp add: placed_def)
    moreover have "o_OrderID ` set (resting (sh_book s)) \<subseteq> placed_ids e (set (sh_got s))"
      using si unfolding shard_inv_def by blast
    moreover have "o_OrderID ord \<in> placed_ids e (set (sh_got s @ [c]))"
      using \<open>placed e c (o_OrderID ord)\<close> by (auto simp: placed_ids_def)
    moreover have "placed_ids e (set (sh_got s)) \<subseteq> placed_ids e (set (sh_got s @ [c]))"
      by (rule placed_ids_mono) auto
    ultimately have "insert (o_OrderID ord) (o_OrderID ` set (resting (sh_book s)))
        \<subseteq> placed_ids e (set (sh_got s @ [c]))"
      by (meson insert_subset subset_trans)
    with p(4) show ?thesis by (rule subset_trans)
  qed
  let ?s = "s\<lparr>sh_book := book, sh_in := rest, sh_cur := c, sh_todo := es, sh_got := sh_got s @ [c]\<rparr>"
  have "shard_inv e ?s"
  proof (rule shard_invI)
    show "sh_got ?s @ map fst (sh_in ?s) = sh_sent ?s" "distinct (sh_sent ?s)"
      using shard_inv_fifoD [OF si] Cons m by simp_all
    show "\<exists>k. en_calls e d = Some k \<and> (\<forall>sid. c_phase k \<noteq> Sending sid)" if "d \<in> set (sh_sent ?s)" for d
      using shard_inv_sentD [OF si] that by simp
    show "en_answers e d = None \<and> (\<exists>k. en_calls e d = Some k \<and> c_order k = o')"
      if "(d, o') \<in> set (sh_in ?s)" for d o'
      using shard_inv_inD [OF si, of d o'] that Cons m by simp
  qed (use p(2,3) ids r k(3) in simp_all)
  then show ?thesis using p(1) Cons m by (simp add: take_order_def)
qed

lemma inv_act:
  assumes inv: "engine_inv e" and s: "en_heap e sid = Some s" and t: "sh_todo s = ef # efs"
  shows "engine_inv (perform (sh_cur s) ef (set_shard sid (s\<lparr>sh_todo := efs\<rparr>) e))"
proof -
  have si: "shard_inv e s" using inv s by (simp add: engine_inv_def heap_inv_def)
  show ?thesis
  proof (cases ef)
    case (Emit topic ty p)
    have si': "shard_inv e (s\<lparr>sh_todo := efs\<rparr>)" using si t Emit by (auto simp: shard_inv_def)
    have "engine_inv (set_shard sid (s\<lparr>sh_todo := efs\<rparr>) e)"
      by (rule engine_inv_set [OF inv s si']) simp
    then show ?thesis
      by (rule inv_flags) (auto simp: perform_def Emit)
  next
    case (Reply r)
    let ?c = "sh_cur s"
    let ?s = "s\<lparr>sh_todo := efs\<rparr>"
    let ?e = "perform ?c ef (set_shard sid ?s e)"
    have c: "?c \<in> set (sh_got s)" and efs: "replies efs = []"
      using si t Reply by (auto simp: shard_inv_def)
    then have sent: "?c \<in> set (sh_sent s)" using shard_inv_gotD [OF si] by blast
    have ans: "en_answers ?e = (en_answers e)(?c \<mapsto> r)" "en_calls ?e = en_calls e"
      "en_heap ?e = (en_heap e)(sid \<mapsto> ?s)" "en_next ?e = en_next e"
      by (simp_all add: perform_def Reply set_shard_def)
    have pl: "placed ?e = placed e" by (simp add: placed_def ans fun_eq_iff)
    have apart: "?c \<notin> set (sh_sent s')" if "en_heap e sid' = Some s'" "sid' \<noteq> sid" for sid' s'
      using that s inv sent unfolding engine_inv_def heap_inv_def by blast
    have keep: "shard_inv ?e s'" if s': "shard_inv e s'" "?c \<notin> set (sh_sent s')" for s'
      by (rule shard_inv_answer [OF ans(2,1) s'(1)])
        (use s' shard_inv_gotD [OF s'(1)] shard_inv_inS [OF s'(1)] in \<open>auto simp: shard_inv_def\<close>)
    have s0: "shard_inv e ?s" using si efs unfolding shard_inv_def by simp
    have "?c \<notin> fst ` set (sh_in s)"
      using shard_inv_fifoD [OF si] c by (metis IntI distinct_append empty_iff set_map)
    then have own: "shard_inv ?e ?s"
      using efs by (intro shard_inv_answer [OF ans(2,1) s0]) simp_all
    obtain k where k: "en_calls e ?c = Some k" "\<forall>sid. c_phase k \<noteq> Sending sid"
      using shard_inv_sentD [OF si sent] by blast
    have "heap_inv ?e"
      unfolding heap_inv_def
    proof (intro conjI allI impI)
      fix sid' s' assume h: "en_heap ?e sid' = Some s'"
      then show "sid' < en_next ?e"
        using inv s ans by (auto simp: engine_inv_def heap_inv_def split: if_splits)
      show "shard_inv ?e s'"
        using h ans own keep apart inv
        by (cases "sid' = sid") (auto simp: engine_inv_def heap_inv_def)
    next
      fix a x b y assume h: "en_heap ?e a = Some x" "en_heap ?e b = Some y" "a \<noteq> b"
      have old: "\<exists>t. en_heap e a = Some t \<and> sh_sent x = sh_sent t" if "en_heap ?e a = Some x" for a x
        using that s unfolding ans by (auto split: if_splits)
      obtain t t' where "en_heap e a = Some t" "sh_sent x = sh_sent t"
        "en_heap e b = Some t'" "sh_sent y = sh_sent t'" using old h by blast
      with h(3) show "set (sh_sent x) \<inter> set (sh_sent y) = {}"
        using inv unfolding engine_inv_def heap_inv_def by metis
    qed
    moreover have "calls_inv ?e"
    proof -
      have "en_answers ?e d = None" if "en_calls e d = Some k'" "c_phase k' = Sending sid'" for d k' sid'
        using that k inv by (auto simp: ans engine_inv_def calls_inv_def)
      moreover have "en_answers ?e d = None" if "en_calls e d = None" for d
        using that k inv by (auto simp: ans engine_inv_def calls_inv_def)
      ultimately show ?thesis
        using inv unfolding engine_inv_def calls_inv_def pl ans(2) by simp
    qed
    ultimately show ?thesis by (simp add: engine_inv_def)
  qed
qed

lemma engine_step_inv: "engine_step e e' \<Longrightarrow> engine_inv e \<Longrightarrow> engine_inv e'"
proof (induction rule: engine_step.induct)
  case (add_symbol e symb)
  then show ?case by (rule inv_add)
next
  case (remove_symbol e symb)
  then show ?case
    by (rule inv_flags) (auto simp: RemoveSymbol_def split: option.splits if_splits)
next
  case (stop e)
  then show ?case by (rule inv_flags) (auto simp: StopEngine_def split: if_splits)
next
  case (place e c ord)
  then show ?case by (intro inv_start_call) auto
next
  case (cancel e c symb oid)
  then show ?case by (intro inv_start_call) (auto simp: cancel_msg_def)
next
  case (send e c k sid s)
  then show ?case by (intro inv_send) auto
next
  case (take e sid s clk s')
  then show ?case using take_order_ok [of e sid s clk] engine_inv_set [of e sid s s'] by auto
next
  case (act e sid s ef efs)
  then show ?case by (intro inv_act) auto
next
  case (quit e sid s)
  then show ?case
    using engine_inv_set [of e sid s "s\<lparr>sh_running := False\<rparr>"]
    by (simp add: engine_inv_def heap_inv_def)
qed (auto intro: inv_set_phase)

lemma engine_inv_new: "engine_inv (NewEngine bus)"
  by (simp add: engine_inv_def calls_inv_def heap_inv_def NewEngine_def placed_def)

lemma engine_reachable_inv: "engine_reachable bus e \<Longrightarrow> engine_inv e"
  by (induction rule: engine_reachable.induct) (auto intro: engine_inv_new engine_step_inv)

subsection \<open>Properties\<close>

text \<open>Facts about a shard in a reachable state, for the properties.\<close>

lemma reachable_shard:
  "engine_reachable bus e \<Longrightarrow> en_heap e sid = Some s \<Longrightarrow> shard_inv e s"
  using engine_reachable_inv by (fastforce simp: engine_inv_def heap_inv_def)

lemma engine_bus_constant: "engine_reachable bus e \<Longrightarrow> en_bus e = bus"
proof (induction rule: engine_reachable.induct)
  case start
  then show ?case by (simp add: NewEngine_def)
next
  case (more e e')
  from more.hyps(2) have "en_bus e' = en_bus e"
    by (induction rule: engine_step.induct)
      (auto simp: AddSymbol_def RemoveSymbol_def StopEngine_def start_call_def send_order_def
        set_phase_def set_shard_def perform_def split: option.splits effect.splits)
  with more.IH show ?case by simp
qed

text \<open>C20. In every interleaving of callers, timeouts, symbol removals and shard goroutines: every
  book is well formed and uncrossed; a shard takes its messages in the order in which they entered
  its channel, each once; and it never panics on the next one.\<close>

theorem engine_safe:
  assumes "engine_reachable bus e" "en_heap e sid = Some s"
  shows "book_ok (sh_book s) \<and> uncrossed (sh_book s) \<and>
    sh_sent s = sh_got s @ map fst (sh_in s) \<and> distinct (sh_sent s) \<and>
    (sh_todo s = [] \<longrightarrow> (\<forall>p clk. take_order bus clk s \<noteq> Inl p))"
proof -
  have inv: "engine_inv e" "en_bus e = bus"
    using assms(1) engine_reachable_inv engine_bus_constant by auto
  have si: "shard_inv e s" using reachable_shard [OF assms] .
  have "take_order bus clk s \<noteq> Inl p" if "sh_todo s = []" for p clk
    using take_order_ok [OF inv(1) assms(2) that, of clk] inv(2) by auto
  then show ?thesis using shard_inv_bookD [OF si] shard_inv_fifoD [OF si] by simp
qed

text \<open>A run: the symbol is added, an order is sent, its caller gives up, the shard takes it.\<close>

definition late_engine :: "nat \<Rightarrow> Engine" where
  "late_engine n =
     (let e0 = snd (AddSymbol ''ETH-USDT'' (NewEngine False));
          e1 = start_call 7 (sample_order ''b1'' SideBuy 99 4) e0;
          e2 = send_order 7 0 (sample_order ''b1'' SideBuy 99 4) (the (en_heap e1 0)) e1;
          e3 = set_phase 7 (Returned CtxDone) e2;
          e4 = set_shard 0 (projr (take_order False (\<lambda>_. 0) (the (en_heap e3 0)))) e3
      in [e0, e1, e2, e3, e4] ! n)"

lemma late_engine_states:
  "en_heap (late_engine 4) 0 = Some \<lparr>sh_symbol = ''ETH-USDT'',
     sh_book = fst (addBid (NewOrderBook ''ETH-USDT'') (sample_order ''b1'' SideBuy 99 4)), sh_in = [],
     sh_stopped = False, sh_running = True, sh_cur = 7,
     sh_todo = [Reply (empty_result\<lparr>sr_remaining :=
       Some (sample_order ''b1'' SideBuy 99 4\<lparr>o_Status := OrderStatusOpen\<rparr>)\<rparr>)],
     sh_sent = [7], sh_got = [7]\<rparr>"
  "en_calls (late_engine 4) 7 =
     Some \<lparr>c_order = sample_order ''b1'' SideBuy 99 4, c_phase = Returned CtxDone\<rparr>"
  by code_simp+

lemma late_engine_reachable_2_4:
  "engine_reachable False (late_engine 2) \<and> engine_reachable False (late_engine 4)"
proof -
  note defs = late_engine_def Let_def
  have "engine_reachable False (late_engine 0)"
    using engine_reachable.more [OF engine_reachable.start engine_step.add_symbol, of False "''ETH-USDT''"]
    by (simp add: defs)
  moreover have "engine_step (late_engine 0) (late_engine 1)"
  proof -
    have "new_order (late_engine 0) (sample_order ''b1'' SideBuy 99 4)"
      "en_calls (late_engine 0) 7 = None"
      by (auto simp: new_order_def placed_def valid_side_def sample_order_def rem_eq defs
          AddSymbol_def NewEngine_def)
    from engine_step.place [OF this(2,1)] show ?thesis by (simp add: defs)
  qed
  moreover have "engine_step (late_engine 1) (late_engine 2)"
  proof -
    have "en_calls (late_engine 1) 7 =
        Some \<lparr>c_order = sample_order ''b1'' SideBuy 99 4, c_phase = Sending 0\<rparr>"
      "en_heap (late_engine 1) 0 = Some (new_shard ''ETH-USDT'')"
      by (simp_all add: defs AddSymbol_def NewEngine_def start_call_def sample_order_def)
    from engine_step.send [OF this(1) _ this(2)] this(2) show ?thesis
      by (simp add: defs new_shard_def channel_capacity_def)
  qed
  moreover have "engine_step (late_engine 2) (late_engine 3)"
  proof -
    have "en_calls (late_engine 2) 7 =
        Some \<lparr>c_order = sample_order ''b1'' SideBuy 99 4, c_phase = Waiting 0\<rparr>"
      by (simp add: defs AddSymbol_def NewEngine_def start_call_def send_order_def set_phase_def
          set_shard_def sample_order_def)
    from engine_step.expire_waiting [OF this] show ?thesis by (simp add: defs)
  qed
  moreover have "engine_step (late_engine 3) (late_engine 4)"
  proof -
    let ?s = "the (en_heap (late_engine 3) 0)"
    have "en_heap (late_engine 3) 0 \<noteq> None" "sh_running ?s" "sh_todo ?s = []"
      "en_bus (late_engine 3) = False" "\<not> isl (take_order False (\<lambda>_. 0) ?s)"
      by code_simp+
    then obtain s s' where s: "en_heap (late_engine 3) 0 = Some s" "sh_running s" "sh_todo s = []"
      "en_bus (late_engine 3) = False" "take_order False (\<lambda>_. 0) s = Inr s'"
      by (cases "take_order False (\<lambda>_. 0) ?s") auto
    have "engine_step (late_engine 3) (set_shard 0 s' (late_engine 3))"
      using engine_step.take [OF s(1-3), of "\<lambda>_. 0" s'] s(4,5) by simp
    moreover have "late_engine 4 = set_shard 0 s' (late_engine 3)"
      using s(1,5) by (simp add: defs)
    ultimately show ?thesis by simp
  qed
  ultimately show ?thesis by (blast intro: engine_reachable.more)
qed

lemmas late_engine_reachable = late_engine_reachable_2_4 [THEN conjunct2]

theorem engine_safe_witness:
  "\<exists>s. en_heap (late_engine 4) 0 = Some s \<and> book_ok (sh_book s) \<and> sh_sent s = [7] \<and> sh_got s = [7]"
  using engine_safe [OF late_engine_reachable late_engine_states(1)] late_engine_states(1) by simp

text \<open>Every call is answered at most once, and a shard never blocks on an answer: whenever it
  is about to send one, the caller's result channel (capacity one) is empty, and the call is one
  whose message it has taken. A call that still waits to send has no answer.\<close>

theorem answers_once:
  assumes "engine_reachable bus e" "en_heap e sid = Some s" "replies (sh_todo s) \<noteq> []"
  shows "length (replies (sh_todo s)) = 1 \<and> en_answers e (sh_cur s) = None \<and>
    sh_cur s \<in> set (sh_got s) \<and>
    (\<forall>c k sid'. en_calls e c = Some k \<and> c_phase k = Sending sid' \<longrightarrow> en_answers e c = None)"
proof -
  have "calls_inv e" using engine_reachable_inv [OF assms(1)] by (simp add: engine_inv_def)
  then show ?thesis
    using reachable_shard [OF assms(1,2)] assms(3) unfolding shard_inv_def calls_inv_def by auto
qed

theorem answers_once_witness: "en_answers (late_engine 4) 7 = None"
  using answers_once [OF late_engine_reachable late_engine_states(1)] by simp

text \<open>C21. Progress: a running shard that has finished its last message can always take the next one
  in its channel, whatever the callers do.\<close>

theorem shard_progress:
  assumes "engine_reachable bus e" "en_heap e sid = Some s" "sh_running s" "sh_todo s = []"
    "sh_in s = (c, ord) # rest"
  shows "\<exists>e' s'. engine_step e e' \<and> en_heap e' sid = Some s' \<and> sh_in s' = rest \<and>
    sh_got s' = sh_got s @ [c] \<and> length (replies (sh_todo s')) = 1"
proof -
  have inv: "engine_inv e" using engine_reachable_inv [OF assms(1)] .
  obtain s' where s': "take_order (en_bus e) (\<lambda>_. 0) s = Inr s'"
    using take_order_ok [OF inv assms(2,4)] by blast
  obtain book es where p: "processOrder (en_bus e) (\<lambda>_. 0) (sh_book s) ord = Inr (book, es)"
    "s' = s\<lparr>sh_book := book, sh_in := rest, sh_cur := c, sh_todo := es, sh_got := sh_got s @ [c]\<rparr>"
    using s' assms(5) by (auto simp: take_order_def split: sum.splits)
  have "engine_step e (set_shard sid s' e)" by (rule engine_step.take [OF assms(2-4) s'])
  moreover have "length (replies es) = 1" using processOrder_one_reply [OF p(1)] by auto
  ultimately show ?thesis using p(2) by (intro exI [of _ "set_shard sid s' e"] exI [of _ s']) (simp add: set_shard_def)
qed

theorem shard_progress_witness:
  "\<exists>e' s'. engine_step (late_engine 2) e' \<and> en_heap e' 0 = Some s' \<and> sh_got s' = [7]"
proof -
  let ?s = "the (en_heap (late_engine 2) 0)"
  have "en_heap (late_engine 2) 0 \<noteq> None" "sh_running ?s" "sh_todo ?s = []"
    "sh_in ?s = [(7, sample_order ''b1'' SideBuy 99 4)]" "sh_got ?s = []"
    by code_simp+
  then show ?thesis
    using shard_progress [OF late_engine_reachable_2_4 [THEN conjunct1], of 0 ?s] by fastforce
qed

text \<open>The outcome a caller sees is not always the outcome of its order: there is a reachable
  state in which \<open>PlaceOrder\<close> has returned the error of its expired context (the order service
  then releases the funds and marks the order rejected) and the order rests in the book, open.\<close>

theorem expired_call_order_still_live:
  "\<exists>e c k s ord. engine_reachable False e \<and> en_calls e c = Some k \<and> c_phase k = Returned CtxDone \<and>
     place_return symb ctx_err CtxDone = ([], None, Some ctx_err) \<and>
     en_heap e 0 = Some s \<and> GetOrder (sh_book s) (o_OrderID (c_order k)) = Some ord \<and>
     o_Status ord = OrderStatusOpen \<and> 0 < rem ord"
proof -
  let ?o = "sample_order ''b1'' SideBuy 99 4"
  have "GetOrder (fst (addBid (NewOrderBook ''ETH-USDT'') ?o)) (o_OrderID ?o) =
      Some (?o\<lparr>o_Status := OrderStatusOpen\<rparr>)" "0 < rem (?o\<lparr>o_Status := OrderStatusOpen\<rparr>)"
    by code_simp+
  then show ?thesis
    using late_engine_reachable late_engine_states by (fastforce simp: place_return_def)
qed

end
