(* ===== verification/Order_Service.thy ===== *)
theory Order_Service
  imports Order_Validator Order_Repository Order_Lifecycle Engine_Steps
begin

section \<open>The order service (order/service.go)\<close>

text \<open>
  \<open>PlaceOrder\<close>, \<open>CancelOrder\<close> and their helpers, with every early return. The engine is
  seen through the outcome of its two calls: \<open>eng ord\<close> is what \<open>Engine.PlaceOrder\<close>
  returns for the order (theory \<open>Engine_Steps\<close>), \<open>engc symb oid\<close> what
  \<open>Engine.CancelOrder\<close> returns. The handed-back order is read as it is when the answer
  arrives. Identifier and time of a new order are arguments.
\<close>

record OrderService =
  os_validator :: Validator
  os_repo :: bool

definition order_NewService :: "Validator \<Rightarrow> bool \<Rightarrow> OrderService" where
  "order_NewService validator repo = \<lparr>os_validator = validator, os_repo = repo\<rparr>"

record PlaceOrderResponse =
  pr_OrderID :: string
  pr_ClientOrderID :: string
  pr_Status :: OrderStatus
  pr_Matches :: "MatchResult list"
  pr_FilledQty :: decimal

text \<open>Failures of the release are logged and otherwise ignored.\<close>

definition unfreezeBalance ::
  "OrderService \<Rightarrow> string \<Rightarrow> Currency \<Rightarrow> decimal \<Rightarrow> db \<Rightarrow> db" where
  "unfreezeBalance s uid cur amount d =
     (if IsZero amount then d
      else if v_balances (os_validator s) then snd (UnfreezeBalance uid cur amount d)
      else d)"

text \<open>Step 2 of \<open>PlaceOrder\<close>: what to freeze.\<close>

definition freeze_terms ::
  "OrderService \<Rightarrow> PlaceOrderRequest \<Rightarrow> db \<Rightarrow> (Currency \<times> decimal) \<times> db" where
  "freeze_terms s req d =
     (if \<not> v_balances (os_validator s) then (('''', NilDecimal), d)
      else
        (case MarketInfo (os_validator s) (req_Symbol req) of
           None \<Rightarrow> (('''', NilDecimal), d)
         | Some market \<Rightarrow>
             if req_Side req = SideBuy then
               (if req_Type req = OrderTypeLimit \<or> req_Type req = OrderTypeStopLimit then
                  ((mc_QuoteCurrency market, Mul (req_Price req) (req_Quantity req)), d)
                else if req_Type req = OrderTypeMarket then
                  (case GetBalance (req_UserID req) (mc_QuoteCurrency market) d of
                     (Inl _, d') \<Rightarrow> ((mc_QuoteCurrency market, NilDecimal), d')
                   | (Inr bal, d') \<Rightarrow> ((mc_QuoteCurrency market, bal), d'))
                else (('''', NilDecimal), d))
             else ((mc_BaseCurrency market, req_Quantity req), d)))"

text \<open>The freeze itself; the guards are those of the block around it.\<close>

definition freeze_funds ::
  "OrderService \<Rightarrow> PlaceOrderRequest \<Rightarrow> db \<Rightarrow> (error + Currency \<times> decimal) \<times> db" where
  "freeze_funds s req d =
     (case freeze_terms s req d of
        ((cur, amount), d1) \<Rightarrow>
          if v_balances (os_validator s) \<and> MarketInfo (os_validator s) (req_Symbol req) \<noteq> None \<and>
             \<not> IsZero amount
          then (case FreezeBalance (req_UserID req) cur amount d1 of
                  (Inl e, d2) \<Rightarrow> (Inl (WrapBefore ''freeze balance: '' e), d2)
                | (Inr _, d2) \<Rightarrow> (Inr (cur, amount), d2))
          else (Inr (cur, amount), d1))"

definition engine_order :: "string \<Rightarrow> int \<Rightarrow> PlaceOrderRequest \<Rightarrow> Order" where
  "engine_order oid now req =
     \<lparr>o_OrderID = oid, o_UserID = req_UserID req, o_Symbol = req_Symbol req,
      o_Side = req_Side req, o_Type = req_Type req, o_TimeInForce = req_TimeInForce req,
      o_Price = req_Price req, o_StopPrice = req_StopPrice req, o_Quantity = req_Quantity req,
      o_FilledQty = NilDecimal, o_DisplayQty = NilDecimal, o_Timestamp = now,
      o_Status = OrderStatusCreated\<rparr>"

definition stored_order :: "string \<Rightarrow> PlaceOrderRequest \<Rightarrow> StoredOrder" where
  "stored_order oid req =
     \<lparr>so_OrderID = oid, so_ClientOrderID = req_ClientOrderID req, so_UserID = req_UserID req,
      so_Symbol = req_Symbol req, so_Side = req_Side req, so_Type = req_Type req,
      so_TimeInForce = req_TimeInForce req, so_Price = String (req_Price req),
      so_StopPrice = String (req_StopPrice req), so_Quantity = String (req_Quantity req),
      so_FilledQty = ''0'', so_Status = OrderStatusCreated\<rparr>"

text \<open>Step 7: status and filled quantity from the engine's answer.\<close>

definition order_outcome ::
  "PlaceOrderRequest \<Rightarrow> MatchResult list \<Rightarrow> Order option \<Rightarrow> OrderStatus \<times> decimal" where
  "order_outcome req matches remaining =
     (let (status, filled) =
        (if length matches > 0 then
           (case remaining of
              None \<Rightarrow> (OrderStatusFilled, req_Quantity req)
            | Some r \<Rightarrow>
                (if IsFinal (o_Status r) then OrderStatusFilled else OrderStatusPartiallyFilled,
                 Sub (req_Quantity req) (Remaining r)))
         else (OrderStatusOpen, Zero))
      in case remaining of
           Some r \<Rightarrow>
             if o_Status r = OrderStatusCancelled \<or> o_Status r = OrderStatusRejected
             then (o_Status r, filled) else (status, filled)
         | None \<Rightarrow> (status, filled))"

definition release_after ::
  "OrderService \<Rightarrow> PlaceOrderRequest \<Rightarrow> Currency \<Rightarrow> decimal \<Rightarrow> OrderStatus \<Rightarrow> decimal \<Rightarrow> db \<Rightarrow> db" where
  "release_after s req cur amount status filled d =
     (if \<not> IsZero amount \<and> \<not> IsZero filled then
        (if req_Side req = SideBuy then
           unfreezeBalance s (req_UserID req) cur (Mul (req_Price req) filled) d
         else unfreezeBalance s (req_UserID req) cur filled d)
      else if status = OrderStatusCancelled \<or> status = OrderStatusRejected then
        unfreezeBalance s (req_UserID req) cur amount d
      else d)"

definition update_status ::
  "OrderService \<Rightarrow> string \<Rightarrow> OrderStatus \<Rightarrow> decimal \<Rightarrow> db \<Rightarrow> db" where
  "update_status s oid status filled d =
     (if os_repo s then snd (UpdateStatus oid status filled d) else d)"

definition PlaceOrder ::
  "OrderService \<Rightarrow> string \<Rightarrow> int \<Rightarrow> (Order \<Rightarrow> MatchResult list \<times> Order option \<times> error option) \<Rightarrow>
     PlaceOrderRequest \<Rightarrow> db \<Rightarrow> panic + (error + PlaceOrderResponse) \<times> db" where
  "PlaceOrder s oid now eng req0 d =
     (case Validate (os_validator s) req0 d of
        Inl p \<Rightarrow> Inl p
      | Inr (Some e, _, d1) \<Rightarrow> Inr (Inl (WrapBefore ''order validation: '' e), d1)
      | Inr (None, req, d1) \<Rightarrow>
          (case freeze_funds s req d1 of
             (Inl e, d2) \<Rightarrow> Inr (Inl e, d2)
           | (Inr (cur, amount), d2) \<Rightarrow>
               (case (if os_repo s then Create (stored_order oid req) d2 else (Inr (), d2)) of
                  (Inl e, d3) \<Rightarrow>
                    Inr (Inl (WrapBefore ''persist order: '' e),
                         unfreezeBalance s (req_UserID req) cur amount d3)
                | (Inr _, d3) \<Rightarrow>
                    (case eng (engine_order oid now req) of
                       (matches, remaining, Some e) \<Rightarrow>
                         Inr (Inl (WrapBefore ''matching engine: '' e),
                              update_status s oid OrderStatusRejected Zero
                                (unfreezeBalance s (req_UserID req) cur amount d3))
                     | (matches, remaining, None) \<Rightarrow>
                         (case order_outcome req matches remaining of
                            (status, filled) \<Rightarrow>
                              Inr (Inr \<lparr>pr_OrderID = oid, pr_ClientOrderID = req_ClientOrderID req,
                                     pr_Status = status, pr_Matches = matches, pr_FilledQty = filled\<rparr>,
                                   update_status s oid status filled
                                     (release_after s req cur amount status filled d3)))))))"

subsection \<open>Cancelling\<close>

definition unfreezeCancelOrder :: "OrderService \<Rightarrow> StoredOrder \<Rightarrow> db \<Rightarrow> db" where
  "unfreezeCancelOrder s so d =
     (if \<not> v_balances (os_validator s) then d
      else
        (case MarketInfo (os_validator s) (so_Symbol so) of
           None \<Rightarrow> d
         | Some market \<Rightarrow>
             (case (NewFromString (so_Quantity so), NewFromString (so_Price so),
                 NewFromString (so_FilledQty so)) of
                (Inr qty, Inr prc, Inr filled) \<Rightarrow>
                  (let (cur, amount) =
                     (if so_Side so = SideBuy then
                        (if so_Type so \<noteq> OrderTypeMarket then (mc_QuoteCurrency market, Mul prc qty)
                         else ('''', NilDecimal))
                      else (mc_BaseCurrency market, qty))
                   in if IsZero amount then d
                      else if \<not> IsZero filled \<and> so_Side so = SideBuy then
                        (if Cmp (Mul prc filled) amount < 0 then
                           unfreezeBalance s (so_UserID so) cur (Sub amount (Mul prc filled)) d
                         else d)
                      else if \<not> IsZero filled then
                        (if Cmp filled amount < 0 then
                           unfreezeBalance s (so_UserID so) cur (Sub amount filled) d
                         else d)
                      else unfreezeBalance s (so_UserID so) cur amount d)
              | _ \<Rightarrow> d)))"

definition service_CancelOrder ::
  "OrderService \<Rightarrow> (Symbol \<Rightarrow> string \<Rightarrow> error + Order) \<Rightarrow> string \<Rightarrow> Symbol \<Rightarrow> string \<Rightarrow> db \<Rightarrow>
     error option \<times> db" where
  "service_CancelOrder s engc uid symb oid d =
     (if \<not> os_repo s then (Some (Errorf ''order persistence not available''), d)
      else
        (case GetByID oid d of
           (Inl e, d1) \<Rightarrow> (Some e, d1)
         | (Inr so, d1) \<Rightarrow>
             if so_UserID so \<noteq> uid then (Some ErrUnauthorized, d1)
             else if IsFinal (so_Status so) then
               (Some (Errorf (''order '' @ oid @ '' is already in final state: '' @ so_Status so)), d1)
             else if \<not> CanTransition (so_Status so) OrderStatusCancelled then
               (Some (Errorf (''cannot cancel order in status '' @ so_Status so)), d1)
             else
               (case engc symb oid of
                  Inl e \<Rightarrow> (Some e, d1)
                | Inr cancelled \<Rightarrow>
                    (case UpdateStatus oid OrderStatusCancelled Zero (unfreezeCancelOrder s so d1) of
                       (Some e, d2) \<Rightarrow> (Some e, d2)
                     | (None, d2) \<Rightarrow> (None, d2)))))"

definition service_GetOrder :: "OrderService \<Rightarrow> string \<Rightarrow> StoredOrder sql" where
  "service_GetOrder s oid d =
     (if \<not> os_repo s then (Inl (Errorf ''order persistence not available''), d) else GetByID oid d)"

definition service_GetOpenOrders :: "OrderService \<Rightarrow> string \<Rightarrow> string \<Rightarrow> (StoredOrder list) sql" where
  "service_GetOpenOrders s uid symb d =
     (if \<not> os_repo s then (Inl (Errorf ''order persistence not available''), d)
      else GetOpenOrders uid symb d)"

subsection \<open>No operation moves funds between owners\<close>

lemma unfreezeBalance_funds [funds]: "own_funds_only uid d (unfreezeBalance s uid cur amount d)"
  using db_balances.release_funds [of uid cur amount d] own_funds_refl
  by (cases "UnfreezeBalance uid cur amount d") (auto simp: unfreezeBalance_def)

lemma freeze_terms_funds [funds]: "freeze_terms s req d = (t, d') \<Longrightarrow> own_funds_only uid d d'"
  using db_balances.read_funds own_funds_refl
  by (auto simp: freeze_terms_def split: if_splits option.splits prod.splits sum.splits)

lemma freeze_funds_funds [funds]:
  assumes "freeze_funds s req d = (r, d')"
  shows "own_funds_only (req_UserID req) d d'"
proof -
  obtain cur amount d1 where t: "freeze_terms s req d = ((cur, amount), d1)"
    by (metis surj_pair)
  note d1 = freeze_terms_funds [OF t, of "req_UserID req"]
  obtain r2 d2 where f: "FreezeBalance (req_UserID req) cur amount d1 = (r2, d2)" by fastforce
  note d2 = own_funds_trans [OF d1 db_balances.freeze_funds [OF f]]
  have "d' = d1 \<or> d' = d2"
    using assms by (auto simp: freeze_funds_def t f split: if_splits sum.splits)
  with d1 d2 show ?thesis by blast
qed

text \<open>Statements on the orders table.\<close>

lemma Create_accounts: "Create so d = (r, d') \<Longrightarrow> db_accounts d' = db_accounts d"
proof -
  assume a: "Create so d = (r, d')"
  obtain r1 d1 where s: "stmt (insert_order_stmt so) d = (r1, d1)" by fastforce
  have "db_accounts d1 = db_accounts d"
    using s by (cases rule: stmt_cases) (auto simp: insert_order_stmt_def split: sum.splits if_splits)
  with a s show ?thesis by (auto simp: Create_def split: sum.splits)
qed

lemma UpdateStatus_accounts: "UpdateStatus oid st f d = (r, d') \<Longrightarrow> db_accounts d' = db_accounts d"
proof -
  assume a: "UpdateStatus oid st f d = (r, d')"
  obtain r1 d1 where s: "stmt (update_status_stmt oid st (String f)) d = (r1, d1)" by fastforce
  have "db_accounts d1 = db_accounts d"
    using s by (cases rule: stmt_cases) (auto simp: update_status_stmt_def split: sum.splits if_splits)
  with a s show ?thesis by (auto simp: UpdateStatus_def split: sum.splits)
qed

lemma update_status_accounts [simp]: "db_accounts (update_status s oid st f d) = db_accounts d"
  using UpdateStatus_accounts [of oid st f d] by (cases "UpdateStatus oid st f d") (auto simp: update_status_def)

lemma GetByID_tables: "GetByID oid d = (r, d') \<Longrightarrow> \<exists>fs. d' = d\<lparr>db_faults := fs\<rparr>"
proof -
  assume a: "GetByID oid d = (r, d')"
  obtain r1 d1 where s: "stmt (select_order_stmt oid) d = (r1, d1)" by fastforce
  have "\<exists>fs. d1 = d\<lparr>db_faults := fs\<rparr>"
    using s by (cases rule: stmt_cases) (auto simp: select_order_stmt_def)
  with a s show ?thesis by (auto simp: GetByID_def split: sum.splits option.splits)
qed

lemma release_after_funds [funds]:
  "own_funds_only (req_UserID req) d (release_after s req cur amount status filled d)"
  by (simp add: release_after_def funds)

lemma Validate_tables: "Validate v req0 d = Inr (r, req, d') \<Longrightarrow>
    (\<exists>fs. d' = d\<lparr>db_faults := fs\<rparr>) \<and> (req = req0 \<or> req = default_tif req0)"
  using checkBalance_effect
  by (auto simp: Validate_def Let_def intro: exI [of _ "db_faults d"]
      split: option.splits if_splits prod.splits)

text \<open>The accounts between the steps of \<open>PlaceOrder\<close>.\<close>

lemma PlaceOrder_funds:
  assumes "PlaceOrder s oid now eng req0 d = Inr (r, d')"
  shows "own_funds_only (req_UserID req0) d d'"
proof -
  obtain e req d1 where v: "Validate (os_validator s) req0 d = Inr (e, req, d1)"
    using assms by (auto simp: PlaceOrder_def split: sum.splits)
  then have d1: "own_funds_only (req_UserID req0) d d1" and uid: "req_UserID req = req_UserID req0"
    using Validate_tables [OF v] own_funds_refl by auto
  obtain g d2 where f: "freeze_funds s req d1 = (g, d2)" by fastforce
  have d2: "own_funds_only (req_UserID req0) d d2"
    using own_funds_trans [OF d1] freeze_funds_funds [OF f] uid by simp
  obtain c d3 where c: "(if os_repo s then Create (stored_order oid req) d2 else (Inr (), d2)) = (c, d3)"
    by fastforce
  have "db_accounts d3 = db_accounts d2"
    using c Create_accounts by (auto split: if_splits)
  then have d3: "own_funds_only (req_UserID req0) d d3"
    using own_funds_trans [OF d2] own_funds_frame by blast
  have later: "own_funds_only (req_UserID req0) d d4" if "own_funds_only (req_UserID req0) d3 d4" for d4
    using own_funds_trans [OF d3 that] .
  have upd: "own_funds_only u d (update_status s oid st q d4) = own_funds_only u d d4" for u st q d4
    by (simp add: own_funds_only_def owned_def held_def frozen_def)
  show ?thesis
    using assms v f c d1 d2 later unfreezeBalance_funds [of "req_UserID req0" d3 s]
      release_after_funds [of req d3 s] uid
    by (auto simp: PlaceOrder_def upd split: option.splits sum.splits prod.splits)
qed

lemma unfreezeCancelOrder_funds [funds]: "own_funds_only (so_UserID so) d (unfreezeCancelOrder s so d)"
  by (simp add: unfreezeCancelOrder_def Let_def funds split: option.split sum.split prod.split)

lemma service_CancelOrder_funds:
  assumes "service_CancelOrder s engc uid symb oid d = (r, d')"
  shows "own_funds_only uid d d'"
proof (cases "GetByID oid d")
  case (Pair g d1)
  have d1: "own_funds_only uid d d1" using GetByID_tables [OF Pair] own_funds_refl by auto
  have d2: "own_funds_only uid d (unfreezeCancelOrder s so d1)" if "so_UserID so = uid" for so
    using own_funds_trans [OF d1 unfreezeCancelOrder_funds [of so d1 s, unfolded that]] .
  have d3: "own_funds_only uid d d3"
    if "UpdateStatus oid OrderStatusCancelled Zero (unfreezeCancelOrder s so d1) = (e, d3)" "so_UserID so = uid"
    for so e d3
    using own_funds_trans [OF d2 [OF that(2)] own_funds_frame [OF UpdateStatus_accounts [OF that(1)]]] .
  show ?thesis
    using assms Pair d1 d3 own_funds_refl
    by (auto simp: service_CancelOrder_def split: if_splits sum.splits prod.splits option.splits)
qed

subsection \<open>Freezing and releasing without faults\<close>

text \<open>The range and sign conditions the tables satisfy (no column has a negative value).\<close>

definition account_ok :: "account \<Rightarrow> bool" where
  "account_ok a \<longleftrightarrow> 0 \<le> ac_balance a \<and> 0 \<le> ac_frozen a \<and> numeric_ok (ac_balance a) \<and> numeric_ok (ac_frozen a)"

definition accounts_ok :: "db \<Rightarrow> bool" where
  "accounts_ok d \<longleftrightarrow> (\<forall>k a. db_accounts d k = Some a \<longrightarrow> account_ok a)"

lemma freeze_unfreeze:
  assumes "accounts_ok d" "db_faults d = []" "FreezeBalance uid cur amount d = (Inr (), d1)"
    "0 \<le> val amount" "val amount' = val amount"
    "db_accounts d2 = db_accounts d1" "db_faults d2 = []"
  shows "db_accounts (snd (UnfreezeBalance uid cur amount' d2)) = db_accounts d"
proof -
  obtain a where a: "db_accounts d (uid, cur) = Some a"
    "d1 = set_account (uid, cur) (a\<lparr>ac_balance := ac_balance a - val amount,
       ac_frozen := ac_frozen a + val amount\<rparr>) d"
    using assms(2,3) by (auto simp: FreezeBalance_def stmt_def freeze_stmt_def write_account_def
        split: option.splits if_splits)
  have ok: "account_ok a" using assms(1) a(1) by (simp add: accounts_ok_def)
  have "db_accounts d2 (uid, cur) = Some (a\<lparr>ac_balance := ac_balance a - val amount,
       ac_frozen := ac_frozen a + val amount\<rparr>)" using assms(6) a(2) by simp
  then have "db_accounts (snd (UnfreezeBalance uid cur amount' d2)) = (db_accounts d2)((uid, cur) \<mapsto> a)"
    using ok assms(4,5,7)
    by (simp add: UnfreezeBalance_def stmt_def unfreeze_stmt_def write_account_def account_ok_def)
  then show ?thesis using a assms(6) by (simp add: fun_upd_idem)
qed

text \<open>The steps of a \<open>PlaceOrder\<close> that reaches the engine, with no faults and a priced request.\<close>

definition order_cost :: "PlaceOrderRequest \<Rightarrow> decimal" where
  "order_cost req =
     (if req_Side req = SideBuy then Mul (req_Price req) (req_Quantity req) else req_Quantity req)"

definition engine_answer ::
  "(Order \<Rightarrow> MatchResult list \<times> Order option \<times> error option) \<Rightarrow> string \<Rightarrow> int \<Rightarrow> PlaceOrderRequest \<Rightarrow>
     MatchResult list \<times> Order option \<times> error option" where
  "engine_answer eng oid now req = eng (engine_order oid now (default_tif req))"

lemma no_fault_reads:
  assumes "db_faults d = []"
  shows "GetBalance uid cur d = (r, d') \<Longrightarrow> d' = d"
    and "Validate v req d = Inr (e, req', d') \<Longrightarrow> d' = d"
proof -
  show g: "GetBalance uid cur d = (r, d') \<Longrightarrow> d' = d" for uid cur r d'
    using assms by (auto simp: GetBalance_def stmt_def select_account_def split: option.splits sum.splits)
  have c: "checkBalance rq m d = (r, d') \<Longrightarrow> d' = d" for rq m r d'
    by (cases "GetBalance (req_UserID rq) (cost_currency rq m) d")
      (auto simp: checkBalance_def cost_currency_def Let_def dest!: g split: if_splits sum.splits prod.splits)
  show "Validate v req d = Inr (e, req', d') \<Longrightarrow> d' = d"
    by (auto simp: Validate_def Let_def dest!: c split: option.splits if_splits prod.splits)
qed

lemma Create_no_fault: "db_faults d = [] \<Longrightarrow> Create so d = (r, d') \<Longrightarrow> db_faults d' = []"
  by (auto simp: Create_def stmt_def insert_order_stmt_def split: sum.splits if_splits)

lemma FreezeBalance_no_fault: "db_faults d = [] \<Longrightarrow> FreezeBalance uid cur a d = (r, d') \<Longrightarrow> db_faults d' = []"
  by (auto simp: FreezeBalance_def stmt_def freeze_stmt_def write_account_def
      split: sum.splits option.splits if_splits)

lemma PlaceOrder_run:
  assumes "PlaceOrder s oid now eng req0 d = Inr (r, d')" "db_faults d = []"
    "req_Type req0 = OrderTypeLimit" "0 < val (order_cost req0)"
    "r = Inr resp \<or> engine_answer eng oid now req0 = (ms, left, Some e) \<and> r = Inl (WrapBefore ''matching engine: '' e)"
  obtains market d1 d2 where "v_markets (os_validator s) (req_Symbol req0) = Some market"
    "v_balances (os_validator s)"
    "FreezeBalance (req_UserID req0) (cost_currency req0 market) (order_cost req0) d = (Inr (), d1)"
    "db_accounts d2 = db_accounts d1" "db_faults d2 = []"
    "(case engine_answer eng oid now req0 of
        (_, _, Some e) \<Rightarrow> d' = update_status s oid OrderStatusRejected Zero
          (unfreezeBalance s (req_UserID req0) (cost_currency req0 market) (order_cost req0) d2)
      | (ms, left, None) \<Rightarrow>
          (case order_outcome (default_tif req0) ms left of (status, filled) \<Rightarrow>
             r = Inr \<lparr>pr_OrderID = oid, pr_ClientOrderID = req_ClientOrderID req0, pr_Status = status,
                pr_Matches = ms, pr_FilledQty = filled\<rparr> \<and>
             d' = update_status s oid status filled (release_after s (default_tif req0)
                (cost_currency req0 market) (order_cost req0) status filled d2)))"
proof -
  let ?req = "default_tif req0"
  obtain e1 req d0 where v0: "Validate (os_validator s) req0 d = Inr (e1, req, d0)"
    using assms(1) by (auto simp: PlaceOrder_def split: sum.splits)
  have e1: "e1 = None" using assms(1,5) v0 by (auto simp: PlaceOrder_def split: option.splits)
  note v = v0 [unfolded e1]
  have d0: "d0 = d" by (rule no_fault_reads(2) [OF assms(2) v])
  obtain market where m: "v_markets (os_validator s) (req_Symbol req0) = Some market"
    "req = ?req" "v_balances (os_validator s)" "req_Side req0 = SideBuy \<or> req_Side req0 = SideSell"
    by (rule Validate_cases [OF v]) auto
  let ?cur = "cost_currency req0 market"
  have t: "freeze_terms s ?req d = ((?cur, order_cost req0), d)"
    using m assms(3) by (auto simp: freeze_terms_def MarketInfo_def cost_currency_def order_cost_def)
  obtain f d1 where f: "FreezeBalance (req_UserID req0) ?cur (order_cost req0) d = (f, d1)" by fastforce
  have ff: "freeze_funds s ?req d = (case f of Inl e \<Rightarrow> (Inl (WrapBefore ''freeze balance: '' e), d1)
      | Inr _ \<Rightarrow> (Inr (?cur, order_cost req0), d1))"
    using m assms(4) by (simp add: freeze_funds_def t f MarketInfo_def split: sum.splits)
  obtain c d2 where c: "(if os_repo s then Create (stored_order oid ?req) d1 else (Inr (), d1)) = (c, d2)"
    by fastforce
  have fc: "f = Inr () \<and> c = Inr ()"
    using assms(1,5) v m(2) d0 ff c
    by (auto simp: PlaceOrder_def split: sum.splits option.splits prod.splits)
  have d1: "db_faults d1 = []" by (rule FreezeBalance_no_fault [OF assms(2) f])
  have d2: "db_accounts d2 = db_accounts d1" "db_faults d2 = []"
    using c Create_accounts Create_no_fault [OF d1] d1 by (auto split: if_splits)
  show thesis
    by (rule that [OF m(1,3) _ d2])
      (use assms(1) v m(2) d0 ff f c fc in
        \<open>auto simp: PlaceOrder_def engine_answer_def split: option.splits prod.splits\<close>)
qed

subsection \<open>Properties\<close>

text \<open>C14. Placing or cancelling an order never moves funds between accounts: whatever the engine
  answers and whichever statement fails, balance plus frozen funds of every account are as before,
  and no account of another user changes.\<close>

theorem order_ops_move_no_funds:
  "(case PlaceOrder s oid now eng req d of Inl p \<Rightarrow> True
    | Inr (r, d') \<Rightarrow> own_funds_only (req_UserID req) d d') \<and>
   own_funds_only uid d (snd (service_CancelOrder s engc uid symb oid' d))"
proof -
  have "own_funds_only uid d (snd (service_CancelOrder s engc uid symb oid' d))"
    using service_CancelOrder_funds [of s engc uid symb oid' d]
    by (cases "service_CancelOrder s engc uid symb oid' d") auto
  then show ?thesis using PlaceOrder_funds by (auto split: sum.split)
qed

definition default_service :: OrderService where
  "default_service = \<lparr>os_validator = default_validator, os_repo = True\<rparr>"

text \<open>C15. A limit order that the engine rests without a trade reserves exactly its cost: price times
  quantity of the quote currency for a buy, the quantity of the base currency for a sell, moves from
  the available to the frozen balance, and it was available.\<close>

theorem resting_order_reserves_cost:
  assumes "PlaceOrder s oid now eng req d = Inr (Inr resp, d')" "db_faults d = []"
    "req_Type req = OrderTypeLimit" "0 < val (order_cost req)"
    "engine_answer eng oid now req = ([], Some left, None)" "\<not> IsFinal (o_Status left)"
  shows "\<exists>market. v_markets (os_validator s) (req_Symbol req) = Some market \<and>
    (let k = (req_UserID req, cost_currency req market); c = val (order_cost req) in
     c \<le> held d k \<and> held d' k = held d k - c \<and> frozen d' k = frozen d k + c) \<and>
    pr_Status resp = OrderStatusOpen \<and> val (pr_FilledQty resp) = 0"
proof (rule PlaceOrder_run [OF assms(1-4), of resp "[]" None ErrInternalServer])
  show "Inr resp = Inr resp \<or> engine_answer eng oid now req = ([], None, Some ErrInternalServer) \<and>
      Inr resp = Inl (WrapBefore ''matching engine: '' ErrInternalServer)" by simp
next
  fix market d1 d2
  assume r: "v_markets (os_validator s) (req_Symbol req) = Some market"
    "FreezeBalance (req_UserID req) (cost_currency req market) (order_cost req) d = (Inr (), d1)"
    "db_accounts d2 = db_accounts d1"
    "(case engine_answer eng oid now req of
        (_, _, Some e) \<Rightarrow> d' = update_status s oid OrderStatusRejected Zero
          (unfreezeBalance s (req_UserID req) (cost_currency req market) (order_cost req) d2)
      | (ms, left, None) \<Rightarrow>
          (case order_outcome (default_tif req) ms left of (status, filled) \<Rightarrow>
             Inr resp = Inr \<lparr>pr_OrderID = oid, pr_ClientOrderID = req_ClientOrderID req, pr_Status = status,
                pr_Matches = ms, pr_FilledQty = filled\<rparr> \<and>
             d' = update_status s oid status filled (release_after s (default_tif req)
                (cost_currency req market) (order_cost req) status filled d2)))"
  have "order_outcome (default_tif req) [] (Some left) = (OrderStatusOpen, Zero)"
    using assms(6) by (auto simp: order_outcome_def Let_def IsFinal_def)
  with r(4) assms(5) have "db_accounts d' = db_accounts d1"
    "pr_Status resp = OrderStatusOpen" "val (pr_FilledQty resp) = 0"
    by (auto simp: release_after_def r(3))
  moreover have "held d' = held d1" "frozen d' = frozen d1"
    using \<open>db_accounts d' = db_accounts d1\<close> by (simp_all add: held_def frozen_def fun_eq_iff)
  ultimately show ?thesis
    using FreezeBalance_effect [OF r(2)] r(1) by (auto simp: Let_def)
qed



text \<open>The run of a service without faults, for the examples: alice buys 2 ETH at 100.\<close>

definition sample_place ::
  "(Order \<Rightarrow> MatchResult list \<times> Order option \<times> error option) \<Rightarrow> panic + (error + PlaceOrderResponse) \<times> db" where
  "sample_place eng = PlaceOrder default_service ''ord_1'' 0 eng
     (sample_request ''alice'' SideBuy OrderTypeLimit 100 2) sample_db"

definition rest_order :: "Order \<Rightarrow> MatchResult list \<times> Order option \<times> error option" where
  "rest_order ord = ([], Some (ord\<lparr>o_Status := OrderStatusOpen\<rparr>), None)"

definition refuse_order :: "Order \<Rightarrow> MatchResult list \<times> Order option \<times> error option" where
  "refuse_order ord = ([], None, Some ErrInternalServer)"

lemma sample_place_runs:
  "\<exists>resp d'. sample_place rest_order = Inr (Inr resp, d')"
  "\<exists>d'. sample_place refuse_order = Inr (Inl (WrapBefore ''matching engine: '' ErrInternalServer), d')"
proof -
  let ?r = "default_tif (sample_request ''alice'' SideBuy OrderTypeLimit 100 2)"
  have v: "Validate (os_validator default_service) (sample_request ''alice'' SideBuy OrderTypeLimit 100 2) sample_db =
      Inr (None, ?r, sample_db)" using sample_validate by (simp add: default_service_def)
  have f: "\<exists>c a d1. freeze_funds default_service ?r sample_db = (Inr (c, a), d1) \<and>
      db_faults d1 = [] \<and> db_users d1 = [''alice'', ''bob''] \<and> db_orders d1 = []"
    by (simp add: freeze_funds_def freeze_terms_def default_service_def default_validator_def
        NewValidator_def MarketInfo_def default_market_values sample_request_def default_tif_def
        priced_def val_Mul FreezeBalance_def stmt_def freeze_stmt_def sample_db_def empty_db_def
        write_account_def numeric_ok_def)
  then obtain c a d1 where fz: "freeze_funds default_service ?r sample_db = (Inr (c, a), d1)"
    "db_faults d1 = []" "db_users d1 = [''alice'', ''bob'']" "db_orders d1 = []" by blast
  have "NewFromString ''0'' = Inr (Decimal (Some 0))"
    using NewFromString_integer [of "''0''" False] by (simp add: is_digit_def digit_val_def)
  then have "\<exists>d2. Create (stored_order ''ord_1'' ?r) d1 = (Inr (), d2)"
    using fz(2-4)
    by (simp add: Create_def stmt_def insert_order_stmt_def order_row_of_def stored_order_def
        numeric_in_def NewFromString_String sample_request_def default_tif_def priced_def
        numeric_ok_def varchar_ok_def char_count_def One_def)
  then obtain d2 where "Create (stored_order ''ord_1'' ?r) d1 = (Inr (), d2)" by blast
  moreover have "os_repo default_service" by (simp add: default_service_def)
  ultimately have run: "sample_place eng = (case eng (engine_order ''ord_1'' 0 ?r) of
      (ms, left, Some e) \<Rightarrow> Inr (Inl (WrapBefore ''matching engine: '' e),
        update_status default_service ''ord_1'' OrderStatusRejected Zero
          (unfreezeBalance default_service (req_UserID ?r) c a d2))
    | (ms, left, None) \<Rightarrow> (case order_outcome ?r ms left of (status, filled) \<Rightarrow>
        Inr (Inr \<lparr>pr_OrderID = ''ord_1'', pr_ClientOrderID = req_ClientOrderID ?r, pr_Status = status,
            pr_Matches = ms, pr_FilledQty = filled\<rparr>,
          update_status default_service ''ord_1'' status filled
            (release_after default_service ?r c a status filled d2))))" for eng
    using v fz(1) by (simp add: sample_place_def PlaceOrder_def split: prod.split option.split)
  show "\<exists>resp d'. sample_place rest_order = Inr (Inr resp, d')"
    by (simp add: run rest_order_def split: prod.splits)
  show "\<exists>d'. sample_place refuse_order = Inr (Inl (WrapBefore ''matching engine: '' ErrInternalServer), d')"
    by (simp add: run refuse_order_def)
qed

lemma sample_facts:
  "db_faults sample_db = []" "accounts_ok sample_db"
  "req_Type (sample_request ''alice'' SideBuy OrderTypeLimit 100 2) = OrderTypeLimit"
  "val (order_cost (sample_request ''alice'' SideBuy OrderTypeLimit 100 2)) = 200 * tenPow18"
  "0 < val (req_Quantity (sample_request ''alice'' SideBuy OrderTypeLimit 100 2))"
  by (auto simp: sample_db_def empty_db_def accounts_ok_def account_ok_def numeric_ok_def
      sample_request_def order_cost_def val_Mul split: if_splits)

theorem resting_order_reserves_cost_witness:
  "\<exists>resp d'. sample_place rest_order = Inr (Inr resp, d') \<and>
     frozen d' (''alice'', ''USDT'') = 200 * tenPow18 \<and> held d' (''alice'', ''USDT'') = 800 * tenPow18"
proof -
  obtain resp d' where p: "sample_place rest_order = Inr (Inr resp, d')" using sample_place_runs(1) by blast
  have "held sample_db (''alice'', ''USDT'') = 1000 * tenPow18" "frozen sample_db (''alice'', ''USDT'') = 0"
    by (simp_all add: held_def frozen_def sample_db_def)
  moreover have "cost_currency (sample_request ''alice'' SideBuy OrderTypeLimit 100 2) market = ''USDT'' \<and>
      req_UserID (sample_request ''alice'' SideBuy OrderTypeLimit 100 2) = ''alice''"
    if "v_markets (os_validator default_service)
      (req_Symbol (sample_request ''alice'' SideBuy OrderTypeLimit 100 2)) = Some market" for market
    using that by (auto simp: cost_currency_def default_service_def default_validator_def NewValidator_def
        default_market_def sample_request_def split: if_splits)
  ultimately show ?thesis
    using resting_order_reserves_cost [OF p [unfolded sample_place_def] sample_facts(1,3), unfolded sample_facts(4),
        of "engine_order ''ord_1'' 0 (default_tif (sample_request ''alice'' SideBuy OrderTypeLimit 100 2))
          \<lparr>o_Status := OrderStatusOpen\<rparr>"] p
    by (fastforce simp: engine_answer_def rest_order_def IsFinal_def Let_def)
qed


definition sample_order_db :: db where
  "sample_order_db = sample_db\<lparr>db_orders := [\<lparr>r_order_id = ''ord_1'', r_client_order_id = '''',
     r_user_id = ''alice'', r_symbol = ''ETH-USDT'', r_side = SideBuy, r_type = OrderTypeLimit,
     r_time_in_force = TIF_GTC, r_price = 100 * tenPow18, r_stop_price = 0, r_quantity = 2 * tenPow18,
     r_filled_qty = 0, r_status = OrderStatusOpen\<rparr>]\<rparr>"


text \<open>What a cancel releases does not depend on the engine: for a limit buy stored with no fill (the
  filled quantity is written once, when the order is placed), the whole cost is released, whatever
  part of the order the engine reports as traded since.\<close>

theorem cancel_releases_whole_cost:
  assumes "os_repo s" "v_balances (os_validator s)" "db_faults d = []"
    "GetByID oid d = (Inr (stored_of_row row), d)" "r_user_id row = uid"
    "CanTransition (r_status row) OrderStatusCancelled" "\<not> IsFinal (r_status row)"
    "r_side row = SideBuy" "r_type row = OrderTypeLimit" "r_filled_qty row = 0"
    "v_markets (os_validator s) (r_symbol row) = Some market"
    "cost = (r_price row * r_quantity row) div tenPow18" "0 < cost"
    "cost \<le> frozen d (uid, mc_QuoteCurrency market)"
    "numeric_ok (held d (uid, mc_QuoteCurrency market) + cost)"
    "numeric_ok (frozen d (uid, mc_QuoteCurrency market) - cost)"
    "engc symb oid = Inr c"
  shows "held (snd (service_CancelOrder s engc uid symb oid d)) (uid, mc_QuoteCurrency market) =
    held d (uid, mc_QuoteCurrency market) + cost"
proof -
  let ?k = "(uid, mc_QuoteCurrency market)"
  let ?so = "stored_of_row row"
  obtain a where a: "db_accounts d ?k = Some a"
    using assms(13,14) by (cases "db_accounts d ?k") (auto simp: frozen_def)
  let ?cost = "Mul (Decimal (Some (r_price row))) (Decimal (Some (r_quantity row)))"
  have vc: "val ?cost = cost" using assms(12) by (simp add: val_Mul)
  have "UnfreezeBalance uid (mc_QuoteCurrency market) ?cost d =
      (Inr (), set_account ?k (a\<lparr>ac_balance := ac_balance a + cost, ac_frozen := ac_frozen a - cost\<rparr>) d)"
    using a vc assms(3,14-16)
    by (simp add: UnfreezeBalance_def stmt_def unfreeze_stmt_def write_account_def held_def frozen_def)
  moreover have "unfreezeCancelOrder s ?so d = unfreezeBalance s uid (mc_QuoteCurrency market) ?cost d"
    using assms(2,5,8-11) vc assms(13)
    by (simp add: unfreezeCancelOrder_def stored_of_row_def NewFromString_numeric_text MarketInfo_def)
  ultimately have "held (unfreezeCancelOrder s ?so d) ?k = held d ?k + cost"
    using assms(2,13) vc a by (simp add: unfreezeBalance_def held_def)
  moreover have "db_accounts (snd (service_CancelOrder s engc uid symb oid d)) =
      db_accounts (unfreezeCancelOrder s ?so d)"
    using assms(1,4-7,17) UpdateStatus_accounts [of oid OrderStatusCancelled Zero "unfreezeCancelOrder s ?so d"]
    by (auto simp: service_CancelOrder_def stored_of_row_def split: prod.splits option.splits)
  ultimately show ?thesis by (simp add: held_def)
qed

definition sample_reserved_db :: db where
  "sample_reserved_db = set_account (''alice'', ''USDT'')
     \<lparr>ac_balance = 800 * tenPow18, ac_frozen = 200 * tenPow18, ac_version = 1\<rparr> sample_order_db"

theorem cancel_releases_whole_cost_witness:
  "held (snd (service_CancelOrder default_service
      (\<lambda>_ _. Inr (sample_order ''ord_1'' SideBuy 100 2\<lparr>o_FilledQty := One\<rparr>)) ''alice'' ''ETH-USDT''
      ''ord_1'' sample_reserved_db)) (''alice'', ''USDT'') = 1000 * tenPow18"
proof -
  let ?row = "hd (db_orders sample_reserved_db)"
  have g: "GetByID ''ord_1'' sample_reserved_db = (Inr (stored_of_row ?row), sample_reserved_db)"
    by (simp add: GetByID_def stmt_def select_order_stmt_def sample_reserved_db_def sample_order_db_def
        sample_db_def empty_db_def)
  have m: "v_markets (os_validator default_service) (r_symbol ?row) = Some default_market"
    "mc_QuoteCurrency default_market = ''USDT''" "os_repo default_service"
    "v_balances (os_validator default_service)"
    by (simp_all add: default_service_def default_validator_def NewValidator_def default_market_def
        sample_reserved_db_def sample_order_db_def)
  have r: "r_user_id ?row = ''alice''" "r_side ?row = SideBuy" "r_type ?row = OrderTypeLimit"
    "r_filled_qty ?row = 0" "r_status ?row = OrderStatusOpen" "r_price ?row = 100 * tenPow18"
    "r_quantity ?row = 2 * tenPow18" "db_faults sample_reserved_db = []"
    "held sample_reserved_db (''alice'', ''USDT'') = 800 * tenPow18"
    "frozen sample_reserved_db (''alice'', ''USDT'') = 200 * tenPow18"
    by (simp_all add: sample_reserved_db_def sample_order_db_def sample_db_def empty_db_def held_def frozen_def)
  have t: "CanTransition OrderStatusOpen OrderStatusCancelled" "\<not> IsFinal OrderStatusOpen" by code_simp+
  show ?thesis
    using cancel_releases_whole_cost [OF m(3,4) r(8) g r(1), of default_market "200 * tenPow18"
        "\<lambda>_ _. Inr (sample_order ''ord_1'' SideBuy 100 2\<lparr>o_FilledQty := One\<rparr>)" "''ETH-USDT''"] m(1,2) r t
    by (simp add: numeric_ok_def)
qed

text \<open>The price of a stop-limit buy is not checked for its sign: when a request with a negative
  cost passes validation, the freeze succeeds by raising the available balance by that cost and
  taking it from the frozen funds, which may become negative.\<close>

theorem negative_cost_freeze_credits:
  assumes "Validate (os_validator s) req0 d = Inr (None, req, d1)"
    "req_Side req0 = SideBuy" "req_Type req0 = OrderTypeStopLimit"
    "val (order_cost req0) < 0" "freeze_funds s req d1 = (Inr (cur, amount), d2)"
  shows "\<exists>market. v_markets (os_validator s) (req_Symbol req0) = Some market \<and>
    cur = mc_QuoteCurrency market \<and> val amount = val (order_cost req0) \<and>
    held d2 (req_UserID req0, cur) = held d (req_UserID req0, cur) + \<bar>val (order_cost req0)\<bar> \<and>
    frozen d2 (req_UserID req0, cur) = frozen d (req_UserID req0, cur) - \<bar>val (order_cost req0)\<bar>"
proof (rule Validate_cases [OF assms(1)])
  fix market
  assume m: "v_markets (os_validator s) (req_Symbol req0) = Some market" "req = default_tif req0"
    "v_balances (os_validator s)"
  have same: "held d1 = held d" "frozen d1 = frozen d"
    using Validate_tables [OF assms(1)] by auto
  have t: "freeze_terms s (default_tif req0) d1 = ((mc_QuoteCurrency market, order_cost req0), d1)"
    using m assms(2,3) by (simp add: freeze_terms_def MarketInfo_def order_cost_def)
  obtain f d3 where f: "FreezeBalance (req_UserID req0) (mc_QuoteCurrency market) (order_cost req0) d1 = (f, d3)"
    by fastforce
  have "f = Inr ()" "cur = mc_QuoteCurrency market" "amount = order_cost req0" "d2 = d3"
    using assms(4,5) m by (auto simp: freeze_funds_def t f MarketInfo_def split: sum.splits)
  with FreezeBalance_effect [OF f] m(1) same assms(4) show ?thesis by simp
qed

lemma sample_negative_validate:
  "Validate default_validator (sample_request ''alice'' SideBuy OrderTypeStopLimit (-100) 2) sample_db =
     Inr (None, default_tif (sample_request ''alice'' SideBuy OrderTypeStopLimit (-100) 2), sample_db)"
proof -
  let ?r = "sample_request ''alice'' SideBuy OrderTypeStopLimit (-100) 2"
  have b: "checkBalance (default_tif ?r) default_market sample_db = (None, sample_db)"
    by (simp add: checkBalance_def sample_request_def default_market_values GetBalance_def stmt_def
        sample_db_def empty_db_def select_account_def NewFromString_numeric_text Let_def
        val_Mul default_tif_def priced_def)
  have t: "check_terms (default_tif ?r) default_market = None"
    by (auto simp: check_terms_None default_market_values sample_request_def val_Mul
        default_tif_def priced_def)
  have f: "v_markets default_validator (req_Symbol ?r) = Some default_market"
    "mc_Status default_market = ''active''" "req_Side ?r = SideBuy" "validateOrderType ?r = None"
    "v_balances default_validator" "v_rateLimiter default_validator = None"
    by (simp_all add: default_validator_def NewValidator_def default_market_values sample_request_def
        validateOrderType_def One_def)
  show ?thesis by (simp add: Validate_def f t b)
qed

theorem negative_cost_freeze_credits_witness:
  "\<exists>cur amount d2. freeze_funds default_service
       (default_tif (sample_request ''alice'' SideBuy OrderTypeStopLimit (-100) 2)) sample_db =
         (Inr (cur, amount), d2) \<and>
     held d2 (''alice'', cur) = held sample_db (''alice'', cur) + 200 * tenPow18"
proof -
  let ?r = "sample_request ''alice'' SideBuy OrderTypeStopLimit (-100) 2"
  have v: "Validate (os_validator default_service) ?r sample_db = Inr (None, default_tif ?r, sample_db)"
    using sample_negative_validate by (simp add: default_service_def)
  have s: "req_Side ?r = SideBuy" "req_Type ?r = OrderTypeStopLimit" "req_UserID ?r = ''alice''"
    "val (order_cost ?r) = - 200 * tenPow18"
    by (simp_all add: sample_request_def order_cost_def val_Mul)
  have "\<exists>c a d2. freeze_funds default_service (default_tif ?r) sample_db = (Inr (c, a), d2)"
    by (simp add: freeze_funds_def freeze_terms_def default_service_def default_validator_def
        NewValidator_def MarketInfo_def default_market_values sample_request_def default_tif_def
        priced_def val_Mul FreezeBalance_def stmt_def freeze_stmt_def sample_db_def empty_db_def
        write_account_def numeric_ok_def)
  then obtain c a d2 where f: "freeze_funds default_service (default_tif ?r) sample_db = (Inr (c, a), d2)"
    by blast
  show ?thesis
    using negative_cost_freeze_credits [OF v s(1,2) _ f] f s(3,4) by auto
qed

end
