(* ===== verification/Settlement.thy ===== *)
theory Settlement
  imports Order_Balances Engine
begin

section \<open>Fees and settlement of trades (internal/settlement)\<close>

text \<open>
  The fee service, and \<open>SettleTrade\<close> with its transaction: five balance updates, the trade
  row, commit, four events. The statement of \<open>insertTrade\<close> has its \<open>ON CONFLICT\<close>
  clause before \<open>VALUES\<close>, which is not the statement's grammar; what the database makes of
  it is the parameter \<open>ins\<close>, and the properties say what they need of it. Times and event
  identifiers are left out.
\<close>

subsection \<open>Fees (fees.go)\<close>

text \<open>The volumes of the tiers are float64 constants that are whole numbers.\<close>

record FeeTier =
  ft_TierName :: string
  ft_MinVolume :: int
  ft_MakerFee :: decimal
  ft_TakerFee :: decimal

definition DefaultFeeTiers :: "FeeTier list" where
  "DefaultFeeTiers =
    [\<lparr>ft_TierName = '''', ft_MinVolume = 0, ft_MakerFee = decimalMust ''0.0010'', ft_TakerFee = decimalMust ''0.0010''\<rparr>,
     \<lparr>ft_TierName = '''', ft_MinVolume = 50000, ft_MakerFee = decimalMust ''0.0008'', ft_TakerFee = decimalMust ''0.0009''\<rparr>,
     \<lparr>ft_TierName = '''', ft_MinVolume = 500000, ft_MakerFee = decimalMust ''0.0005'', ft_TakerFee = decimalMust ''0.00075''\<rparr>,
     \<lparr>ft_TierName = '''', ft_MinVolume = 5000000, ft_MakerFee = decimalMust ''0.0002'', ft_TakerFee = decimalMust ''0.0006''\<rparr>,
     \<lparr>ft_TierName = '''', ft_MinVolume = 50000000, ft_MakerFee = decimalMust ''0.0000'', ft_TakerFee = decimalMust ''0.0005''\<rparr>]"

record FeeService =
  fs_tiers :: "FeeTier list"

text \<open>A nil slice of tiers is \<open>None\<close>.\<close>

definition NewFeeService :: "FeeTier list option \<Rightarrow> FeeService" where
  "NewFeeService tiers = \<lparr>fs_tiers = (case tiers of None \<Rightarrow> DefaultFeeTiers | Some ts \<Rightarrow> ts)\<rparr>"

definition getTier :: "FeeService \<Rightarrow> string \<Rightarrow> panic + FeeTier" where
  "getTier fsv uid = (case fs_tiers fsv of [] \<Rightarrow> Inl IndexOutOfRange | t # _ \<Rightarrow> Inr t)"

definition CalculateFee :: "FeeService \<Rightarrow> string \<Rightarrow> bool \<Rightarrow> decimal \<Rightarrow> panic + decimal" where
  "CalculateFee fsv uid isMaker volume =
     (case getTier fsv uid of
        Inl p \<Rightarrow> Inl p
      | Inr tier \<Rightarrow> Inr (Mul volume (if isMaker then ft_MakerFee tier else ft_TakerFee tier)))"

definition GetMakerFee :: "FeeService \<Rightarrow> string \<Rightarrow> panic + decimal" where
  "GetMakerFee fsv uid = map_sum id ft_MakerFee (getTier fsv uid)"

definition GetTakerFee :: "FeeService \<Rightarrow> string \<Rightarrow> panic + decimal" where
  "GetTakerFee fsv uid = map_sum id ft_TakerFee (getTier fsv uid)"

subsection \<open>One balance update\<close>

definition update_balance_stmt ::
  "string \<Rightarrow> Currency \<Rightarrow> int \<Rightarrow> int \<Rightarrow> int \<Rightarrow> int sql" where
  "update_balance_stmt uid cur new version adj d =
     (case db_accounts d (uid, cur) of
        None \<Rightarrow> (Inr 0, d)
      | Some a \<Rightarrow>
          if ac_version a \<noteq> version then (Inr 0, d)
          else if ac_version a + 1 \<ge> 2 ^ 63 then (Inl (pg_error ''bigint out of range''), d)
          else write_account (uid, cur)
            \<lparr>ac_balance = new, ac_frozen = max (ac_frozen a + adj) 0, ac_version = ac_version a + 1\<rparr> d)"

text \<open>The arrow of an error text, in UTF-8 between blanks.\<close>

definition utf8_arrow :: string where
  "utf8_arrow = [CHR '' '', CHR 0xE2, CHR 0x86, CHR 0x92, CHR '' '']"

text \<open>
  The result of the first statement is ignored by the code, and so is that of the last; an error of
  either still aborts the transaction.
\<close>

definition updateBalance :: "string \<Rightarrow> Currency \<Rightarrow> decimal \<Rightarrow> tx \<Rightarrow> error option \<times> tx" where
  "updateBalance uid cur delta t =
     (let (_, t1) = in_tx (stmt (insert_account uid cur \<lparr>ac_balance = 0, ac_frozen = 0, ac_version = 1\<rparr>)) t;
          (r, t2) = in_tx (stmt (select_account uid cur)) t1;
          got = (case r of Inl e \<Rightarrow> Inl e
             | Inr a \<Rightarrow> (case Scan id NilDecimal (SrcString (numeric_text (ac_balance a))) of
                 (Some e, _) \<Rightarrow> Inl e | (None, b) \<Rightarrow> Inr (b, ac_version a)))
      in case got of
           Inl e \<Rightarrow> (Some (WrapBefore (''get balance for '' @ uid @ ''/'' @ cur @ '': '') e), t2)
         | Inr (currentBalance, currentVersion) \<Rightarrow>
             (let newBalance = Add currentBalance delta in
              if IsNegative newBalance then
                (Some (WrapAfter ErrInsufficientBalance ('': would go negative ('' @ String currentBalance @
                   utf8_arrow @ String newBalance @ '')'')), t2)
              else
                (let adj = (if IsNegative delta then delta else Zero) in
                 case in_tx (stmt (update_balance_stmt uid cur (val newBalance) currentVersion (val adj))) t2 of
                   (Inl e, t3) \<Rightarrow> (Some (WrapBefore ''update balance: '' e), t3)
                 | (Inr n, t3) \<Rightarrow>
                     if n = 0 then
                       (Some (Errorf (''balance update conflict for '' @ uid @ ''/'' @ cur)), t3)
                     else
                       (None, snd (in_tx (stmt (insert_audit
                          \<lparr>au_user_id = uid, au_currency = cur, au_type = ''trade_fill'',
                           au_amount = val delta, au_before = val currentBalance,
                           au_after = val newBalance\<rparr>)) t3)))))"

text \<open>The calls in a row, each with the text its error is wrapped in.\<close>

fun update_balances ::
  "(string \<times> string \<times> Currency \<times> decimal) list \<Rightarrow> tx \<Rightarrow> error option \<times> tx" where
  "update_balances [] t = (None, t)"
| "update_balances ((label, uid, cur, delta) # us) t =
     (case updateBalance uid cur delta t of
        (Some e, t') \<Rightarrow> (Some (WrapBefore label e), t')
      | (None, t') \<Rightarrow> update_balances us t')"

subsection \<open>Settling a trade\<close>

definition trade_id :: "MatchResult \<Rightarrow> string" where
  "trade_id m = ''trd_'' @ m_MakerOrderID m @ ''_'' @ m_TakerOrderID m"

definition minus_one :: decimal where "minus_one = NewFromInt64 (-1)"

text \<open>Base and quote change of the taker, base and quote change of the maker.\<close>

definition settle_deltas ::
  "MatchResult \<Rightarrow> decimal \<Rightarrow> decimal \<Rightarrow> decimal \<times> decimal \<times> decimal \<times> decimal" where
  "settle_deltas m makerFee takerFee =
     (if m_TakerSide m = SideBuy then
        (m_Quantity m, Mul (Add (m_QuoteQty m) takerFee) minus_one,
         Mul (m_Quantity m) minus_one, Sub (m_QuoteQty m) makerFee)
      else
        (Mul (m_Quantity m) minus_one, Sub (m_QuoteQty m) takerFee,
         m_Quantity m, Mul (Add (m_QuoteQty m) makerFee) minus_one))"

definition feeAccountID :: string where
  "feeAccountID = ''00000000-0000-0000-0000-000000000000''"

definition settle_updates ::
  "MatchResult \<Rightarrow> decimal \<Rightarrow> decimal \<Rightarrow> (string \<times> string \<times> Currency \<times> decimal) list" where
  "settle_updates m makerFee takerFee =
     (case settle_deltas m makerFee takerFee of
        (takerBase, takerQuote, makerBase, makerQuote) \<Rightarrow>
          [(''update taker base balance: '', m_TakerUserID m, Base (m_Symbol m), takerBase),
           (''update taker quote balance: '', m_TakerUserID m, Quote (m_Symbol m), takerQuote),
           (''update maker base balance: '', m_MakerUserID m, Base (m_Symbol m), makerBase),
           (''update maker quote balance: '', m_MakerUserID m, Quote (m_Symbol m), makerQuote),
           (''collect exchange fees: '', feeAccountID, Quote (m_Symbol m), Add makerFee takerFee)])"

definition trade_row_of :: "MatchResult \<Rightarrow> decimal \<Rightarrow> decimal \<Rightarrow> trade_row" where
  "trade_row_of m makerFee takerFee =
     \<lparr>t_trade_id = trade_id m, t_symbol = m_Symbol m, t_price = val (m_Price m),
      t_quantity = val (m_Quantity m), t_quote = val (m_QuoteQty m),
      t_maker_fee = val makerFee, t_taker_fee = val takerFee\<rparr>"

definition emitBalanceChanged ::
  "bool \<Rightarrow> string \<Rightarrow> Currency \<Rightarrow> decimal \<Rightarrow> string \<Rightarrow> (string \<times> EventType \<times> json_object) list" where
  "emitBalanceChanged bus uid cur delta tradeID =
     (if \<not> bus then []
      else [(''balance.changed'', EventBalanceChanged, marshal_BalanceChanged
        \<lparr>bcp_UserID = uid, bcp_Currency = cur, bcp_Amount = String delta, bcp_NewBalance = '''',
         bcp_Reason = ''trade'', bcp_Reference = tradeID\<rparr>)])"

definition settle_events ::
  "bool \<Rightarrow> MatchResult \<Rightarrow> decimal \<Rightarrow> decimal \<Rightarrow> (string \<times> EventType \<times> json_object) list" where
  "settle_events bus m makerFee takerFee =
     (case settle_deltas m makerFee takerFee of
        (takerBase, takerQuote, makerBase, makerQuote) \<Rightarrow>
          emitBalanceChanged bus (m_MakerUserID m) (Base (m_Symbol m)) makerBase (trade_id m) @
          emitBalanceChanged bus (m_MakerUserID m) (Quote (m_Symbol m)) makerQuote (trade_id m) @
          emitBalanceChanged bus (m_TakerUserID m) (Base (m_Symbol m)) takerBase (trade_id m) @
          emitBalanceChanged bus (m_TakerUserID m) (Quote (m_Symbol m)) takerQuote (trade_id m))"

definition SettleTrade ::
  "(trade_row \<Rightarrow> unit sql) \<Rightarrow> bool \<Rightarrow> FeeService \<Rightarrow> MatchResult \<Rightarrow> db \<Rightarrow>
     panic + error option \<times> db \<times> (string \<times> EventType \<times> json_object) list" where
  "SettleTrade ins bus fsv m d =
     (case begin_tx d of
        (Inl e, d') \<Rightarrow> Inr (Some (WrapBefore ''begin tx: '' e), d', [])
      | (Inr t, _) \<Rightarrow>
          (case CalculateFee fsv (m_MakerUserID m) True (m_QuoteQty m) of
             Inl p \<Rightarrow> Inl p
           | Inr makerFee \<Rightarrow>
               (case CalculateFee fsv (m_TakerUserID m) False (m_QuoteQty m) of
                  Inl p \<Rightarrow> Inl p
                | Inr takerFee \<Rightarrow>
                    (case update_balances (settle_updates m makerFee takerFee) t of
                       (Some e, t1) \<Rightarrow> Inr (Some e, rollback d t1, [])
                     | (None, t1) \<Rightarrow>
                         (case in_tx (stmt (ins (trade_row_of m makerFee takerFee))) t1 of
                            (Inl e, t2) \<Rightarrow>
                              Inr (Some (WrapBefore ''insert trade: '' e), rollback d t2, [])
                          | (Inr _, t2) \<Rightarrow>
                              (case commit d t2 of
                                 (Some e, d') \<Rightarrow> Inr (Some (WrapBefore ''commit settlement: '' e), d', [])
                               | (None, d') \<Rightarrow> Inr (None, d', settle_events bus m makerFee takerFee)))))))"

text \<open>The handler \<open>Start\<close> subscribes to \<open>trade.executed\<close>.\<close>

definition match_of_payload :: "TradeExecutedPayload \<Rightarrow> MatchResult" where
  "match_of_payload p =
     \<lparr>m_TakerOrderID = tep_TakerOrderID p, m_MakerOrderID = tep_MakerOrderID p,
      m_TakerUserID = tep_TakerUserID p, m_MakerUserID = tep_MakerUserID p,
      m_Symbol = tep_Symbol p, m_Price = decimalMust (tep_Price p),
      m_Quantity = decimalMust (tep_Quantity p), m_QuoteQty = decimalMust (tep_QuoteQty p),
      m_TakerSide = tep_TakerSide p, m_Timestamp = 0\<rparr>"

definition trade_handler ::
  "(trade_row \<Rightarrow> unit sql) \<Rightarrow> bool \<Rightarrow> FeeService \<Rightarrow> json_object \<Rightarrow> db \<Rightarrow>
     panic + error option \<times> db \<times> (string \<times> EventType \<times> json_object) list" where
  "trade_handler ins bus fsv ev d =
     (case unmarshal_TradeExecuted ev of
        Inl e \<Rightarrow> Inr (Some (WrapBefore ''unmarshal trade payload: '' e), d, [])
      | Inr p \<Rightarrow> SettleTrade ins bus fsv (match_of_payload p) d)"

subsection \<open>The effect of the balance updates\<close>

text \<open>What a list of updates adds to an account, and what it leaves of its frozen funds.\<close>

definition delta_on :: "(string \<times> string \<times> Currency \<times> decimal) list \<Rightarrow> string \<times> string \<Rightarrow> int" where
  "delta_on us k = (\<Sum>(_, uid, cur, dl)\<leftarrow>us. if (uid, cur) = k then val dl else 0)"

definition frozen_after :: "(string \<times> string \<times> Currency \<times> decimal) list \<Rightarrow> string \<times> string \<Rightarrow> int \<Rightarrow> int" where
  "frozen_after us k = fold (\<lambda>(_, uid, cur, dl) f.
     if (uid, cur) = k then max (f + min (val dl) 0) 0 else f) us"

lemma delta_on_simps [simp]:
  "delta_on [] k = 0"
  "delta_on ((label, uid, cur, dl) # us) k = (if (uid, cur) = k then val dl else 0) + delta_on us k"
  by (simp_all add: delta_on_def)

lemma frozen_after_simps [simp]:
  "frozen_after [] k f = f"
  "frozen_after ((label, uid, cur, dl) # us) k f =
     frozen_after us k (if (uid, cur) = k then max (f + min (val dl) 0) 0 else f)"
  by (simp_all add: frozen_after_def)

text \<open>The tables a settlement may change: accounts, the audit and the trades.\<close>

definition books_only :: "db \<Rightarrow> db \<Rightarrow> bool" where
  "books_only d d' \<longleftrightarrow> db_users d' = db_users d \<and> db_orders d' = db_orders d \<and>
     db_addresses d' = db_addresses d \<and> db_deposits d' = db_deposits d \<and>
     db_withdrawals d' = db_withdrawals d"

lemma books_only_trans: "books_only d1 d2 \<Longrightarrow> books_only d2 d3 \<Longrightarrow> books_only d1 d3"
  by (simp add: books_only_def)

lemma books_only_set_account [simp]: "books_only d (set_account k a d)"
  by (simp add: books_only_def)

lemma write_account_effect:
  assumes "write_account k a d = (Inr n, d')"
  shows "held d' = (held d)(k := ac_balance a) \<and> frozen d' = (frozen d)(k := ac_frozen a) \<and> books_only d d'"
  using assms by (auto simp: write_account_def held_set_account frozen_set_account split: if_splits)

lemma insert_account_effect:
  assumes "insert_account uid cur \<lparr>ac_balance = 0, ac_frozen = 0, ac_version = 1\<rparr> d = (Inr n, d')"
  shows "held d' = held d \<and> frozen d' = frozen d \<and> books_only d d'"
proof (cases "db_accounts d (uid, cur) = None")
  case True
  then have "held d (uid, cur) = 0" "frozen d (uid, cur) = 0" by (simp_all add: held_def frozen_def)
  moreover have "write_account (uid, cur) \<lparr>ac_balance = 0, ac_frozen = 0, ac_version = 1\<rparr> d = (Inr n, d')"
    using assms True by (simp add: insert_account_def split: if_splits)
  ultimately show ?thesis using write_account_effect fun_upd_triv by (metis account.select_convs(1,2))
next
  case False
  with assms show ?thesis by (auto simp: insert_account_def books_only_def split: if_splits)
qed

lemma update_balance_stmt_effect:
  assumes "update_balance_stmt uid cur new version adj d = (Inr n, d')" "n \<noteq> 0"
  shows "held d' = (held d)((uid, cur) := new) \<and>
    frozen d' = (frozen d)((uid, cur) := max (frozen d (uid, cur) + adj) 0) \<and> books_only d d'"
proof -
  obtain a where a: "db_accounts d (uid, cur) = Some a"
    "write_account (uid, cur) \<lparr>ac_balance = new, ac_frozen = max (ac_frozen a + adj) 0,
       ac_version = ac_version a + 1\<rparr> d = (Inr n, d')"
    using assms by (simp add: update_balance_stmt_def split: option.splits if_splits)
  then have "frozen d (uid, cur) = ac_frozen a" by (simp add: frozen_def)
  with write_account_effect [OF a(2)] show ?thesis by simp
qed

lemma insert_audit_effect:
  "insert_audit r d = (Inr n, d') \<Longrightarrow> held d' = held d \<and> frozen d' = frozen d \<and> books_only d d'"
  by (auto simp: insert_audit_def held_def frozen_def books_only_def fun_eq_iff split: if_splits)

definition moved :: "(string \<times> string \<times> Currency \<times> decimal) list \<Rightarrow> db \<Rightarrow> db \<Rightarrow> bool" where
  "moved us d d' \<longleftrightarrow> (\<forall>k. held d' k = held d k + delta_on us k) \<and>
     (\<forall>k. frozen d' k = frozen_after us k (frozen d k)) \<and>
     (\<forall>(l, uid, cur, dl)\<in>set us. 0 \<le> held d' (uid, cur)) \<and>
     (\<forall>k. 0 \<le> held d k \<longrightarrow> 0 \<le> held d' k) \<and> books_only d d'"

lemma updateBalance_effect:
  assumes "updateBalance uid cur delta t = (None, t')" "\<not> tx_aborted t'"
  shows "\<not> tx_aborted t \<and> moved [(label, uid, cur, delta)] (tx_db t) (tx_db t')"
proof -
  let ?zero = "\<lparr>ac_balance = 0, ac_frozen = 0, ac_version = 1\<rparr>"
  obtain r1 t1 where 1: "in_tx (stmt (insert_account uid cur ?zero)) t = (r1, t1)" by fastforce
  obtain r2 t2 where 2: "in_tx (stmt (select_account uid cur)) t1 = (r2, t2)" by fastforce
  obtain a where a: "r2 = Inr a" using assms(1) 1 2
    by (cases r2) (auto simp: updateBalance_def Let_def)
  let ?b = "Decimal (Some (ac_balance a))"
  let ?adj = "if IsNegative delta then delta else Zero"
  obtain r3 t3 where 3: "in_tx (stmt (update_balance_stmt uid cur (val (Add ?b delta)) (ac_version a)
      (val ?adj))) t2 = (r3, t3)" by fastforce
  have nn: "0 \<le> ac_balance a + val delta"
    and "\<exists>n. r3 = Inr n \<and> n \<noteq> 0"
    and 4: "t' = snd (in_tx (stmt (insert_audit
        \<lparr>au_user_id = uid, au_currency = cur, au_type = ''trade_fill'',
         au_amount = val delta, au_before = val ?b, au_after = val (Add ?b delta)\<rparr>)) t3)"
    using assms(1) 1 2 3 a
    by (auto simp: updateBalance_def Let_def Scan_def NewFromString_numeric_text IsNegative_def
        split: if_splits sum.splits)
  then obtain n where n: "r3 = Inr n" "n \<noteq> 0" by blast
  obtain r4 where "in_tx (stmt (insert_audit
        \<lparr>au_user_id = uid, au_currency = cur, au_type = ''trade_fill'',
         au_amount = val delta, au_before = val ?b, au_after = val (Add ?b delta)\<rparr>)) t3 = (r4, t')"
    using 4 by (metis surj_pair snd_conv)
  moreover from this obtain x4 where "r4 = Inr x4"
    using in_tx_alive assms(2) by (metis isl_def sum.exhaust_sel)
  ultimately have e4: "held (tx_db t') = held (tx_db t3)" "frozen (tx_db t') = frozen (tx_db t3)"
    "books_only (tx_db t3) (tx_db t')"
    using in_tx_Inr insert_audit_effect by (fastforce simp: books_only_def)+
  have e3: "held (tx_db t3) = (held (tx_db t2))((uid, cur) := ac_balance a + val delta)"
    "frozen (tx_db t3) = (frozen (tx_db t2))((uid, cur) :=
       max (frozen (tx_db t2) (uid, cur) + val ?adj) 0)"
    "books_only (tx_db t2) (tx_db t3)"
    using in_tx_Inr [OF 3 [unfolded n(1)]] update_balance_stmt_effect [OF _ n(2)]
    by (fastforce simp: books_only_def)+
  have "\<exists>fs. select_account uid cur ((tx_db t1)\<lparr>db_faults := fs\<rparr>) = (Inr a, tx_db t2)"
    using in_tx_Inr [OF 2 [unfolded a]] by blast
  then obtain fs where fs: "(tx_db t1)\<lparr>db_faults := fs\<rparr> = tx_db t2"
    and a1: "db_accounts (tx_db t1) (uid, cur) = Some a"
    by (auto simp: select_account_def split: option.splits)
  then have e2: "held (tx_db t2) = held (tx_db t1)" "frozen (tx_db t2) = frozen (tx_db t1)"
    "books_only (tx_db t1) (tx_db t2)" "held (tx_db t1) (uid, cur) = ac_balance a"
    using a1 by (simp_all add: fs [symmetric] books_only_def held_def [of "tx_db t1" "(uid, cur)"])
  have na: "\<not> tx_aborted t1" using in_tx_Inr [OF 2 [unfolded a]] by blast
  then obtain x1 where x1: "r1 = Inr x1" using in_tx_alive [OF 1] by (cases r1) auto
  have e1: "held (tx_db t1) = held (tx_db t)" "frozen (tx_db t1) = frozen (tx_db t)"
    "books_only (tx_db t) (tx_db t1)" "\<not> tx_aborted t"
    using in_tx_Inr [OF 1 [unfolded x1]] insert_account_effect by (fastforce simp: books_only_def)+
  have "val ?adj = min (val delta) 0" by (simp add: IsNegative_def)
  moreover have "books_only (tx_db t) (tx_db t')"
    using e1(3) e2(3) e3(3) e4(3) books_only_trans by blast
  ultimately show ?thesis
    using e1 e2 e3 e4 nn by (auto simp: moved_def)
qed

lemma delta_on_append: "delta_on (us @ vs) k = delta_on us k + delta_on vs k"
  by (simp add: delta_on_def)

lemma moved_trans:
  assumes "moved us d1 d2" "moved vs d2 d3"
  shows "moved (us @ vs) d1 d3"
proof -
  note m1 = assms(1) [unfolded moved_def] and m2 = assms(2) [unfolded moved_def]
  have "\<forall>k. held d3 k = held d1 k + delta_on (us @ vs) k" using m1 m2 by (simp add: delta_on_append)
  moreover have "\<forall>k. frozen d3 k = frozen_after (us @ vs) k (frozen d1 k)"
    using m1 m2 by (simp add: frozen_after_def)
  moreover have "\<forall>k. 0 \<le> held d1 k \<longrightarrow> 0 \<le> held d3 k" using m1 m2 by blast
  moreover have "\<forall>(l, uid, cur, dl)\<in>set us. 0 \<le> held d3 (uid, cur)"
  proof clarify
    fix l uid cur dl assume "(l, uid, cur, dl) \<in> set us"
    then have "0 \<le> held d2 (uid, cur)" using m1 by fastforce
    then show "0 \<le> held d3 (uid, cur)" using m2 by blast
  qed
  moreover have "books_only d1 d3" using m1 m2 books_only_trans by blast
  ultimately show ?thesis using m2 unfolding moved_def by (auto simp del: set_append simp: set_append)
qed

lemma update_balances_effect:
  assumes "update_balances us t = (None, t')" "\<not> tx_aborted t'"
  shows "\<not> tx_aborted t \<and> moved us (tx_db t) (tx_db t')"
  using assms
proof (induction us t rule: update_balances.induct)
  case (1 t)
  then show ?case by (simp add: moved_def books_only_def)
next
  case (2 label uid cur delta us t)
  obtain r t1 where u: "updateBalance uid cur delta t = (r, t1)" by fastforce
  have r: "r = None" and rest: "update_balances us t1 = (None, t')"
    using 2(2) u by (auto split: option.splits)
  have ih: "\<not> tx_aborted t1" "moved us (tx_db t1) (tx_db t')"
    using 2(1) [OF u [symmetric] r rest 2(3)] by auto
  have "\<not> tx_aborted t \<and> moved [(label, uid, cur, delta)] (tx_db t) (tx_db t1)"
    by (rule updateBalance_effect) (use u r ih(1) in auto)
  with moved_trans [OF _ ih(2), of "[(label, uid, cur, delta)]"] show ?case by simp
qed

lemma delta_on_total:
  assumes "finite U" "\<forall>(l, uid, c, dl)\<in>set us. uid \<in> U"
  shows "(\<Sum>u\<in>U. delta_on us (u, cur)) = (\<Sum>(l, uid, c, dl)\<leftarrow>us. if c = cur then val dl else 0)"
  using assms
proof (induction us)
  case (Cons x us)
  obtain l uid c dl where x: "x = (l, uid, c, dl)" by (metis prod_cases4)
  have "(\<Sum>u\<in>U. (if (uid, c) = (u, cur) then val dl else 0)) = (if c = cur then val dl else 0)"
    using Cons.prems x by (auto simp: if_distrib sum.delta cong: if_cong)
  with Cons x show ?case by (simp add: sum.distrib)
qed (simp add: delta_on_def)

text \<open>The five changes of a trade cancel out in each of its currencies.\<close>

lemma settle_updates_cases:
  obtains (buy) "m_TakerSide m = SideBuy" "settle_updates m mf tf =
     [(''update taker base balance: '', m_TakerUserID m, Base (m_Symbol m), m_Quantity m),
      (''update taker quote balance: '', m_TakerUserID m, Quote (m_Symbol m), Mul (Add (m_QuoteQty m) tf) minus_one),
      (''update maker base balance: '', m_MakerUserID m, Base (m_Symbol m), Mul (m_Quantity m) minus_one),
      (''update maker quote balance: '', m_MakerUserID m, Quote (m_Symbol m), Sub (m_QuoteQty m) mf),
      (''collect exchange fees: '', feeAccountID, Quote (m_Symbol m), Add mf tf)]"
  | (sell) "m_TakerSide m \<noteq> SideBuy" "settle_updates m mf tf =
     [(''update taker base balance: '', m_TakerUserID m, Base (m_Symbol m), Mul (m_Quantity m) minus_one),
      (''update taker quote balance: '', m_TakerUserID m, Quote (m_Symbol m), Sub (m_QuoteQty m) tf),
      (''update maker base balance: '', m_MakerUserID m, Base (m_Symbol m), m_Quantity m),
      (''update maker quote balance: '', m_MakerUserID m, Quote (m_Symbol m), Mul (Add (m_QuoteQty m) mf) minus_one),
      (''collect exchange fees: '', feeAccountID, Quote (m_Symbol m), Add mf tf)]"
  by (cases "m_TakerSide m = SideBuy") (simp_all add: settle_updates_def settle_deltas_def del: list.inject)

lemma settle_updates_balanced:
  "(\<Sum>(l, uid, c, dl)\<leftarrow>settle_updates m mf tf. if c = cur then val dl else 0) = 0"
proof -
  have neg: "val (Mul x minus_one) = - val x" for x by (simp add: minus_one_def)
  show ?thesis
    by (cases rule: settle_updates_cases [of m mf tf]; cases "Base (m_Symbol m) = cur";
        cases "Quote (m_Symbol m) = cur") (simp_all add: neg)
qed

lemma settle_updates_users:
  "(\<forall>(l, uid, c, dl)\<in>set (settle_updates m mf tf). uid \<in> U) \<longleftrightarrow>
     {m_TakerUserID m, m_MakerUserID m, feeAccountID} \<subseteq> U"
  by (cases rule: settle_updates_cases [of m mf tf]) auto

text \<open>
  What the trade statement may do: add to the trades. Whether it succeeds is left open.
\<close>

definition records_trade_only :: "(trade_row \<Rightarrow> unit sql) \<Rightarrow> bool" where
  "records_trade_only ins \<longleftrightarrow> (\<forall>r d res d'. ins r d = (res, d') \<longrightarrow>
     db_accounts d' = db_accounts d \<and> books_only d d')"

text \<open>The statement with its clauses in SQL's order, and its error as it is written.\<close>

definition trade_row_ok :: "trade_row \<Rightarrow> bool" where
  "trade_row_ok r \<longleftrightarrow> varchar_ok 50 (t_trade_id r) \<and> varchar_ok 20 (t_symbol r) \<and>
     list_all numeric_ok [t_price r, t_quantity r, t_quote r, t_maker_fee r, t_taker_fee r]"

definition insert_trade_once :: "trade_row \<Rightarrow> unit sql" where
  "insert_trade_once r d =
     (if \<not> trade_row_ok r then (Inl (pg_error ''value out of range''), d)
      else if t_trade_id r \<in> t_trade_id ` set (db_trades d) then (Inr (), d)
      else (Inr (), d\<lparr>db_trades := db_trades d @ [r]\<rparr>))"

definition insert_trade_rejected :: "trade_row \<Rightarrow> unit sql" where
  "insert_trade_rejected r d = (Inl (pg_error ''syntax error at or near \"VALUES\"''), d)"

lemma insert_trade_laws: "records_trade_only insert_trade_once" "records_trade_only insert_trade_rejected"
proof -
  have "db_accounts (snd (insert_trade_once r d)) = db_accounts d \<and>
      books_only d (snd (insert_trade_once r d))" for r d
    by (simp add: insert_trade_once_def books_only_def)
  then show "records_trade_only insert_trade_once" unfolding records_trade_only_def by (metis snd_conv)
  have "db_accounts (snd (insert_trade_rejected r d)) = db_accounts d \<and>
      books_only d (snd (insert_trade_rejected r d))" for r d
    by (simp add: insert_trade_rejected_def books_only_def)
  then show "records_trade_only insert_trade_rejected" unfolding records_trade_only_def by (metis snd_conv)
qed

subsection \<open>Runs of a settlement\<close>

text \<open>The one successful path through \<open>SettleTrade\<close>.\<close>

lemma SettleTrade_success:
  assumes "SettleTrade ins bus fsv m d = Inr (None, d', evs)"
  obtains t dd mf tf t1 t2 where "begin_tx d = (Inr t, dd)"
    "CalculateFee fsv (m_MakerUserID m) True (m_QuoteQty m) = Inr mf"
    "CalculateFee fsv (m_TakerUserID m) False (m_QuoteQty m) = Inr tf"
    "update_balances (settle_updates m mf tf) t = (None, t1)"
    "in_tx (stmt (ins (trade_row_of m mf tf))) t1 = (Inr (), t2)"
    "commit d t2 = (None, d')" "evs = settle_events bus m mf tf"
  using assms by (auto simp: SettleTrade_def split: prod.splits sum.splits option.splits)

lemma SettleTrade_moves:
  assumes "SettleTrade ins bus fsv m d = Inr (None, d', evs)" "records_trade_only ins"
  shows "\<exists>mf tf. CalculateFee fsv (m_MakerUserID m) True (m_QuoteQty m) = Inr mf \<and>
    CalculateFee fsv (m_TakerUserID m) False (m_QuoteQty m) = Inr tf \<and>
    moved (settle_updates m mf tf) d d' \<and> evs = settle_events bus m mf tf"
proof (rule SettleTrade_success [OF assms(1)])
  fix t dd mf tf t1 t2
  assume b: "begin_tx d = (Inr t, dd)"
    and f: "CalculateFee fsv (m_MakerUserID m) True (m_QuoteQty m) = Inr mf"
      "CalculateFee fsv (m_TakerUserID m) False (m_QuoteQty m) = Inr tf"
    and u: "update_balances (settle_updates m mf tf) t = (None, t1)"
    and i: "in_tx (stmt (ins (trade_row_of m mf tf))) t1 = (Inr (), t2)"
    and c: "commit d t2 = (None, d')" and e: "evs = settle_events bus m mf tf"
  obtain fs0 where t: "tx_db t = d\<lparr>db_faults := fs0\<rparr>" using begin_tx_effect [OF b] by blast
  note i' = in_tx_Inr [OF i]
  have mv: "moved (settle_updates m mf tf) (tx_db t) (tx_db t1)"
    using update_balances_effect [OF u] i' by blast
  have "db_accounts (tx_db t2) = db_accounts (tx_db t1) \<and> books_only (tx_db t1) (tx_db t2)"
    using i' assms(2) unfolding records_trade_only_def books_only_def by fastforce
  then have same: "held (tx_db t2) = held (tx_db t1)" "frozen (tx_db t2) = frozen (tx_db t1)"
    "books_only (tx_db t1) (tx_db t2)"
    by (simp_all add: held_def frozen_def fun_eq_iff)
  obtain fs where d': "d' = (tx_db t2)\<lparr>db_faults := fs\<rparr>" using commit_effect [OF c] by blast
  have "books_only d d'"
    using mv same(3) unfolding t d' moved_def books_only_def by simp
  then have "moved (settle_updates m mf tf) d d'"
    using mv unfolding moved_def t d' held_faults same by blast
  with f e show ?thesis by blast
qed

lemma CalculateFee_cases:
  "CalculateFee fsv uid mk v = Inl p \<Longrightarrow> fs_tiers fsv = []"
  by (auto simp: CalculateFee_def getTier_def split: sum.splits list.splits)

lemma SettleTrade_failure:
  assumes "SettleTrade ins bus fsv m d = Inr (Some e, d', evs)"
  shows "evs = [] \<and> (\<exists>fs. d' = d\<lparr>db_faults := fs\<rparr>)"
proof (cases "begin_tx d")
  case (Pair r dd)
  show ?thesis
  proof (cases r)
    case (Inl x)
    with assms Pair begin_tx_effect [OF Pair] show ?thesis by (auto simp: SettleTrade_def)
  next
    case (Inr t)
    with assms Pair show ?thesis
      by (auto simp: SettleTrade_def rollback_def dest!: commit_effect
          split: sum.splits prod.splits option.splits)
  qed
qed

subsection \<open>When settling succeeds\<close>

text \<open>
  No fault ahead, and every account with room for \<open>n\<close> more updates: its amounts within
  \<open>B\<close> and its version below the 64-bit limit.
\<close>

definition room :: "int \<Rightarrow> nat \<Rightarrow> db \<Rightarrow> bool" where
  "room B n d \<longleftrightarrow> db_faults d = [] \<and> 0 \<le> B \<and> int n + 1 < 2 ^ 63 \<and> (\<forall>k a. db_accounts d k = Some a \<longrightarrow>
     \<bar>ac_balance a\<bar> \<le> B \<and> \<bar>ac_frozen a\<bar> \<le> B \<and> ac_version a + int n < 2 ^ 63)"

lemma room_held: "room B n d \<Longrightarrow> \<bar>held d k\<bar> \<le> B \<and> \<bar>frozen d k\<bar> \<le> B"
  by (cases k) (auto simp: room_def held_def frozen_def split: option.splits)

lemma updateBalance_ok:
  assumes "room B (Suc n) d" "uid \<in> set (db_users d)" "varchar_ok 20 cur"
    "0 \<le> held d (uid, cur) + val delta" "\<bar>val delta\<bar> \<le> X" "B + X < 10 ^ 36"
  shows "\<exists>d'. updateBalance uid cur delta \<lparr>tx_db = d, tx_aborted = False\<rparr> =
      (None, \<lparr>tx_db = d', tx_aborted = False\<rparr>) \<and> room (B + X) n d' \<and>
    db_users d' = db_users d \<and> db_trades d' = db_trades d \<and>
    held d' = (held d)((uid, cur) := held d (uid, cur) + val delta)"
proof -
  let ?zero = "\<lparr>ac_balance = 0, ac_frozen = 0, ac_version = 1\<rparr>"
  define a where "a = (case db_accounts d (uid, cur) of None \<Rightarrow> ?zero | Some a \<Rightarrow> a)"
  let ?d1 = "set_account (uid, cur) a d"
  let ?b = "Decimal (Some (ac_balance a))"
  let ?adj = "if IsNegative delta then delta else Zero"
  let ?n = "\<lparr>ac_balance = val (Add ?b delta), ac_frozen = max (ac_frozen a + val ?adj) 0,
     ac_version = ac_version a + 1\<rparr>"
  let ?d2 = "set_account (uid, cur) ?n ?d1"
  let ?row = "\<lparr>au_user_id = uid, au_currency = cur, au_type = ''trade_fill'',
         au_amount = val delta, au_before = val ?b, au_after = val (Add ?b delta)\<rparr>"
  let ?d3 = "?d2\<lparr>db_audit := db_audit ?d2 @ [?row]\<rparr>"
  have nf: "db_faults d = []" "0 \<le> B" "int n + 2 < 2 ^ 63" using assms(1) by (auto simp: room_def)
  have R: "\<bar>ac_balance x\<bar> \<le> B \<and> \<bar>ac_frozen x\<bar> \<le> B \<and> ac_version x + int (Suc n) < 2 ^ 63"
    if "db_accounts d k = Some x" for k x
    using assms(1) that unfolding room_def by blast
  have h: "held d (uid, cur) = ac_balance a"
    by (cases "db_accounts d (uid, cur)") (simp_all add: held_def a_def)
  have ra: "\<bar>ac_balance a\<bar> \<le> B" "\<bar>ac_frozen a\<bar> \<le> B" "ac_version a + 1 + int n < 2 ^ 63"
    using R [of "(uid, cur)"] nf by (auto simp: a_def split: option.splits)
  have X: "0 \<le> X" "\<bar>ac_balance a + val delta\<bar> \<le> B + X" "\<bar>max (ac_frozen a + val ?adj) 0\<bar> \<le> B + X"
    using assms(5) ra by (auto simp: IsNegative_def)
  have ok: "numeric_ok (val delta)" "numeric_ok (val ?b)" "numeric_ok (val (Add ?b delta))"
    "numeric_ok (max (ac_frozen a + val ?adj) 0)" "numeric_ok 0"
    using X ra assms(5,6) by (auto simp: numeric_ok_def)
  have i: "insert_account uid cur ?zero d = (Inr (if db_accounts d (uid, cur) = None then 1 else 0), ?d1)"
    using assms(2,3) ok(5) by (auto simp: insert_account_def write_account_def set_account_def a_def
        fun_upd_idem split: option.split)
  have s: "select_account uid cur ?d1 = (Inr a, ?d1)" by (simp add: select_account_def)
  have "update_balance_stmt uid cur (val (Add ?b delta)) (ac_version a) (val ?adj) ?d1 =
      write_account (uid, cur) ?n ?d1"
    using ra(3) by (simp add: update_balance_stmt_def)
  also have "\<dots> = (Inr 1, ?d2)" using ok(3,4) unfolding write_account_def by simp
  finally have u: "update_balance_stmt uid cur (val (Add ?b delta)) (ac_version a) (val ?adj) ?d1 = (Inr 1, ?d2)" .
  have au: "insert_audit ?row ?d2 = (Inr 1, ?d3)"
    using assms(2,3) ok(1-3) by (simp add: insert_audit_def)
  have st: "stmt q dd = q dd" if "db_faults dd = []" for q :: "'z sql" and dd
    using that by (simp add: stmt_def)
  have "\<not> IsNegative (Add ?b delta)" using assms(4) h by (simp add: IsNegative_def)
  then have run: "updateBalance uid cur delta \<lparr>tx_db = d, tx_aborted = False\<rparr> =
      (None, \<lparr>tx_db = ?d3, tx_aborted = False\<rparr>)"
    using nf i s u au
    by (simp add: updateBalance_def Let_def in_tx_def st Scan_def NewFromString_numeric_text)
  have "room (B + X) n ?d3"
    unfolding room_def
  proof (intro conjI allI impI)
    fix k aa assume "db_accounts ?d3 k = Some aa"
    then have "k = (uid, cur) \<and> aa = ?n \<or> db_accounts d k = Some aa" by (auto split: if_splits)
    then show "\<bar>ac_balance aa\<bar> \<le> B + X" "\<bar>ac_frozen aa\<bar> \<le> B + X" "ac_version aa + int n < 2 ^ 63"
      using X ra R [of k aa] by auto
  qed (use nf X(1) in auto)
  moreover have "held ?d3 = (held d)((uid, cur) := held d (uid, cur) + val delta)"
  proof -
    have "held ?d3 = held ?d2" by (simp add: held_def fun_eq_iff)
    then show ?thesis unfolding held_set_account h by (simp add: fun_upd_upd)
  qed
  ultimately show ?thesis using run by (intro exI [of _ ?d3]) simp
qed

text \<open>Enough funds for a list of updates in its order.\<close>

fun funded :: "(string \<times> string \<times> Currency \<times> decimal) list \<Rightarrow> (string \<times> string \<Rightarrow> int) \<Rightarrow> bool" where
  "funded [] h \<longleftrightarrow> True"
| "funded ((label, uid, cur, dl) # us) h \<longleftrightarrow> 0 \<le> h (uid, cur) + val dl \<and>
     funded us (h((uid, cur) := h (uid, cur) + val dl))"

lemma update_balances_ok:
  assumes "room B (length us + n) d" "funded us (held d)" "B + int (length us) * X < 10 ^ 36" "0 \<le> X"
    "\<forall>(l, uid, cur, dl)\<in>set us. uid \<in> set (db_users d) \<and> varchar_ok 20 cur \<and> \<bar>val dl\<bar> \<le> X"
  shows "\<exists>d'. update_balances us \<lparr>tx_db = d, tx_aborted = False\<rparr> =
      (None, \<lparr>tx_db = d', tx_aborted = False\<rparr>) \<and> room (B + int (length us) * X) n d' \<and>
    db_users d' = db_users d \<and> db_trades d' = db_trades d"
  using assms
proof (induction us arbitrary: B d)
  case Nil
  then show ?case by simp
next
  case (Cons u us)
  obtain l uid cur dl where u: "u = (l, uid, cur, dl)" by (metis prod_cases4)
  have eq: "B + int (length (u # us)) * X = B + X + int (length us) * X" by (simp add: algebra_simps)
  then have B2: "B + X + int (length us) * X < 10 ^ 36" using Cons.prems(3) by simp
  moreover have "0 \<le> int (length us) * X" using Cons.prems(4) by simp
  ultimately have B1: "B + X < 10 ^ 36" by linarith
  have "room B (Suc (length us + n)) d" using Cons.prems(1) by simp
  from updateBalance_ok [OF this _ _ _ _ B1, of uid cur dl] Cons.prems u obtain d1 where
    d1: "updateBalance uid cur dl \<lparr>tx_db = d, tx_aborted = False\<rparr> = (None, \<lparr>tx_db = d1, tx_aborted = False\<rparr>)"
      "room (B + X) (length us + n) d1" "db_users d1 = db_users d" "db_trades d1 = db_trades d"
      "held d1 = (held d)((uid, cur) := held d (uid, cur) + val dl)"
    by auto
  have "funded us (held d1)" using Cons.prems(2) u d1(5) by simp
  from Cons.IH [OF d1(2) this B2 Cons.prems(4)] Cons.prems(5) d1(3) obtain d' where
    d': "update_balances us \<lparr>tx_db = d1, tx_aborted = False\<rparr> = (None, \<lparr>tx_db = d', tx_aborted = False\<rparr>)"
    "room (B + X + int (length us) * X) n d'" "db_users d' = db_users d1" "db_trades d' = db_trades d1"
    by auto
  show ?case unfolding eq using d1(1,3,4) d' u by (intro exI [of _ d']) simp
qed

definition buyer :: "MatchResult \<Rightarrow> string" where
  "buyer m = (if m_TakerSide m = SideBuy then m_TakerUserID m else m_MakerUserID m)"

definition seller :: "MatchResult \<Rightarrow> string" where
  "seller m = (if m_TakerSide m = SideBuy then m_MakerUserID m else m_TakerUserID m)"

lemma val_minus_one: "val (Mul x minus_one) = - val x"
  by (simp add: minus_one_def)

lemma settle_funded:
  assumes "\<forall>k. 0 \<le> h k" "Base (m_Symbol m) \<noteq> Quote (m_Symbol m)" "0 \<le> val (m_Quantity m)"
    "0 \<le> val mf" "0 \<le> val tf" "val mf \<le> val (m_QuoteQty m)" "val tf \<le> val (m_QuoteQty m)"
    "val (m_Quantity m) \<le> h (seller m, Base (m_Symbol m))"
    "val (m_QuoteQty m) + val mf + val tf \<le> h (buyer m, Quote (m_Symbol m))"
  shows "funded (settle_updates m mf tf) h"
proof (cases rule: settle_updates_cases [of m mf tf])
  case buy
  then have b: "seller m = m_MakerUserID m" "buyer m = m_TakerUserID m" by (simp_all add: seller_def buyer_def)
  show ?thesis unfolding buy(2)
    using assms(2-9) assms(1) [rule_format, of "(m_TakerUserID m, Base (m_Symbol m))"]
      assms(1) [rule_format, of "(m_MakerUserID m, Quote (m_Symbol m))"]
      assms(1) [rule_format, of "(feeAccountID, Quote (m_Symbol m))"]
    unfolding b by (auto simp: val_minus_one)
next
  case sell
  then have b: "seller m = m_TakerUserID m" "buyer m = m_MakerUserID m" by (simp_all add: seller_def buyer_def)
  show ?thesis unfolding sell(2)
    using assms(2-9) assms(1) [rule_format, of "(m_TakerUserID m, Quote (m_Symbol m))"]
      assms(1) [rule_format, of "(m_MakerUserID m, Base (m_Symbol m))"]
      assms(1) [rule_format, of "(feeAccountID, Quote (m_Symbol m))"]
    unfolding b by (auto simp: val_minus_one)
qed

lemma SettleTrade_ok:
  assumes "room B (5 + n) d" "B + 5 * X < 10 ^ 36"
    "CalculateFee fsv (m_MakerUserID m) True (m_QuoteQty m) = Inr mf"
    "CalculateFee fsv (m_TakerUserID m) False (m_QuoteQty m) = Inr tf"
    "{m_TakerUserID m, m_MakerUserID m, feeAccountID} \<subseteq> set (db_users d)"
    "varchar_ok 20 (Base (m_Symbol m))" "varchar_ok 20 (Quote (m_Symbol m))"
    "trade_row_ok (trade_row_of m mf tf)" "funded (settle_updates m mf tf) (held d)"
    "0 \<le> val (m_Quantity m)" "0 \<le> val mf" "0 \<le> val tf" "val mf \<le> val (m_QuoteQty m)"
    "val tf \<le> val (m_QuoteQty m)" "val (m_Quantity m) \<le> X" "val (m_QuoteQty m) + val mf + val tf \<le> X"
  shows "\<exists>d'. SettleTrade insert_trade_once bus fsv m d = Inr (None, d', settle_events bus m mf tf) \<and>
    room (B + 5 * X) n d' \<and> db_users d' = db_users d"
proof -
  have f: "db_faults d = []" using assms(1) by (simp add: room_def)
  have len: "length (settle_updates m mf tf) = 5" by (cases rule: settle_updates_cases [of m mf tf]) simp_all
  have ub: "\<forall>(l, uid, cur, dl)\<in>set (settle_updates m mf tf).
      uid \<in> set (db_users d) \<and> varchar_ok 20 cur \<and> \<bar>val dl\<bar> \<le> X"
    by (cases rule: settle_updates_cases [of m mf tf]) (use assms(5-7,10-16) in \<open>simp_all add: val_minus_one\<close>)
  obtain d1 where d1: "update_balances (settle_updates m mf tf) \<lparr>tx_db = d, tx_aborted = False\<rparr> =
      (None, \<lparr>tx_db = d1, tx_aborted = False\<rparr>)" "room (B + 5 * X) n d1" "db_users d1 = db_users d"
    using update_balances_ok [of B "settle_updates m mf tf" n d X] assms(1,2,9,10,15) ub len by auto
  obtain d2 where d2: "insert_trade_once (trade_row_of m mf tf) d1 = (Inr (), d2)"
      "db_faults d2 = db_faults d1" "db_accounts d2 = db_accounts d1" "db_users d2 = db_users d1"
    using assms(8)
    by (cases "t_trade_id (trade_row_of m mf tf) \<in> t_trade_id ` set (db_trades d1)")
      (simp_all add: insert_trade_once_def)
  have f1: "db_faults d1 = []" using d1(2) by (simp add: room_def)
  have "SettleTrade insert_trade_once bus fsv m d = Inr (None, d2, settle_events bus m mf tf)"
    using f f1 d1 d2 assms(3,4)
    by (simp add: SettleTrade_def begin_tx_def stmt_def in_tx_def commit_def)
  moreover have "room (B + 5 * X) n d2" using d1(2) d2 by (simp add: room_def)
  ultimately show ?thesis using d1(3) d2(4) by auto
qed

subsection \<open>Properties\<close>

text \<open>C9. A settled trade conserves every currency: over any set of users that contains the two
  parties and the exchange's fee account, the available balances add up to the same total, fees
  included, and no balance that was not negative becomes negative. Each of the five accounts moves by
  exactly its change, and one event per party and currency is emitted.\<close>

theorem settlement_conserves:
  assumes "SettleTrade ins bus fsv m d = Inr (None, d', evs)" "records_trade_only ins"
    "finite U" "{m_TakerUserID m, m_MakerUserID m, feeAccountID} \<subseteq> U"
  shows "(\<Sum>u\<in>U. held d' (u, cur)) = (\<Sum>u\<in>U. held d (u, cur)) \<and>
    (\<forall>k. 0 \<le> held d k \<longrightarrow> 0 \<le> held d' k) \<and>
    (\<exists>mf tf. CalculateFee fsv (m_MakerUserID m) True (m_QuoteQty m) = Inr mf \<and>
      CalculateFee fsv (m_TakerUserID m) False (m_QuoteQty m) = Inr tf \<and>
      (\<forall>k. held d' k = held d k + delta_on (settle_updates m mf tf) k) \<and>
      evs = settle_events bus m mf tf)"
proof -
  obtain mf tf where f: "CalculateFee fsv (m_MakerUserID m) True (m_QuoteQty m) = Inr mf"
    "CalculateFee fsv (m_TakerUserID m) False (m_QuoteQty m) = Inr tf"
    "moved (settle_updates m mf tf) d d'" "evs = settle_events bus m mf tf"
    using SettleTrade_moves [OF assms(1,2)] by blast
  note mv = f(3) [unfolded moved_def]
  have "\<forall>(l, uid, c, dl)\<in>set (settle_updates m mf tf). uid \<in> U"
    using assms(4) by (simp only: settle_updates_users)
  from delta_on_total [OF assms(3) this, of cur]
  have "(\<Sum>u\<in>U. delta_on (settle_updates m mf tf) (u, cur)) = 0"
    by (simp only: settle_updates_balanced)
  then have "(\<Sum>u\<in>U. held d' (u, cur)) = (\<Sum>u\<in>U. held d (u, cur))"
    using mv by (simp add: sum.distrib)
  with mv f show ?thesis by blast
qed

text \<open>C24. Settlement is all or nothing: when \<open>SettleTrade\<close> returns an error, at whatever step and
  whatever the trade statement does, every table is as it was and no event is emitted. As the
  statement is written the database rejects it, so no trade is ever settled.\<close>

theorem settlement_atomic:
  "(case SettleTrade ins bus fsv m d of
      Inr (Some e, d', evs) \<Rightarrow> evs = [] \<and> (\<exists>fs. d' = d\<lparr>db_faults := fs\<rparr>)
    | Inr (None, d', evs) \<Rightarrow> True | Inl p \<Rightarrow> fs_tiers fsv = []) \<and>
   (\<exists>e fs. SettleTrade insert_trade_rejected bus (NewFeeService None) m d =
      Inr (Some e, d\<lparr>db_faults := fs\<rparr>, []))"
proof -
  have p: "SettleTrade i b f m d = Inl p \<Longrightarrow> fs_tiers f = []" for i b f p
    by (auto simp: SettleTrade_def dest: CalculateFee_cases split: prod.splits sum.splits option.splits)
  have r: "fst (in_tx (stmt (insert_trade_rejected row)) t) \<noteq> Inr ()" for row t
    by (auto simp: in_tx_def stmt_def insert_trade_rejected_def
        split: sum.splits prod.splits list.splits option.splits)
  have "SettleTrade insert_trade_rejected bus (NewFeeService None) m d \<noteq> Inr (None, d', evs)" for d' evs
    using r by (auto elim!: SettleTrade_success) (metis fst_conv)
  moreover have tiers: "fs_tiers (NewFeeService None) \<noteq> []"
    by (simp add: NewFeeService_def DefaultFeeTiers_def)
  moreover have "\<not> isl (SettleTrade insert_trade_rejected bus (NewFeeService None) m d)"
    using p [of insert_trade_rejected bus "NewFeeService None"] tiers by (auto simp: isl_def)
  ultimately obtain e d' evs where
    "SettleTrade insert_trade_rejected bus (NewFeeService None) m d = Inr (Some e, d', evs)"
    by (metis isl_def not_None_eq prod_cases3 sum.exhaust)
  then have "\<exists>e fs. SettleTrade insert_trade_rejected bus (NewFeeService None) m d =
      Inr (Some e, d\<lparr>db_faults := fs\<rparr>, [])"
    using SettleTrade_failure by blast
  then show ?thesis
    using SettleTrade_failure [of ins bus fsv m d] p [of ins bus fsv]
    by (auto split: sum.split option.split)
qed
text \<open>Settlement has no memory of what it settled: when the handler receives the same trade
  twice (the buses redeliver) and both runs succeed, every balance moves twice by the trade's change,
  although the second trade row is dropped as a duplicate.\<close>

theorem replayed_trade_settles_twice:
  assumes "SettleTrade ins bus fsv m d = Inr (None, d1, evs1)"
    "SettleTrade ins bus fsv m d1 = Inr (None, d2, evs2)" "records_trade_only ins"
  shows "held d2 k - held d1 k = held d1 k - held d k \<and> evs2 = evs1"
proof -
  obtain mf tf where 1: "CalculateFee fsv (m_MakerUserID m) True (m_QuoteQty m) = Inr mf"
    "CalculateFee fsv (m_TakerUserID m) False (m_QuoteQty m) = Inr tf"
    "moved (settle_updates m mf tf) d d1" "evs1 = settle_events bus m mf tf"
    using SettleTrade_moves [OF assms(1,3)] by blast
  obtain mf' tf' where 2: "CalculateFee fsv (m_MakerUserID m) True (m_QuoteQty m) = Inr mf'"
    "CalculateFee fsv (m_TakerUserID m) False (m_QuoteQty m) = Inr tf'"
    "moved (settle_updates m mf' tf') d1 d2" "evs2 = settle_events bus m mf' tf'"
    using SettleTrade_moves [OF assms(2,3)] by blast
  have "mf' = mf" "tf' = tf" using 1(1,2) 2(1,2) by auto
  then have "held d2 k = held d1 k + delta_on (settle_updates m mf tf) k"
    "held d1 k = held d k + delta_on (settle_updates m mf tf) k"
    using 1(3) 2(3) unfolding moved_def by blast+
  with 1(4) 2(4) \<open>mf' = mf\<close> \<open>tf' = tf\<close> show ?thesis by simp
qed

text \<open>What the buyer pays leaves the frozen funds as well as the available ones: a settled trade
  lowers the buyer's available quote balance by price and fee, and the frozen balance by the same
  amount down to zero. The order service has already moved the reservation of the fill back to the
  available balance, so funds frozen for the buyer's other orders disappear.\<close>

theorem settlement_takes_frozen_too:
  assumes "SettleTrade ins bus fsv m d = Inr (None, d', evs)" "records_trade_only ins"
    "m_TakerSide m = SideBuy" "Base (m_Symbol m) \<noteq> Quote (m_Symbol m)"
    "m_MakerUserID m \<noteq> m_TakerUserID m" "feeAccountID \<noteq> m_TakerUserID m"
    "CalculateFee fsv (m_TakerUserID m) False (m_QuoteQty m) = Inr fee"
    "cost = val (m_QuoteQty m) + val fee" "0 \<le> cost" "k = (m_TakerUserID m, Quote (m_Symbol m))"
    "0 \<le> frozen d k"
  shows "held d' k = held d k - cost \<and> frozen d' k = max (frozen d k - cost) 0 \<and>
    owned d' k \<le> owned d k - cost - min cost (frozen d k)"
proof -
  obtain mf where f: "moved (settle_updates m mf fee) d d'"
    using SettleTrade_moves [OF assms(1,2)] assms(7) by auto
  then have mv: "held d' k = held d k + delta_on (settle_updates m mf fee) k"
    "frozen d' k = frozen_after (settle_updates m mf fee) k (frozen d k)"
    unfolding moved_def by blast+
  show ?thesis
  proof (cases rule: settle_updates_cases [of m mf fee])
    case buy
    have "held d' k = held d k - cost" "frozen d' k = max (frozen d k - cost) 0"
      using mv assms(4-11) unfolding buy(2) by (simp_all add: val_minus_one)
    then show ?thesis by (simp add: owned_def)
  qed (use assms(3) in simp)
qed

text \<open>C25. The event of a trade carries the trade: the handler that reads what the engine published
  for a match settles a match with the same parties, symbol and side and the same price, quantity and
  quote amount to the last digit.\<close>

theorem published_trade_is_settled:
  "\<exists>m'. trade_handler ins bus fsv (marshal_TradeExecuted (trade_payload m)) d = SettleTrade ins bus fsv m' d \<and>
     m_TakerOrderID m' = m_TakerOrderID m \<and> m_MakerOrderID m' = m_MakerOrderID m \<and>
     m_TakerUserID m' = m_TakerUserID m \<and> m_MakerUserID m' = m_MakerUserID m \<and>
     m_Symbol m' = m_Symbol m \<and> m_TakerSide m' = m_TakerSide m \<and> val (m_Price m') = val (m_Price m) \<and>
     val (m_Quantity m') = val (m_Quantity m) \<and> val (m_QuoteQty m') = val (m_QuoteQty m)"
  by (rule exI [of _ "match_of_payload (trade_payload m)"])
    (simp add: trade_handler_def unmarshal_marshal_TradeExecuted match_of_payload_def trade_payload_def
      decimalMust_def NewFromString_String)

text \<open>The example: bob's resting sale of 2 ETH at 100 meets alice's buy order.\<close>

definition sample_match :: MatchResult where
  "sample_match = \<lparr>m_TakerOrderID = ''t1'', m_MakerOrderID = ''m1'', m_TakerUserID = ''alice'',
     m_MakerUserID = ''bob'', m_Symbol = ''ETH-USDT'', m_Price = NewFromInt64 100,
     m_Quantity = NewFromInt64 2, m_QuoteQty = NewFromInt64 200, m_TakerSide = SideBuy, m_Timestamp = 0\<rparr>"

definition settle_db :: db where
  "settle_db = (empty_db [''alice'', ''bob'', feeAccountID])
     \<lparr>db_accounts := [(''alice'', ''USDT'') \<mapsto>
        \<lparr>ac_balance = 1000 * tenPow18, ac_frozen = 300 * tenPow18, ac_version = 1\<rparr>,
      (''bob'', ''ETH'') \<mapsto> \<lparr>ac_balance = 5 * tenPow18, ac_frozen = 0, ac_version = 1\<rparr>]\<rparr>"

lemma default_fees:
  "CalculateFee (NewFeeService None) uid mk (NewFromInt64 200) = Inr (Decimal (Some (2 * 10 ^ 17)))"
proof -
  have "NewFromString ''0.0010'' = Inr (Decimal (Some (10 ^ 15)))"
    using NewFromString_fraction [of "''0''" "''0010''" False] by (simp add: is_digit_def digit_val_def)
  then show ?thesis
    by (simp add: CalculateFee_def getTier_def NewFeeService_def DefaultFeeTiers_def decimalMust_def Mul_def)
qed

lemma settle_db_facts:
  "room (1000 * tenPow18) 10 settle_db" "room (1000 * tenPow18) 5 settle_db" "\<forall>k. 0 \<le> held settle_db k"
  "held settle_db (''alice'', ''USDT'') = 1000 * tenPow18" "held settle_db (''bob'', ''ETH'') = 5 * tenPow18"
  "frozen settle_db (''alice'', ''USDT'') = 300 * tenPow18" "held settle_db (feeAccountID, ''USDT'') = 0"
  "held settle_db (''bob'', ''USDT'') = 0" "db_users settle_db = [''alice'', ''bob'', feeAccountID]"
  by (auto simp: room_def settle_db_def empty_db_def held_def frozen_def feeAccountID_def split: option.splits if_splits)

lemma room_less: "room B n d \<Longrightarrow> k \<le> n \<Longrightarrow> room B k d"
  by (fastforce simp: room_def)

lemma sample_parties:
  "m_TakerUserID sample_match = ''alice''" "m_MakerUserID sample_match = ''bob''"
  "Base (m_Symbol sample_match) = ''ETH''" "Quote (m_Symbol sample_match) = ''USDT''"
  "buyer sample_match = ''alice''" "seller sample_match = ''bob''"
  "m_QuoteQty sample_match = NewFromInt64 200" "m_Quantity sample_match = NewFromInt64 2"
  "m_TakerSide sample_match = SideBuy" "m_Symbol sample_match = ''ETH-USDT''"
  "m_Price sample_match = NewFromInt64 100"
  by (simp_all add: sample_match_def buyer_def seller_def)

lemma sample_trade_row: "trade_row_ok (trade_row_of sample_match (Decimal (Some (2 * 10 ^ 17))) (Decimal (Some (2 * 10 ^ 17))))"
  by (simp add: trade_row_ok_def trade_row_of_def sample_match_def trade_id_def varchar_ok_def
      char_count_def numeric_ok_def)

lemma sample_varchar: "varchar_ok 20 ''ETH''" "varchar_ok 20 ''USDT''"
  by (simp_all add: varchar_ok_def char_count_def)


text \<open>The same trade settled once and twice, for the other examples.\<close>

lemma sample_settles:
  obtains d1 d2 evs where
    "SettleTrade insert_trade_once True (NewFeeService None) sample_match settle_db = Inr (None, d1, evs)"
    "SettleTrade insert_trade_once True (NewFeeService None) sample_match d1 = Inr (None, d2, evs)"
proof -
  let ?fee = "Decimal (Some (2 * 10 ^ 17))"
  have us: "settle_updates sample_match ?fee ?fee =
     [(''update taker base balance: '', ''alice'', ''ETH'', NewFromInt64 2),
      (''update taker quote balance: '', ''alice'', ''USDT'', Mul (Add (NewFromInt64 200) ?fee) minus_one),
      (''update maker base balance: '', ''bob'', ''ETH'', Mul (NewFromInt64 2) minus_one),
      (''update maker quote balance: '', ''bob'', ''USDT'', Sub (NewFromInt64 200) ?fee),
      (''collect exchange fees: '', feeAccountID, ''USDT'', Add ?fee ?fee)]"
    by (simp add: settle_updates_def settle_deltas_def sample_match_def)
  have run: "\<exists>d'. SettleTrade insert_trade_once True (NewFeeService None) sample_match d =
      Inr (None, d', settle_events True sample_match ?fee ?fee) \<and>
      room (B + 5 * (1000 * tenPow18)) n d' \<and> db_users d' = db_users d"
    if "room B (5 + n) d" "B + 5 * (1000 * tenPow18) < 10 ^ 36" "db_users d = db_users settle_db"
      "funded (settle_updates sample_match ?fee ?fee) (held d)" for B n d
  proof (rule SettleTrade_ok [OF that(1,2)])
    show "trade_row_ok (trade_row_of sample_match ?fee ?fee)" by (rule sample_trade_row)
    show "varchar_ok 20 (Base (m_Symbol sample_match))" "varchar_ok 20 (Quote (m_Symbol sample_match))"
      using sample_varchar by (simp_all add: sample_match_def)
    show "funded (settle_updates sample_match ?fee ?fee) (held d)" by (rule that(4))
  qed (simp_all add: sample_parties(1-9) that(3) settle_db_facts default_fees)
  have "held settle_db (''bob'', ''ETH'') = 5 * tenPow18 \<and> held settle_db (''alice'', ''ETH'') = 0"
    by (simp add: held_def settle_db_def)
  note h0 = this settle_db_facts(4,7,8)
  have "funded (settle_updates sample_match ?fee ?fee) (held settle_db)"
    unfolding us using h0 by (simp add: val_minus_one feeAccountID_def)
  from run [OF _ _ refl this, of "1000 * tenPow18" 5] settle_db_facts(1) obtain d1 where
    d1: "SettleTrade insert_trade_once True (NewFeeService None) sample_match settle_db =
      Inr (None, d1, settle_events True sample_match ?fee ?fee)"
    "room (1000 * tenPow18 + 5 * (1000 * tenPow18)) 5 d1" "db_users d1 = db_users settle_db"
    by auto
  have "\<exists>mf tf. CalculateFee (NewFeeService None) ''bob'' True (NewFromInt64 200) = Inr mf \<and>
      CalculateFee (NewFeeService None) ''alice'' False (NewFromInt64 200) = Inr tf \<and>
      moved (settle_updates sample_match mf tf) settle_db d1"
    using SettleTrade_moves [OF d1(1) insert_trade_laws(1)] unfolding sample_parties by blast
  then have "moved (settle_updates sample_match ?fee ?fee) settle_db d1" by (simp add: default_fees)
  then have h1: "held d1 k = held settle_db k + delta_on (settle_updates sample_match ?fee ?fee) k" for k
    unfolding moved_def by blast
  have "funded (settle_updates sample_match ?fee ?fee) (held d1)"
    unfolding us using h0 by (simp add: h1 [unfolded us] val_minus_one feeAccountID_def)
  from run [OF _ _ d1(3) this, of "1000 * tenPow18 + 5 * (1000 * tenPow18)" 0] d1(2) show thesis
    using that d1(1) room_less [of _ 5 d1 0] by fastforce
qed

theorem settlement_conserves_witness:
  "\<exists>d' evs. SettleTrade insert_trade_once True (NewFeeService None) sample_match settle_db = Inr (None, d', evs) \<and>
     (\<Sum>u\<in>{''alice'', ''bob'', feeAccountID}. held d' (u, ''USDT'')) = 1000 * tenPow18"
proof (rule sample_settles)
  fix d1 d2 evs
  assume s: "SettleTrade insert_trade_once True (NewFeeService None) sample_match settle_db = Inr (None, d1, evs)"
  have "(\<Sum>u\<in>{''alice'', ''bob'', feeAccountID}. held settle_db (u, ''USDT'')) = 1000 * tenPow18"
    by (simp add: held_def settle_db_def feeAccountID_def)
  with settlement_conserves [OF s insert_trade_laws(1), of "{''alice'', ''bob'', feeAccountID}" "''USDT''"] s
  show ?thesis unfolding sample_parties by (intro exI [of _ d1] exI [of _ evs]) simp
qed

theorem replayed_trade_settles_twice_witness:
  "\<exists>d1 d2 evs. SettleTrade insert_trade_once True (NewFeeService None) sample_match settle_db = Inr (None, d1, evs) \<and>
     SettleTrade insert_trade_once True (NewFeeService None) sample_match d1 = Inr (None, d2, evs) \<and>
     held d2 (''alice'', ''USDT'') - held d1 (''alice'', ''USDT'') =
     held d1 (''alice'', ''USDT'') - held settle_db (''alice'', ''USDT'')"
proof (rule sample_settles)
  fix d1 d2 evs
  assume s: "SettleTrade insert_trade_once True (NewFeeService None) sample_match settle_db = Inr (None, d1, evs)"
    "SettleTrade insert_trade_once True (NewFeeService None) sample_match d1 = Inr (None, d2, evs)"
  show ?thesis using replayed_trade_settles_twice [OF s insert_trade_laws(1)] s by blast
qed

theorem settlement_takes_frozen_too_witness:
  "\<exists>d' evs. SettleTrade insert_trade_once True (NewFeeService None) sample_match settle_db = Inr (None, d', evs) \<and>
     held d' (''alice'', ''USDT'') = 1000 * tenPow18 - (200 * tenPow18 + 2 * 10 ^ 17) \<and>
     frozen d' (''alice'', ''USDT'') = 300 * tenPow18 - (200 * tenPow18 + 2 * 10 ^ 17)"
proof (rule sample_settles)
  fix d1 d2 evs
  assume s: "SettleTrade insert_trade_once True (NewFeeService None) sample_match settle_db = Inr (None, d1, evs)"
  have side: "m_TakerSide sample_match = SideBuy" "Base (m_Symbol sample_match) \<noteq> Quote (m_Symbol sample_match)"
    "m_MakerUserID sample_match \<noteq> m_TakerUserID sample_match" "feeAccountID \<noteq> m_TakerUserID sample_match"
    by (simp_all add: sample_match_def feeAccountID_def)
  have fee: "CalculateFee (NewFeeService None) (m_TakerUserID sample_match) False (m_QuoteQty sample_match) =
      Inr (Decimal (Some (2 * 10 ^ 17)))" unfolding sample_parties by (rule default_fees)
  show ?thesis
    using settlement_takes_frozen_too [OF s insert_trade_laws(1) side fee refl _ refl] s settle_db_facts(4,6)
    by (intro exI [of _ d1] exI [of _ evs]) (simp add: sample_parties(1-9))
qed

end
