(* ===== verification/Hd_Wallet.thy ===== *)
theory Hd_Wallet
  imports Common_Types "HOL-Library.Word"
begin

section \<open>Hierarchical keys and addresses (wallet/hdwallet.go)\<close>

text \<open>
  BIP32 derivation as the code does it, over the primitives it imports: HMAC-SHA512, Keccak-256 and
  the two serialisations of a secp256k1 public key are the fields of the parameter \<open>crypto\<close>. A
  private key is its scalar. Byte strings are strings; depth and index keep their Go widths.
\<close>

record crypto =
  hmac_sha512 :: "string \<Rightarrow> string \<Rightarrow> string"
  keccak256 :: "string \<Rightarrow> string"
  SerializeCompressed :: "nat \<Rightarrow> string"
  SerializeUncompressed :: "nat \<Rightarrow> string"

definition curveOrder :: nat where
  "curveOrder = 0xFFFFFFFFFFFFFFFFFFFFFFFFFFFFFFFEBAAEDCE6AF48A03BBFD25E8CD0364141"

definition hardenedKey :: "32 word" where "hardenedKey = 0x80000000"

record ExtendedKey =
  ek_Key :: nat
  ek_ChainCode :: string
  ek_Depth :: "8 word"
  ek_Index :: "32 word"

subsection \<open>Big-endian bytes and hexadecimal text\<close>

definition SetBytes :: "string \<Rightarrow> nat" where
  "SetBytes bs = foldl (\<lambda>n c. 256 * n + byte c) 0 bs"

fun be_bytes :: "nat \<Rightarrow> nat \<Rightarrow> string" where
  "be_bytes 0 n = []"
| "be_bytes (Suc k) n = be_bytes k (n div 256) @ [char_of (n mod 256)]"

definition hex_digit :: "nat \<Rightarrow> char" where
  "hex_digit d = (if d < 10 then char_of (48 + d) else char_of (87 + d))"

definition hex_encode :: "string \<Rightarrow> string" where
  "hex_encode bs = concat (map (\<lambda>c. [hex_digit (byte c div 16), hex_digit (byte c mod 16)]) bs)"

definition hex_val :: "char \<Rightarrow> nat option" where
  "hex_val c =
     (let b = byte c :: nat in
      if 48 \<le> b \<and> b \<le> 57 then Some (b - 48)
      else if 97 \<le> b \<and> b \<le> 102 then Some (b - 87)
      else if 65 \<le> b \<and> b \<le> 70 then Some (b - 55) else None)"

text \<open>\<open>hex.DecodeString\<close>: pairs first, then the odd length.\<close>

fun DecodeString :: "string \<Rightarrow> error + string" where
  "DecodeString [] = Inr []"
| "DecodeString [c] = Inl (Errorf (if hex_val c = None then ''encoding/hex: invalid byte''
     else ''encoding/hex: odd length hex string''))"
| "DecodeString (c # c' # cs) =
     (case (hex_val c, hex_val c') of
        (Some h, Some l) \<Rightarrow> map_sum id ((#) (char_of (16 * h + l))) (DecodeString cs)
      | _ \<Rightarrow> Inl (Errorf ''encoding/hex: invalid byte''))"

lemma SetBytes_snoc: "SetBytes (bs @ [c]) = 256 * SetBytes bs + byte c"
  by (simp add: SetBytes_def)

lemma be_bytes_length [simp]: "length (be_bytes k n) = k"
  by (induction k arbitrary: n) auto

lemma SetBytes_be_bytes: "n < 256 ^ k \<Longrightarrow> SetBytes (be_bytes k n) = n"
proof (induction k arbitrary: n)
  case 0
  then show ?case by (simp add: SetBytes_def)
next
  case (Suc k)
  then have "n div 256 < 256 ^ k" by (simp add: less_mult_imp_div_less)
  with Suc.IH show ?case by (simp add: SetBytes_snoc)
qed

lemma hex_val_hex_digit: "d < 16 \<Longrightarrow> hex_val (hex_digit d) = Some d"
  by (simp add: hex_val_def hex_digit_def)

lemma DecodeString_encode: "DecodeString (hex_encode bs) = Inr bs"
proof (induction bs)
  case (Cons c bs)
  have "byte c < (256 :: nat)" using of_char_mod_256 [of c, where ?'a = nat] by (metis mod_less_divisor zero_less_numeral)
  then have "byte c div 16 < (16 :: nat)" by (simp add: less_mult_imp_div_less)
  moreover have "char_of (16 * (byte c div 16) + byte c mod 16 :: nat) = c" by simp
  ultimately show ?case using Cons by (simp add: hex_encode_def hex_val_hex_digit)
qed (simp add: hex_encode_def)

lemma hex_encode_length [simp]: "length (hex_encode bs) = 2 * length bs"
  by (induction bs) (simp_all add: hex_encode_def)

subsection \<open>Derivation\<close>

definition MasterKeyFromSeed :: "crypto \<Rightarrow> string \<Rightarrow> error + ExtendedKey" where
  "MasterKeyFromSeed cr seed =
     (if length seed < 16 \<or> 64 < length seed then
        Inl (Errorf (''seed must be 16-64 bytes, got '' @ show_nat (length seed)))
      else
        (let I = hmac_sha512 cr ''Bitcoin seed'' seed; IL = take 32 I; IR = drop 32 I in
         if SetBytes IL \<ge> curveOrder \<or> SetBytes IL = 0 then
           Inl (Errorf ''invalid master key: IL >= n or IL == 0'')
         else Inr \<lparr>ek_Key = SetBytes IL, ek_ChainCode = IR, ek_Depth = 0, ek_Index = 0\<rparr>))"

definition DeriveChild :: "crypto \<Rightarrow> ExtendedKey \<Rightarrow> 32 word \<Rightarrow> error + ExtendedKey" where
  "DeriveChild cr ek index =
     (let data = (if hardenedKey \<le> index then char_of (0 :: nat) # be_bytes 32 (ek_Key ek)
                  else SerializeCompressed cr (ek_Key ek)) @ be_bytes 4 (unat index);
          I = hmac_sha512 cr (ek_ChainCode ek) data; IL = take 32 I; IR = drop 32 I
      in if SetBytes IL \<ge> curveOrder then Inl (Errorf ''invalid child key: IL >= n'')
         else
           (let childD = (SetBytes IL + SetBytes (be_bytes 32 (ek_Key ek))) mod curveOrder in
            if childD = 0 then Inl (Errorf ''invalid child key: child == 0'')
            else Inr \<lparr>ek_Key = childD, ek_ChainCode = IR, ek_Depth = ek_Depth ek + 1, ek_Index = index\<rparr>))"

definition PublicAddress :: "crypto \<Rightarrow> nat \<Rightarrow> string" where
  "PublicAddress cr key =
     ''0x'' @ hex_encode (drop 12 (keccak256 cr (tl (SerializeUncompressed cr key))))"

definition derive_step :: "crypto \<Rightarrow> string \<Rightarrow> 32 word \<Rightarrow> error + ExtendedKey \<Rightarrow> error + ExtendedKey" where
  "derive_step cr what index r =
     (case r of Inl e \<Rightarrow> Inl e
      | Inr ek \<Rightarrow> map_sum (WrapBefore (''derive '' @ what @ '': '')) id (DeriveChild cr ek index))"

definition deriveBIP44WithAccount ::
  "crypto \<Rightarrow> ExtendedKey \<Rightarrow> 32 word \<Rightarrow> 32 word \<Rightarrow> error + string \<times> nat" where
  "deriveBIP44WithAccount cr mk account addressIndex =
     map_sum id (\<lambda>child. (PublicAddress cr (ek_Key child), ek_Key child))
       (derive_step cr ''address index'' addressIndex
         (derive_step cr ''change'' 0
           (derive_step cr ''account'' (hardenedKey + account)
             (derive_step cr ''coin type'' (hardenedKey + 60)
               (derive_step cr ''purpose'' (hardenedKey + 44) (Inr mk))))))"

definition DeriveBIP44Address :: "crypto \<Rightarrow> ExtendedKey \<Rightarrow> 32 word \<Rightarrow> error + string \<times> nat" where
  "DeriveBIP44Address cr mk addressIndex = deriveBIP44WithAccount cr mk 0 addressIndex"

definition hashUserIDToAccount :: "crypto \<Rightarrow> string \<Rightarrow> 32 word" where
  "hashUserIDToAccount cr uid = word_of_nat (SetBytes (take 4 (keccak256 cr uid)) mod 2 ^ 31)"

definition DeriveBIP44AddressForUser ::
  "crypto \<Rightarrow> ExtendedKey \<Rightarrow> string \<Rightarrow> 32 word \<Rightarrow> (error + string \<times> nat) \<times> string" where
  "DeriveBIP44AddressForUser cr mk uid addressIndex =
     (let account = hashUserIDToAccount cr uid in
      (deriveBIP44WithAccount cr mk account addressIndex,
       ''m/44'' @ [CHR 0x27] @ ''/60'' @ [CHR 0x27] @ ''/'' @ show_nat (unat (hardenedKey + account)) @
       [CHR 0x27] @ ''/0/'' @ show_nat (unat addressIndex)))"

subsection \<open>Valid keys and addresses\<close>

definition valid_key :: "nat \<Rightarrow> bool" where
  "valid_key k \<longleftrightarrow> 0 < k \<and> k < curveOrder"

lemma valid_key_bytes: "valid_key k \<Longrightarrow> SetBytes (be_bytes 32 k) = k"
  by (rule SetBytes_be_bytes) (simp add: valid_key_def curveOrder_def)

lemma MasterKeyFromSeed_valid: "MasterKeyFromSeed cr seed = Inr ek \<Longrightarrow> valid_key (ek_Key ek)"
  by (auto simp: MasterKeyFromSeed_def valid_key_def Let_def split: if_splits)

lemma DeriveChild_valid:
  "DeriveChild cr ek index = Inr ek' \<Longrightarrow> valid_key (ek_Key ek') \<and> ek_Index ek' = index \<and>
     ek_Depth ek' = ek_Depth ek + 1"
  by (auto simp: DeriveChild_def valid_key_def Let_def curveOrder_def split: if_splits)

lemma derive_step_Inr:
  "derive_step cr what index r = Inr ek' \<longleftrightarrow> (\<exists>ek. r = Inr ek \<and> DeriveChild cr ek index = Inr ek')"
  by (cases r) (auto simp: derive_step_def map_sum_def split: sum.splits)

lemma PublicAddress_length:
  "length (keccak256 cr (tl (SerializeUncompressed cr key))) = 32 \<Longrightarrow> length (PublicAddress cr key) = 42"
  by (simp add: PublicAddress_def)

text \<open>A derived deposit address is the checksum-less Ethereum form that the tables have room for:
  the key is a valid scalar of the curve, the address is \<open>0x\<close> and 40 hexadecimal digits that read
  back as the last 20 bytes of the hash of its public key. (Keccak-256 has 32 bytes of output.)\<close>

theorem derived_address_wellformed:
  assumes "deriveBIP44WithAccount cr mk account index = Inr (addr, key)"
    "\<forall>x. length (keccak256 cr x) = 32"
  shows "0 < key \<and> key < curveOrder \<and> length addr = 42 \<and> take 2 addr = ''0x'' \<and>
    DecodeString (drop 2 addr) = Inr (drop 12 (keccak256 cr (tl (SerializeUncompressed cr key))))"
proof -
  obtain ek0 ek where "DeriveChild cr ek0 index = Inr ek" "addr = PublicAddress cr (ek_Key ek)" "key = ek_Key ek"
    using assms(1) by (auto simp: deriveBIP44WithAccount_def map_sum_def derive_step_Inr split: sum.splits)
  then show ?thesis
    using DeriveChild_valid [of cr ek0 index ek] PublicAddress_length assms(2)
    by (simp add: valid_key_def PublicAddress_def DecodeString_encode)
qed

text \<open>A toy instance of the primitives: every digest adds one to the key.\<close>

definition sample_crypto :: crypto where
  "sample_crypto = \<lparr>hmac_sha512 = (\<lambda>_ _. replicate 31 (char_of (0 :: nat)) @ [char_of (1 :: nat)] @ replicate 32 (CHR ''c'')),
     keccak256 = (\<lambda>x. replicate 32 (CHR ''k'')), SerializeCompressed = be_bytes 33,
     SerializeUncompressed = be_bytes 65\<rparr>"

definition sample_master :: ExtendedKey where
  "sample_master = \<lparr>ek_Key = 1, ek_ChainCode = replicate 32 (CHR ''c''), ek_Depth = 0, ek_Index = 0\<rparr>"

lemma sample_one: "SetBytes (replicate 31 (char_of (0 :: nat)) @ [char_of (1 :: nat)]) = 1"
proof -
  have "SetBytes (replicate n (char_of (0 :: nat))) = 0" for n
    by (induction n) (simp_all add: SetBytes_def)
  then show ?thesis by (simp only: SetBytes_snoc) simp
qed

lemma sample_child:
  assumes "ek_Key ek < 1000"
  shows "\<exists>ek'. DeriveChild sample_crypto ek index = Inr ek' \<and> ek_Key ek' = ek_Key ek + 1"
proof -
  have "SetBytes (be_bytes 32 (ek_Key ek)) = ek_Key ek" by (rule SetBytes_be_bytes) (use assms in simp)
  moreover have "take 32 (replicate 31 (char_of (0 :: nat)) @ char_of (1 :: nat) # replicate 32 (CHR ''c'')) =
      replicate 31 (char_of (0 :: nat)) @ [char_of (1 :: nat)]" by simp
  ultimately show ?thesis
    using assms sample_one by (simp add: DeriveChild_def sample_crypto_def Let_def curveOrder_def)
qed

lemma sample_derivation: "\<exists>addr. deriveBIP44WithAccount sample_crypto sample_master account index = Inr (addr, 6)"
proof -
  obtain e1 where 1: "DeriveChild sample_crypto sample_master (hardenedKey + 44) = Inr e1" "ek_Key e1 = 2"
    using sample_child [of sample_master "hardenedKey + 44"] by (auto simp: sample_master_def)
  obtain e2 where 2: "DeriveChild sample_crypto e1 (hardenedKey + 60) = Inr e2" "ek_Key e2 = 3"
    using sample_child [of e1 "hardenedKey + 60"] 1(2) by auto
  obtain e3 where 3: "DeriveChild sample_crypto e2 (hardenedKey + account) = Inr e3" "ek_Key e3 = 4"
    using sample_child [of e2 "hardenedKey + account"] 2(2) by auto
  obtain e4 where 4: "DeriveChild sample_crypto e3 0 = Inr e4" "ek_Key e4 = 5"
    using sample_child [of e3 0] 3(2) by auto
  obtain e5 where 5: "DeriveChild sample_crypto e4 index = Inr e5" "ek_Key e5 = 6"
    using sample_child [of e4 index] 4(2) by auto
  show ?thesis using 1 2 3 4 5 by (simp add: deriveBIP44WithAccount_def derive_step_def)
qed

theorem derived_address_wellformed_witness:
  "\<exists>addr. deriveBIP44WithAccount sample_crypto sample_master 7 3 = Inr (addr, 6) \<and> length addr = 42"
proof -
  obtain addr where a: "deriveBIP44WithAccount sample_crypto sample_master 7 3 = Inr (addr, 6)"
    using sample_derivation by blast
  have "\<forall>x. length (keccak256 sample_crypto x) = 32" by (simp add: sample_crypto_def)
  from derived_address_wellformed [OF a this] a show ?thesis by blast
qed

end
