(* ===== verification/Wallet.thy ===== *)
theory Wallet
  imports Settlement Hd_Wallet
begin

section \<open>Deposits and withdrawals (wallet/service.go)\<close>

text \<open>
  The wallet service: deposit addresses, crediting of confirmed deposits, withdrawal requests. The
  index map is the Go map from the text \<open>user:currency:chain\<close> to the next index; what
  \<open>randomSeed\<close> and \<open>NewWithdrawalID\<close> return are arguments. Confirmations and block number
  are unsigned 64-bit values of the event that must fit INTEGER and BIGINT columns.
\<close>

record wallet_service =
  ws_bus :: bool
  ws_caps :: "Currency \<rightharpoonup> decimal"
  ws_master :: "ExtendedKey option"
  ws_addrIdx :: "string \<rightharpoonup> 32 word"

definition wallet_NewService :: "bool \<Rightarrow> wallet_service" where
  "wallet_NewService bus = \<lparr>ws_bus = bus,
     ws_caps = [''ETH'' \<mapsto> decimalMust ''500'', ''USDT'' \<mapsto> decimalMust ''1000000''],
     ws_master = None, ws_addrIdx = Map.empty\<rparr>"

definition LoadMasterSeed :: "crypto \<Rightarrow> string \<Rightarrow> wallet_service \<Rightarrow> error option \<times> wallet_service" where
  "LoadMasterSeed cr seedHex s =
     (case DecodeString seedHex of
        Inl e \<Rightarrow> (Some (WrapBefore ''decode seed hex: '' e), s)
      | Inr seed \<Rightarrow>
          (case MasterKeyFromSeed cr seed of
             Inl e \<Rightarrow> (Some (WrapBefore ''derive master key: '' e), s)
           | Inr mk \<Rightarrow> (None, s\<lparr>ws_master := Some mk\<rparr>)))"

definition LoadOrGenerateMasterSeed ::
  "crypto \<Rightarrow> string \<Rightarrow> wallet_service \<Rightarrow> error option \<times> wallet_service" where
  "LoadOrGenerateMasterSeed cr seedHex s = (if seedHex = '''' then (None, s) else LoadMasterSeed cr seedHex s)"

subsection \<open>Deposit addresses\<close>

definition select_address :: "string \<Rightarrow> string \<Rightarrow> string \<Rightarrow> string sql" where
  "select_address uid cur chain d =
     (case filter (\<lambda>r. da_user_id r = uid \<and> da_currency r = cur \<and> da_chain r = chain) (db_addresses d) of
        [] \<Rightarrow> (Inl (Errorf ''no rows in result set''), d)
      | r # _ \<Rightarrow> (Inr (da_address r), d))"

definition insert_address :: "deposit_address_row \<Rightarrow> int sql" where
  "insert_address r d =
     (if \<not> (varchar_ok 20 (da_currency r) \<and> varchar_ok 20 (da_chain r) \<and> varchar_ok 42 (da_address r) \<and>
         varchar_ok 50 (da_path r)) then (Inl (pg_error ''value too long''), d)
      else if (da_address r, da_chain r) \<in> (\<lambda>r. (da_address r, da_chain r)) ` set (db_addresses d) then
        (Inl (pg_error ''duplicate key value violates unique constraint''), d)
      else if da_user_id r \<notin> set (db_users d) then
        (Inl (pg_error ''violates foreign key constraint''), d)
      else (Inr 1, d\<lparr>db_addresses := db_addresses d @ [r]\<rparr>))"

definition index_key :: "string \<Rightarrow> Currency \<Rightarrow> string \<Rightarrow> string" where
  "index_key uid cur chain = uid @ '':'' @ cur @ '':'' @ chain"

text \<open>Address and path of a new address, and the service with its index moved on.\<close>

definition new_address ::
  "crypto \<Rightarrow> string \<Rightarrow> wallet_service \<Rightarrow> string \<Rightarrow> Currency \<Rightarrow> string \<Rightarrow>
     (error + string \<times> string) \<times> wallet_service" where
  "new_address cr rnd s uid cur chain =
     (case ws_master s of
        Some mk \<Rightarrow>
          (let key = index_key uid cur chain;
               index = (case ws_addrIdx s key of None \<Rightarrow> 0 | Some i \<Rightarrow> i);
               s' = s\<lparr>ws_addrIdx := (ws_addrIdx s)(key \<mapsto> index + 1)\<rparr>;
               (r, path) = DeriveBIP44AddressForUser cr mk uid index
           in (map_sum (WrapBefore ''derive bip44: '') (\<lambda>(addr, _). (addr, path)) r, s'))
      | None \<Rightarrow>
          (case MasterKeyFromSeed cr rnd of
             Inl e \<Rightarrow> (Inl (WrapBefore ''generate fallback key: '' e), s)
           | Inr mk \<Rightarrow> (Inr (PublicAddress cr (ek_Key mk), ''random''), s)))"

definition GenerateDepositAddress ::
  "crypto \<Rightarrow> string \<Rightarrow> wallet_service \<Rightarrow> string \<Rightarrow> Currency \<Rightarrow> string \<Rightarrow> db \<Rightarrow>
     (error + string) \<times> wallet_service \<times> db" where
  "GenerateDepositAddress cr rnd s uid cur chain d =
     (case stmt (select_address uid cur chain) d of
        (Inr existing, d1) \<Rightarrow> (Inr existing, s, d1)
      | (Inl _, d1) \<Rightarrow>
          (case new_address cr rnd s uid cur chain of
             (Inl e, s') \<Rightarrow> (Inl e, s', d1)
           | (Inr (addr, path), s') \<Rightarrow>
               (case stmt (insert_address \<lparr>da_user_id = uid, da_currency = cur, da_chain = chain,
                    da_address = addr, da_path = path\<rparr>) d1 of
                  (Inl e, d2) \<Rightarrow> (Inl (WrapBefore ''insert deposit address: '' e), s', d2)
                | (Inr _, d2) \<Rightarrow> (Inr addr, s', d2))))"

subsection \<open>Deposits\<close>

record DepositEvent =
  de_TxHash :: string
  de_Currency :: string
  de_Chain :: string
  de_FromAddress :: string
  de_ToAddress :: string
  de_Amount :: decimal
  de_BlockNumber :: "64 word"
  de_Confirmations :: "64 word"
  de_RequiredConfirmations :: "64 word"

definition select_address_user :: "string \<Rightarrow> string \<Rightarrow> string sql" where
  "select_address_user addr chain d =
     (case filter (\<lambda>r. da_address r = addr \<and> da_chain r = chain) (db_addresses d) of
        [] \<Rightarrow> (Inl (Errorf ''no rows in result set''), d)
      | r # _ \<Rightarrow> (Inr (da_user_id r), d))"

definition deposit_fits :: "DepositEvent \<Rightarrow> bool" where
  "deposit_fits ev \<longleftrightarrow> varchar_ok 66 (de_TxHash ev) \<and> varchar_ok 20 (de_Currency ev) \<and>
     varchar_ok 20 (de_Chain ev) \<and> varchar_ok 42 (de_FromAddress ev) \<and> varchar_ok 42 (de_ToAddress ev) \<and>
     numeric_ok (val (de_Amount ev)) \<and> unat (de_BlockNumber ev) < 2 ^ 63 \<and>
     unat (de_Confirmations ev) < 2 ^ 31 \<and> unat (de_RequiredConfirmations ev) < 2 ^ 31"

definition insert_deposit :: "DepositEvent \<Rightarrow> string \<Rightarrow> int sql" where
  "insert_deposit ev uid d =
     (if \<not> deposit_fits ev then (Inl (pg_error ''value out of range''), d)
      else if (de_TxHash ev, de_ToAddress ev) \<in> (\<lambda>r. (dp_tx_hash r, dp_to_address r)) ` set (db_deposits d)
        then (Inr 0, d)
      else if uid \<notin> set (db_users d) then (Inl (pg_error ''violates foreign key constraint''), d)
      else (Inr 1, d\<lparr>db_deposits := db_deposits d @
        [\<lparr>dp_tx_hash = de_TxHash ev, dp_to_address = de_ToAddress ev, dp_currency = de_Currency ev,
          dp_chain = de_Chain ev, dp_amount = val (de_Amount ev), dp_status = DepositStatusPending,
          dp_user_id = uid\<rparr>]\<rparr>))"

definition is_pending :: "string \<Rightarrow> string \<Rightarrow> deposit_row \<Rightarrow> bool" where
  "is_pending tx to r \<longleftrightarrow> dp_tx_hash r = tx \<and> dp_to_address r = to \<and> dp_status r = DepositStatusPending"

text \<open>The rows with the pending ones of a transaction and address confirmed.\<close>

definition confirmed_rows :: "string \<Rightarrow> string \<Rightarrow> deposit_row list \<Rightarrow> deposit_row list" where
  "confirmed_rows tx to ds =
     map (\<lambda>r. if is_pending tx to r then r\<lparr>dp_status := DepositStatusConfirmed\<rparr> else r) ds"

definition confirm_stmt :: "string \<Rightarrow> string \<Rightarrow> int sql" where
  "confirm_stmt tx to d =
     (Inr (int (length (filter (is_pending tx to) (db_deposits d)))),
      d\<lparr>db_deposits := confirmed_rows tx to (db_deposits d)\<rparr>)"

definition credit_stmt :: "string \<Rightarrow> string \<Rightarrow> int \<Rightarrow> int sql" where
  "credit_stmt uid cur amt d =
     (if \<not> varchar_ok 20 cur \<or> \<not> numeric_ok amt then (Inl (pg_error ''value out of range''), d)
      else
        (case db_accounts d (uid, cur) of
           None \<Rightarrow>
             if uid \<notin> set (db_users d) then (Inl (pg_error ''violates foreign key constraint''), d)
             else write_account (uid, cur) \<lparr>ac_balance = amt, ac_frozen = 0, ac_version = 1\<rparr> d
         | Some a \<Rightarrow> write_account (uid, cur) (a\<lparr>ac_balance := ac_balance a + amt\<rparr>) d))"

definition emitDepositConfirmed ::
  "bool \<Rightarrow> string \<Rightarrow> string \<Rightarrow> decimal \<Rightarrow> string \<Rightarrow> (string \<times> EventType \<times> json_object) list" where
  "emitDepositConfirmed bus uid cur amount txHash =
     (if \<not> bus then []
      else [(''deposit.confirmed'', EventDepositConfirmed, marshal_BalanceChanged
        \<lparr>bcp_UserID = uid, bcp_Currency = cur, bcp_Amount = String amount, bcp_NewBalance = '''',
         bcp_Reason = ''deposit'', bcp_Reference = txHash\<rparr>)])"

definition confirmDeposit ::
  "bool \<Rightarrow> string \<Rightarrow> string \<Rightarrow> string \<Rightarrow> decimal \<Rightarrow> string \<Rightarrow> db \<Rightarrow>
     error option \<times> db \<times> (string \<times> EventType \<times> json_object) list" where
  "confirmDeposit bus tx to uid amount cur d =
     (case begin_tx d of
        (Inl e, d') \<Rightarrow> (Some (WrapBefore ''begin tx: '' e), d', [])
      | (Inr t, _) \<Rightarrow>
          (case in_tx (stmt (confirm_stmt tx to)) t of
             (Inl e, t1) \<Rightarrow> (Some (WrapBefore ''update deposit status: '' e), rollback d t1, [])
           | (Inr n, t1) \<Rightarrow>
               if n = 0 then (None, rollback d t1, [])
               else
                 (case in_tx (stmt (credit_stmt uid cur (val amount))) t1 of
                    (Inl e, t2) \<Rightarrow> (Some (WrapBefore ''credit balance: '' e), rollback d t2, [])
                  | (Inr _, t2) \<Rightarrow>
                      (let t3 = snd (in_tx (stmt (insert_audit \<lparr>au_user_id = uid, au_currency = cur,
                           au_type = ''deposit'', au_amount = val amount, au_before = 0,
                           au_after = val amount\<rparr>)) t2) in
                       case commit d t3 of
                         (Some e, d') \<Rightarrow> (Some (WrapBefore ''commit deposit: '' e), d', [])
                       | (None, d') \<Rightarrow> (None, d', emitDepositConfirmed bus uid cur amount tx)))))"

definition ProcessDeposit ::
  "bool \<Rightarrow> DepositEvent \<Rightarrow> db \<Rightarrow> error option \<times> db \<times> (string \<times> EventType \<times> json_object) list" where
  "ProcessDeposit bus ev d =
     (case stmt (select_address_user (de_ToAddress ev) (de_Chain ev)) d of
        (Inl e, d1) \<Rightarrow> (Some (WrapBefore (''unknown deposit address '' @ de_ToAddress ev @ '': '') e), d1, [])
      | (Inr uid, d1) \<Rightarrow>
          (case stmt (insert_deposit ev uid) d1 of
             (Inl e, d2) \<Rightarrow> (Some (WrapBefore ''insert deposit: '' e), d2, [])
           | (Inr _, d2) \<Rightarrow>
               if de_RequiredConfirmations ev \<le> de_Confirmations ev then
                 confirmDeposit bus (de_TxHash ev) (de_ToAddress ev) uid (de_Amount ev) (de_Currency ev) d2
               else (None, d2, [])))"

subsection \<open>Withdrawals\<close>

record WithdrawalRequest =
  wr_UserID :: string
  wr_Currency :: string
  wr_Chain :: string
  wr_ToAddress :: string
  wr_Amount :: decimal
  wr_Fee :: decimal

record WithdrawalResult =
  wres_WithdrawalID :: string
  wres_Status :: string
  wres_WalletType :: string
  wres_TxHash :: string

definition debit_stmt :: "string \<Rightarrow> string \<Rightarrow> int \<Rightarrow> int sql" where
  "debit_stmt uid cur amt d =
     (case db_accounts d (uid, cur) of
        None \<Rightarrow> (Inr 0, d)
      | Some a \<Rightarrow> write_account (uid, cur) (a\<lparr>ac_balance := ac_balance a - amt\<rparr>) d)"

definition insert_withdrawal :: "withdrawal_row \<Rightarrow> int sql" where
  "insert_withdrawal r d =
     (if \<not> (varchar_ok 50 (w_id r) \<and> varchar_ok 20 (w_currency r) \<and> varchar_ok 20 (w_chain r) \<and>
         varchar_ok 42 (w_to_address r) \<and> numeric_ok (w_amount r) \<and> numeric_ok (w_fee r)) then
        (Inl (pg_error ''value out of range''), d)
      else if w_id r \<in> w_id ` set (db_withdrawals d) then
        (Inl (pg_error ''duplicate key value violates unique constraint''), d)
      else if w_user_id r \<notin> set (db_users d) then
        (Inl (pg_error ''violates foreign key constraint''), d)
      else (Inr 1, d\<lparr>db_withdrawals := db_withdrawals d @ [r]\<rparr>))"

text \<open>Hot or cold: the cap of a currency without one is the zero decimal.\<close>

definition wallet_type :: "wallet_service \<Rightarrow> WithdrawalRequest \<Rightarrow> string" where
  "wallet_type s req =
     (if Cmp (wr_Amount req) (case ws_caps s (wr_Currency req) of None \<Rightarrow> NilDecimal | Some c \<Rightarrow> c) > 0
      then ''cold'' else ''hot'')"

definition withdrawal_row_of :: "wallet_service \<Rightarrow> string \<Rightarrow> WithdrawalRequest \<Rightarrow> withdrawal_row" where
  "withdrawal_row_of s wid req =
     \<lparr>w_id = wid, w_user_id = wr_UserID req, w_currency = wr_Currency req, w_chain = wr_Chain req,
      w_to_address = wr_ToAddress req, w_amount = val (wr_Amount req), w_fee = val (wr_Fee req),
      w_wallet_type = wallet_type s req, w_status = WithdrawalStatusPending\<rparr>"

definition RequestWithdrawal ::
  "wallet_service \<Rightarrow> string \<Rightarrow> WithdrawalRequest \<Rightarrow> db \<Rightarrow> (error + WithdrawalResult) \<times> db" where
  "RequestWithdrawal s wid req d =
     (case begin_tx d of
        (Inl e, d') \<Rightarrow> (Inl (WrapBefore ''begin tx: '' e), d')
      | (Inr t, _) \<Rightarrow>
          (case in_tx (stmt (select_account (wr_UserID req) (wr_Currency req))) t of
             (Inl e, t1) \<Rightarrow> (Inl (WrapBefore ''get balance: '' e), rollback d t1)
           | (Inr a, t1) \<Rightarrow>
               (case Scan id NilDecimal (SrcString (numeric_text (ac_balance a))) of
                  (Some e, _) \<Rightarrow> (Inl (WrapBefore ''get balance: '' e), rollback d t1)
                | (None, balance) \<Rightarrow>
                    (let amt = Add (wr_Amount req) (wr_Fee req) in
                     if Cmp balance amt < 0 then (Inl ErrInsufficientBalance, rollback d t1)
                     else
                       (case in_tx (stmt (debit_stmt (wr_UserID req) (wr_Currency req) (val amt))) t1 of
                          (Inl e, t2) \<Rightarrow> (Inl (WrapBefore ''debit balance: '' e), rollback d t2)
                        | (Inr _, t2) \<Rightarrow>
                            (case in_tx (stmt (insert_withdrawal (withdrawal_row_of s wid req))) t2 of
                               (Inl e, t3) \<Rightarrow> (Inl (WrapBefore ''insert withdrawal: '' e), rollback d t3)
                             | (Inr _, t3) \<Rightarrow>
                                 (case commit d t3 of
                                    (Some e, d') \<Rightarrow> (Inl (WrapBefore ''commit withdrawal: '' e), d')
                                  | (None, d') \<Rightarrow>
                                      (Inr \<lparr>wres_WithdrawalID = wid, wres_Status = ''pending'',
                                         wres_WalletType = wallet_type s req, wres_TxHash = ''''\<rparr>, d'))))))))"

subsection \<open>A withdrawal and its tables\<close>

lemma debit_stmt_effect:
  assumes "debit_stmt uid cur amt d = (Inr n, d')" "db_accounts d (uid, cur) \<noteq> None"
  shows "held d' = (held d)((uid, cur) := held d (uid, cur) - amt) \<and> frozen d' = frozen d \<and>
    db_withdrawals d' = db_withdrawals d"
proof -
  obtain a where a: "db_accounts d (uid, cur) = Some a" using assms(2) by blast
  then have w: "write_account (uid, cur) (a\<lparr>ac_balance := ac_balance a - amt\<rparr>) d = (Inr n, d')"
    using assms(1) by (simp add: debit_stmt_def)
  then have "db_withdrawals d' = db_withdrawals d" by (auto simp: write_account_def split: if_splits)
  moreover have "held d (uid, cur) = ac_balance a" "frozen d (uid, cur) = ac_frozen a"
    using a by (simp_all add: held_def frozen_def)
  ultimately show ?thesis using write_account_effect [OF w] by auto
qed

lemma insert_withdrawal_effect:
  assumes "insert_withdrawal r d = (Inr n, d')"
  shows "held d' = held d \<and> frozen d' = frozen d \<and> db_withdrawals d' = db_withdrawals d @ [r] \<and>
    w_id r \<notin> w_id ` set (db_withdrawals d)"
  using assms by (auto simp: insert_withdrawal_def held_def frozen_def fun_eq_iff split: if_splits)

lemma select_account_Inr:
  "select_account uid cur d = (Inr a, d') \<Longrightarrow> d' = d \<and> db_accounts d (uid, cur) = Some a"
  by (auto simp: select_account_def split: option.splits)

lemma RequestWithdrawal_effect:
  "case RequestWithdrawal s wid req d of
     (Inl e, d') \<Rightarrow> \<exists>fs. d' = d\<lparr>db_faults := fs\<rparr>
   | (Inr res, d') \<Rightarrow>
       (let k = (wr_UserID req, wr_Currency req); c = val (wr_Amount req) + val (wr_Fee req) in
        c \<le> held d k \<and> held d' = (held d)(k := held d k - c) \<and> frozen d' = frozen d \<and>
        db_withdrawals d' = db_withdrawals d @ [withdrawal_row_of s wid req] \<and>
        wid \<notin> w_id ` set (db_withdrawals d) \<and> wres_WithdrawalID res = wid)"
proof (cases "RequestWithdrawal s wid req d")
  case (Pair r d')
  obtain rb d0 where b: "begin_tx d = (rb, d0)" by fastforce
  note be = begin_tx_effect [OF b]
  show ?thesis
  proof (cases r)
    case (Inl e)
    then show ?thesis using Pair be
      by (auto simp: RequestWithdrawal_def b Let_def rollback_def dest!: commit_effect
          split: sum.splits prod.splits option.splits if_splits)
  next
    case (Inr res)
    let ?k = "(wr_UserID req, wr_Currency req)" and ?c = "val (wr_Amount req) + val (wr_Fee req)"
    obtain t t1 t2 t3 a n n' where t: "rb = Inr t"
      and 1: "in_tx (stmt (select_account (wr_UserID req) (wr_Currency req))) t = (Inr a, t1)"
      and le: "?c \<le> ac_balance a"
      and 2: "in_tx (stmt (debit_stmt (wr_UserID req) (wr_Currency req) ?c)) t1 = (Inr n, t2)"
      and 3: "in_tx (stmt (insert_withdrawal (withdrawal_row_of s wid req))) t2 = (Inr n', t3)"
      and c: "commit d t3 = (None, d')" and res: "wres_WithdrawalID res = wid"
      using Pair Inr b
      by (auto simp: RequestWithdrawal_def Let_def Scan_def NewFromString_numeric_text not_less
          split: sum.splits prod.splits option.splits if_splits)
    obtain fs0 where t0: "tx_db t = d\<lparr>db_faults := fs0\<rparr>" using be t by blast
    obtain fs1 where "select_account (wr_UserID req) (wr_Currency req) ((tx_db t)\<lparr>db_faults := fs1\<rparr>) = (Inr a, tx_db t1)"
      using in_tx_Inr [OF 1] by blast
    from select_account_Inr [OF this] t0 have t1: "tx_db t1 = d\<lparr>db_faults := fs1\<rparr>" "db_accounts d ?k = Some a"
      by simp_all
    obtain fs2 where s2: "debit_stmt (wr_UserID req) (wr_Currency req) ?c ((tx_db t1)\<lparr>db_faults := fs2\<rparr>) = (Inr n, tx_db t2)"
      using in_tx_Inr [OF 2] by blast
    have "held (tx_db t2) = (held d)(?k := held d ?k - ?c) \<and> frozen (tx_db t2) = frozen d \<and>
        db_withdrawals (tx_db t2) = db_withdrawals d"
      using debit_stmt_effect [OF s2] t1 by simp
    moreover obtain fs3 where
      s3: "insert_withdrawal (withdrawal_row_of s wid req) ((tx_db t2)\<lparr>db_faults := fs3\<rparr>) = (Inr n', tx_db t3)"
      using in_tx_Inr [OF 3] by blast
    moreover have "held d ?k = ac_balance a" using t1(2) by (simp add: held_def)
    moreover obtain fs where "d' = (tx_db t3)\<lparr>db_faults := fs\<rparr>" using commit_effect [OF c] by blast
    ultimately show ?thesis
      using insert_withdrawal_effect [OF s3] le Pair Inr res
      by (simp add: withdrawal_row_of_def Let_def)
  qed
qed

text \<open>C10. A withdrawal request is all or nothing: an error leaves every table as it was; a success
  had amount plus fee available, takes exactly that from the available balance of that one account
  (the frozen funds stay), and adds one pending row with a fresh identifier. The code does not look at
  the sign: a negative amount raises the balance.\<close>

theorem withdrawal_debits_exactly:
  "case RequestWithdrawal s wid req d of
     (Inl e, d') \<Rightarrow> \<exists>fs. d' = d\<lparr>db_faults := fs\<rparr>
   | (Inr res, d') \<Rightarrow>
       (let k = (wr_UserID req, wr_Currency req); c = val (wr_Amount req) + val (wr_Fee req) in
        c \<le> held d k \<and> held d' = (held d)(k := held d k - c) \<and> frozen d' = frozen d \<and>
        db_withdrawals d' = db_withdrawals d @ [withdrawal_row_of s wid req] \<and>
        wid \<notin> w_id ` set (db_withdrawals d) \<and> wres_WithdrawalID res = wid)"
  by (rule RequestWithdrawal_effect)

subsection \<open>A deposit is credited once\<close>

definition deposit_keys :: "db \<Rightarrow> (string \<times> string) set" where
  "deposit_keys d = (\<lambda>r. (dp_tx_hash r, dp_to_address r)) ` set (db_deposits d)"

text \<open>The deposit is in the table and no longer pending.\<close>

definition settled :: "string \<Rightarrow> string \<Rightarrow> db \<Rightarrow> bool" where
  "settled tx to d \<longleftrightarrow> (tx, to) \<in> deposit_keys d \<and> (\<forall>r\<in>set (db_deposits d). \<not> is_pending tx to r)"

lemma settled_faults [simp]: "settled tx to (d\<lparr>db_faults := fs\<rparr>) = settled tx to d"
  by (simp add: settled_def deposit_keys_def)

lemma insert_deposit_effect:
  assumes "insert_deposit ev uid d = (r, d')"
  shows "db_accounts d' = db_accounts d \<and> db_users d' = db_users d \<and>
    (settled tx to d \<longrightarrow> settled tx to d')"
  using assms
  by (auto simp: insert_deposit_def settled_def deposit_keys_def is_pending_def split: if_splits)

lemma confirm_stmt_effect:
  assumes "confirm_stmt tx to d = (Inr n, d')"
  shows "db_accounts d' = db_accounts d \<and> db_users d' = db_users d \<and>
    (settled tx' to' d \<longrightarrow> settled tx' to' d') \<and> db_deposits d' = confirmed_rows tx to (db_deposits d) \<and>
    (n \<noteq> 0 \<longrightarrow> settled tx to d' \<and> \<not> settled tx to d \<and> (\<exists>r\<in>set (db_deposits d). is_pending tx to r))"
proof -
  have d': "d' = d\<lparr>db_deposits := map (\<lambda>r. if is_pending tx to r then r\<lparr>dp_status := DepositStatusConfirmed\<rparr> else r)
      (db_deposits d)\<rparr>" and n: "n = int (length (filter (is_pending tx to) (db_deposits d)))"
    using assms by (auto simp: confirm_stmt_def confirmed_rows_def)
  have keys: "deposit_keys d' = deposit_keys d"
  proof -
    have "map (\<lambda>r. (dp_tx_hash r, dp_to_address r)) (db_deposits d') =
        map (\<lambda>r. (dp_tx_hash r, dp_to_address r)) (db_deposits d)" by (simp add: d')
    then show ?thesis unfolding deposit_keys_def by (metis set_map)
  qed
  have "settled tx' to' d \<longrightarrow> settled tx' to' d'"
    unfolding settled_def keys by (auto simp: d' is_pending_def)
  moreover have "settled tx to d' \<and> \<not> settled tx to d \<and> (\<exists>r\<in>set (db_deposits d). is_pending tx to r)" if nz: "n \<noteq> 0"
  proof -
    obtain r where r: "r \<in> set (db_deposits d)" "is_pending tx to r"
      using nz n by (auto simp: filter_empty_conv)
    then have "(tx, to) \<in> deposit_keys d" by (force simp: deposit_keys_def is_pending_def)
    with r keys show ?thesis unfolding settled_def by (auto simp: d' is_pending_def)
  qed
  ultimately show ?thesis by (simp add: d' confirmed_rows_def)
qed

lemma credit_stmt_effect:
  assumes "credit_stmt uid cur amt d = (Inr n, d')"
  shows "held d' = (held d)((uid, cur) := held d (uid, cur) + amt) \<and> frozen d' = frozen d \<and> books_only d d'"
proof (cases "db_accounts d (uid, cur)")
  case None
  then have "write_account (uid, cur) \<lparr>ac_balance = amt, ac_frozen = 0, ac_version = 1\<rparr> d = (Inr n, d')"
    "held d (uid, cur) = 0" "frozen d (uid, cur) = 0"
    using assms by (auto simp: credit_stmt_def held_def frozen_def split: if_splits)
  then show ?thesis using write_account_effect by (metis account.select_convs(1,2) add_0 fun_upd_triv)
next
  case (Some a)
  then have w: "write_account (uid, cur) (a\<lparr>ac_balance := ac_balance a + amt\<rparr>) d = (Inr n, d')"
    "held d (uid, cur) = ac_balance a" "frozen d (uid, cur) = ac_frozen a"
    using assms by (auto simp: credit_stmt_def held_def frozen_def split: if_splits)
  then show ?thesis using write_account_effect [OF w(1)] by auto
qed

lemma settled_books_only: "books_only d d' \<Longrightarrow> settled tx to d' = settled tx to d"
  by (simp add: books_only_def settled_def deposit_keys_def)

lemma confirmDeposit_effect:
  assumes "confirmDeposit bus tx to uid amount cur d = (r, d', out)"
  shows "(\<exists>fs. d' = d\<lparr>db_faults := fs\<rparr>) \<and> out = [] \<or>
    r = None \<and> \<not> settled tx to d \<and> settled tx to d' \<and> (\<forall>tx' to'. settled tx' to' d \<longrightarrow> settled tx' to' d') \<and>
    held d' = (held d)((uid, cur) := held d (uid, cur) + val amount) \<and> frozen d' = frozen d \<and>
    db_deposits d' = confirmed_rows tx to (db_deposits d) \<and> (\<exists>r\<in>set (db_deposits d). is_pending tx to r)"
proof -
  obtain rb d0 where b: "begin_tx d = (rb, d0)" by fastforce
  note be = begin_tx_effect [OF b]
  show ?thesis
  proof (cases "(\<exists>fs. d' = d\<lparr>db_faults := fs\<rparr>) \<and> out = []")
    case False
    let ?row = "\<lparr>au_user_id = uid, au_currency = cur, au_type = ''deposit'', au_amount = val amount,
      au_before = 0, au_after = val amount\<rparr>"
    obtain t t1 t2 n n' where t: "rb = Inr t"
      and 1: "in_tx (stmt (confirm_stmt tx to)) t = (Inr n, t1)" "n \<noteq> 0"
      and 2: "in_tx (stmt (credit_stmt uid cur (val amount))) t1 = (Inr n', t2)"
      and c: "commit d (snd (in_tx (stmt (insert_audit ?row)) t2)) = (None, d')" and r: "r = None"
      using assms b False be
      by (auto simp: confirmDeposit_def Let_def rollback_def dest!: commit_effect
          split: sum.splits prod.splits option.splits if_splits)
    obtain q t3 where 3: "in_tx (stmt (insert_audit ?row)) t2 = (q, t3)" by fastforce
    obtain fs where d': "\<not> tx_aborted t3" "d' = (tx_db t3)\<lparr>db_faults := fs\<rparr>"
      using commit_effect [OF c] 3 by auto
    obtain x where "q = Inr x" using in_tx_alive [OF 3 d'(1)] by (cases q) auto
    then have e3: "held (tx_db t3) = held (tx_db t2)" "frozen (tx_db t3) = frozen (tx_db t2)"
      "books_only (tx_db t2) (tx_db t3)"
      using in_tx_Inr [of "insert_audit ?row" t2 x t3] 3 insert_audit_effect [of ?row _ x "tx_db t3"]
      by (auto simp: books_only_def)
    obtain fs2 where "credit_stmt uid cur (val amount) ((tx_db t1)\<lparr>db_faults := fs2\<rparr>) = (Inr n', tx_db t2)"
      using in_tx_Inr [OF 2] by blast
    from credit_stmt_effect [OF this] have e2: "held (tx_db t2) =
        (held (tx_db t1))((uid, cur) := held (tx_db t1) (uid, cur) + val amount)"
      "frozen (tx_db t2) = frozen (tx_db t1)" "books_only (tx_db t1) (tx_db t2)"
      by (simp_all add: books_only_def)
    obtain fs1 fs0 where "confirm_stmt tx to ((tx_db t)\<lparr>db_faults := fs1\<rparr>) = (Inr n, tx_db t1)"
      "tx_db t = d\<lparr>db_faults := fs0\<rparr>" using in_tx_Inr [OF 1(1)] be t by blast
    then have s: "confirm_stmt tx to (d\<lparr>db_faults := fs1\<rparr>) = (Inr n, tx_db t1)" by simp
    have e1: "db_accounts (tx_db t1) = db_accounts d" "db_deposits (tx_db t1) = confirmed_rows tx to (db_deposits d)"
      "\<exists>r\<in>set (db_deposits d). is_pending tx to r" "settled tx to (tx_db t1)" "\<not> settled tx to d"
      "settled tx' to' d \<Longrightarrow> settled tx' to' (tx_db t1)" for tx' to'
      using confirm_stmt_effect [OF s, of tx' to'] 1(2) by simp_all
    then have a1: "held (tx_db t1) = held d" "frozen (tx_db t1) = frozen d"
      by (simp_all add: held_def frozen_def fun_eq_iff)
    show ?thesis
      using r d'(2) e1 e2 e3 a1 settled_books_only [OF e2(3)] settled_books_only [OF e3(3)]
      by (simp add: books_only_def)
  qed blast
qed

lemma ProcessDeposit_effect:
  assumes "ProcessDeposit bus ev d = (r, d', out)"
  shows "(\<forall>tx to. settled tx to d \<longrightarrow> settled tx to d') \<and>
    (held d' = held d \<and> frozen d' = frozen d \<and> out = [] \<or>
     r = None \<and> \<not> settled (de_TxHash ev) (de_ToAddress ev) d \<and> settled (de_TxHash ev) (de_ToAddress ev) d' \<and>
     de_RequiredConfirmations ev \<le> de_Confirmations ev \<and>
     (\<exists>row\<in>set (db_addresses d). da_address row = de_ToAddress ev \<and> da_chain row = de_Chain ev \<and>
       (let k = (da_user_id row, de_Currency ev) in
        held d' = (held d)(k := held d k + val (de_Amount ev)) \<and> frozen d' = frozen d)))"
proof -
  obtain r1 d1 where 1: "stmt (select_address_user (de_ToAddress ev) (de_Chain ev)) d = (r1, d1)" by fastforce
  have d1: "\<exists>fs. d1 = d\<lparr>db_faults := fs\<rparr>" and u: "\<And>uid. r1 = Inr uid \<Longrightarrow>
      \<exists>row\<in>set (db_addresses d). da_address row = de_ToAddress ev \<and> da_chain row = de_Chain ev \<and> da_user_id row = uid"
    using 1 by (cases rule: stmt_cases; fastforce simp: select_address_user_def filter_eq_Cons_iff
        split: list.splits)+
  show ?thesis
  proof (cases r1)
    case (Inl e)
    with assms 1 d1 show ?thesis by (auto simp: ProcessDeposit_def)
  next
    case (Inr uid)
    obtain r2 d2 where 2: "stmt (insert_deposit ev uid) d1 = (r2, d2)" by fastforce
    have d2: "db_accounts d2 = db_accounts d" "\<And>tx to. settled tx to d \<Longrightarrow> settled tx to d2"
      using 2 d1 insert_deposit_effect by (cases rule: stmt_cases; fastforce)+
    then have h: "held d2 = held d" "frozen d2 = frozen d" by (simp_all add: held_def frozen_def fun_eq_iff)
    show ?thesis
    proof (cases "isl r2 \<or> \<not> de_RequiredConfirmations ev \<le> de_Confirmations ev")
      case True
      then have "d' = d2" "out = []" using assms 1 2 Inr by (auto simp: ProcessDeposit_def split: sum.splits)
      with h d2 show ?thesis by simp
    next
      case False
      then have c: "confirmDeposit bus (de_TxHash ev) (de_ToAddress ev) uid (de_Amount ev) (de_Currency ev) d2 =
          (r, d', out)"
        using assms 1 2 Inr by (cases r2) (auto simp: ProcessDeposit_def)
      from u [OF Inr] obtain row where "row \<in> set (db_addresses d)" "da_address row = de_ToAddress ev"
        "da_chain row = de_Chain ev" "da_user_id row = uid" by blast
      with confirmDeposit_effect [OF c] h d2 False show ?thesis
        by (auto simp: Let_def)
    qed
  qed
qed

text \<open>The tables after a run of deposit events.\<close>

definition process_all :: "bool \<Rightarrow> DepositEvent list \<Rightarrow> db \<Rightarrow> db" where
  "process_all bus evs d = fold (\<lambda>ev d. fst (snd (ProcessDeposit bus ev d))) evs d"

lemma process_all_settled: "settled tx to d \<Longrightarrow> settled tx to (process_all bus evs d)"
proof (induction evs arbitrary: d)
  case (Cons ev evs)
  have "settled tx to (fst (snd (ProcessDeposit bus ev d)))"
    using ProcessDeposit_effect [of bus ev d] Cons.prems by (metis prod.collapse)
  with Cons.IH show ?case by (simp add: process_all_def)
qed (simp add: process_all_def)

text \<open>C11. A deposit is credited at most once. When an event changes balances or emits, it had enough
  confirmations, it credits exactly its amount to the owner of the address, and from then on, after
  any further events, no event for the same transaction and address changes a balance or emits.\<close>

theorem deposit_credited_once:
  assumes "ProcessDeposit bus ev d = (r, d1, out)" "held d1 \<noteq> held d \<or> out \<noteq> []"
  shows "de_RequiredConfirmations ev \<le> de_Confirmations ev \<and>
    (\<exists>row\<in>set (db_addresses d). da_address row = de_ToAddress ev \<and> da_chain row = de_Chain ev \<and>
       held d1 = (held d)((da_user_id row, de_Currency ev) :=
         held d (da_user_id row, de_Currency ev) + val (de_Amount ev))) \<and>
    (\<forall>evs ev' r' d' out'. de_TxHash ev' = de_TxHash ev \<and> de_ToAddress ev' = de_ToAddress ev \<and>
       ProcessDeposit bus ev' (process_all bus evs d1) = (r', d', out') \<longrightarrow>
       held d' = held (process_all bus evs d1) \<and> frozen d' = frozen (process_all bus evs d1) \<and> out' = [])"
proof -
  have s: "settled (de_TxHash ev) (de_ToAddress ev) d1"
    using ProcessDeposit_effect [OF assms(1)] assms(2) by auto
  have "held d' = held (process_all bus evs d1) \<and> frozen d' = frozen (process_all bus evs d1) \<and> out' = []"
    if "de_TxHash ev' = de_TxHash ev" "de_ToAddress ev' = de_ToAddress ev"
      "ProcessDeposit bus ev' (process_all bus evs d1) = (r', d', out')" for evs ev' r' d' out'
    using ProcessDeposit_effect [OF that(3)] process_all_settled [OF s] that(1,2) by auto
  then show ?thesis using ProcessDeposit_effect [OF assms(1)] assms(2) by (auto simp: Let_def)
qed
subsection \<open>One address per user and chain\<close>

lemma GenerateDepositAddress_first:
  assumes "ws_master s = Some mk" "ws_addrIdx s (index_key uid cur chain) = None" "db_faults d = []"
    "\<forall>r\<in>set (db_addresses d). \<not> (da_user_id r = uid \<and> da_currency r = cur \<and> da_chain r = chain)"
    "GenerateDepositAddress cr rnd s uid cur chain d = (r, s1, d1)"
  shows "s1 = s\<lparr>ws_addrIdx := (ws_addrIdx s)(index_key uid cur chain \<mapsto> 1)\<rparr> \<and>
    (\<forall>addr. r = Inr addr \<longrightarrow> (\<exists>key path. DeriveBIP44AddressForUser cr mk uid 0 = (Inr (addr, key), path) \<and>
       d1 = d\<lparr>db_addresses := db_addresses d @ [\<lparr>da_user_id = uid, da_currency = cur, da_chain = chain,
         da_address = addr, da_path = path\<rparr>]\<rparr>)) \<and>
    (\<forall>e. r = Inl e \<longrightarrow> d1 = d)"
proof -
  have "filter (\<lambda>r. da_user_id r = uid \<and> da_currency r = cur \<and> da_chain r = chain) (db_addresses d) = []"
    using assms(4) by (simp add: filter_empty_conv)
  then show ?thesis
    using assms(1-3,5)
    by (auto simp: GenerateDepositAddress_def stmt_def select_address_def new_address_def Let_def
        insert_address_def map_sum_def split: sum.splits prod.splits if_splits)
qed

text \<open>An address, once given out, is returned again for the same user, currency and chain. But
  the key path depends on user and index only, and the index counts per currency: with the master
  key loaded, the first request of a user for a second currency on the same chain derives the
  address of the first one, and the unique constraint on address and chain refuses it.\<close>

theorem second_currency_address_refused:
  assumes "ws_master s = Some mk" "cur1 \<noteq> cur2" "ws_addrIdx s (index_key uid cur1 chain) = None"
    "ws_addrIdx s (index_key uid cur2 chain) = None" "db_faults d = []"
    "\<forall>r\<in>set (db_addresses d). \<not> (da_user_id r = uid \<and> da_chain r = chain)"
    "GenerateDepositAddress cr rnd s uid cur1 chain d = (Inr addr, s1, d1)"
  shows "GenerateDepositAddress cr rnd1 s1 uid cur1 chain d1 = (Inr addr, s1, d1) \<and>
    (\<exists>e s2. GenerateDepositAddress cr rnd2 s1 uid cur2 chain d1 = (Inl e, s2, d1))"
proof -
  obtain key path where 1: "s1 = s\<lparr>ws_addrIdx := (ws_addrIdx s)(index_key uid cur1 chain \<mapsto> 1)\<rparr>"
    "DeriveBIP44AddressForUser cr mk uid 0 = (Inr (addr, key), path)"
    "d1 = d\<lparr>db_addresses := db_addresses d @ [\<lparr>da_user_id = uid, da_currency = cur1, da_chain = chain,
       da_address = addr, da_path = path\<rparr>]\<rparr>"
    using GenerateDepositAddress_first [OF assms(1,3,5) _ assms(7)] assms(6) by blast
  have none: "filter (\<lambda>r. da_user_id r = uid \<and> da_currency r = cur1 \<and> da_chain r = chain) (db_addresses d) = []"
    using assms(6) by (auto simp: filter_empty_conv)
  have again: "GenerateDepositAddress cr rnd1 s1 uid cur1 chain d1 = (Inr addr, s1, d1)"
    using assms(5) none by (simp add: 1(3) GenerateDepositAddress_def stmt_def select_address_def)
  have key: "index_key uid cur2 chain \<noteq> index_key uid cur1 chain"
    using assms(2) by (simp add: index_key_def)
  obtain r2 s2 d2 where 2: "GenerateDepositAddress cr rnd2 s1 uid cur2 chain d1 = (r2, s2, d2)" by (metis prod_cases3)
  have "ws_master s1 = Some mk" "ws_addrIdx s1 (index_key uid cur2 chain) = None" "db_faults d1 = []"
    "\<forall>r\<in>set (db_addresses d1). \<not> (da_user_id r = uid \<and> da_currency r = cur2 \<and> da_chain r = chain)"
    using assms key by (auto simp: 1(1,3))
  note second = GenerateDepositAddress_first [OF this 2]
  have dup: "fst (insert_address \<lparr>da_user_id = uid, da_currency = cur2, da_chain = chain,
      da_address = addr, da_path = path\<rparr> d1) \<noteq> Inr n" for n
    by (simp add: insert_address_def 1(3))
  have "r2 \<noteq> Inr a" for a
  proof
    assume "r2 = Inr a"
    with second 1(2,3) have "a = addr" "d2 = d1\<lparr>db_addresses := db_addresses d1 @
        [\<lparr>da_user_id = uid, da_currency = cur2, da_chain = chain, da_address = addr, da_path = path\<rparr>]\<rparr>"
      by auto
    moreover have "filter (\<lambda>r. da_user_id r = uid \<and> da_currency r = cur2 \<and> da_chain r = chain) (db_addresses d1) = []"
      using assms(2,6) by (auto simp: 1(3) filter_empty_conv)
    ultimately show False
      using 2 \<open>r2 = Inr a\<close> assms(1,4,5) key 1(2) dup
      by (auto simp: GenerateDepositAddress_def stmt_def select_address_def new_address_def 1(1)
          1(3) Let_def split: sum.splits prod.splits)
  qed
  then obtain e where "r2 = Inl e" by (cases r2) auto
  with 2 second again show ?thesis by auto
qed

text \<open>The example: alice's address, and a deposit of 2 ETH to it seen twice.\<close>

definition wallet_db :: db where
  "wallet_db = (empty_db [''alice''])\<lparr>db_addresses := [\<lparr>da_user_id = ''alice'', da_currency = ''ETH'',
     da_chain = ''ethereum'', da_address = ''0xaa'', da_path = ''random''\<rparr>]\<rparr>"

definition sample_deposit :: DepositEvent where
  "sample_deposit = \<lparr>de_TxHash = ''0x01'', de_Currency = ''ETH'', de_Chain = ''ethereum'',
     de_FromAddress = ''0xbb'', de_ToAddress = ''0xaa'', de_Amount = NewFromInt64 2,
     de_BlockNumber = 7, de_Confirmations = 12, de_RequiredConfirmations = 12\<rparr>"

lemma sample_deposit_runs:
  "\<exists>d1 out. ProcessDeposit True sample_deposit wallet_db = (None, d1, out) \<and> out \<noteq> []"
proof -
  have fits: "deposit_fits sample_deposit"
    by (simp add: deposit_fits_def sample_deposit_def varchar_ok_def char_count_def numeric_ok_def)
  have small: "varchar_ok 20 ''ETH''" "numeric_ok (2 * tenPow18)" "numeric_ok 0"
    by (simp_all add: varchar_ok_def char_count_def numeric_ok_def)
  show ?thesis
    using small fits [unfolded sample_deposit_def]
    by (simp add: ProcessDeposit_def stmt_def select_address_user_def insert_deposit_def sample_deposit_def
        wallet_db_def empty_db_def confirmDeposit_def begin_tx_def in_tx_def confirm_stmt_def confirmed_rows_def is_pending_def
        credit_stmt_def write_account_def insert_audit_def commit_def Let_def emitDepositConfirmed_def)
qed

theorem deposit_credited_once_witness:
  "\<exists>d1 out. ProcessDeposit True sample_deposit wallet_db = (None, d1, out) \<and>
     held d1 (''alice'', ''ETH'') = 2 * tenPow18 \<and>
     held (fst (snd (ProcessDeposit True sample_deposit d1))) = held d1"
proof -
  obtain d1 out where p: "ProcessDeposit True sample_deposit wallet_db = (None, d1, out)" "out \<noteq> []"
    using sample_deposit_runs by blast
  have row: "\<forall>row\<in>set (db_addresses wallet_db). da_user_id row = ''alice''" "held wallet_db (''alice'', ''ETH'') = 0"
    "de_Currency sample_deposit = ''ETH''" "val (de_Amount sample_deposit) = 2 * tenPow18"
    by (simp_all add: wallet_db_def empty_db_def held_def sample_deposit_def)
  obtain r2 d2 out2 where q: "ProcessDeposit True sample_deposit d1 = (r2, d2, out2)" by (metis prod_cases3)
  note t = deposit_credited_once [OF p(1) disjI2 [OF p(2)]]
  from t row have "held d1 (''alice'', ''ETH'') = 2 * tenPow18" by auto
  moreover have "held d2 = held d1"
    using t q by (metis fold_simps(1) process_all_def)
  ultimately show ?thesis using p(1) q by auto
qed

definition seeded_wallet :: wallet_service where
  "seeded_wallet = (wallet_NewService True)\<lparr>ws_master := Some sample_master\<rparr>"

theorem second_currency_address_refused_witness:
  "\<exists>addr s1 d1 e s2. GenerateDepositAddress sample_crypto '''' seeded_wallet ''alice'' ''ETH'' ''ethereum''
      (empty_db [''alice'']) = (Inr addr, s1, d1) \<and>
    GenerateDepositAddress sample_crypto '''' s1 ''alice'' ''USDT'' ''ethereum'' d1 = (Inl e, s2, d1)"
proof -
  have s: "ws_master seeded_wallet = Some sample_master" "ws_addrIdx seeded_wallet k = None" for k
    by (simp_all add: seeded_wallet_def wallet_NewService_def)
  have d: "db_faults (empty_db [''alice'']) = []" "db_addresses (empty_db [''alice'']) = []"
    "db_users (empty_db [''alice'']) = [''alice'']" by (simp_all add: empty_db_def)
  obtain addr where a: "deriveBIP44WithAccount sample_crypto sample_master
      (hashUserIDToAccount sample_crypto ''alice'') 0 = Inr (addr, 6)" using sample_derivation by blast
  have "addr = PublicAddress sample_crypto 6"
    using a by (auto simp: deriveBIP44WithAccount_def map_sum_def split: sum.splits)
  then have "length addr = 42" using PublicAddress_length [of sample_crypto] by (simp add: sample_crypto_def)
  moreover have "char_count addr \<le> length addr" by (simp add: char_count_def)
  ultimately have len: "varchar_ok 42 addr" by (simp add: varchar_ok_def)
  have acc: "hashUserIDToAccount sample_crypto ''alice'' = 0x6B6B6B6B"
  proof -
    have "replicate 4 (CHR ''k'') = ''kkkk''" by (simp add: numeral_eq_Suc)
    then show ?thesis by (simp add: hashUserIDToAccount_def sample_crypto_def SetBytes_def)
  qed
  have path: "varchar_ok 50 (snd (DeriveBIP44AddressForUser sample_crypto sample_master ''alice'' 0))"
    by (simp add: DeriveBIP44AddressForUser_def Let_def acc hardenedKey_def varchar_ok_def char_count_def
        show_nat.simps digit_char_def)
  obtain s1 d1 where g: "GenerateDepositAddress sample_crypto '''' seeded_wallet ''alice'' ''ETH'' ''ethereum''
      (empty_db [''alice'']) = (Inr addr, s1, d1)"
    using s d len path a
    by (auto simp: GenerateDepositAddress_def stmt_def select_address_def new_address_def Let_def
        insert_address_def DeriveBIP44AddressForUser_def varchar_ok_def char_count_def)
  have "\<exists>e s2. GenerateDepositAddress sample_crypto '''' s1 ''alice'' ''USDT'' ''ethereum'' d1 = (Inl e, s2, d1)"
    using second_currency_address_refused [OF s(1) _ s(2) s(2) d(1) _ g] d(2) by simp
  with g show ?thesis by blast
qed

end
