(* ===== verification/Cold_Wallet.thy ===== *)
theory Cold_Wallet
  imports Common_Types Go_Prelude "HOL-Library.Word"
begin

section \<open>Multi-signature requests of the cold wallet (wallet/cold/multisig.go)\<close>

text \<open>
  \<open>MultiSigWallet\<close> with its map of requests. The mutex makes every method one step. The
  signature of a digest by signer \<open>i\<close> is the parameter \<open>sig\<close> (65 bytes or an error), the
  digest \<open>keccak\<close>; \<open>clk\<close> gives the successive readings of the clock in one call.
\<close>

record SignatureShare =
  ss_SignerIndex :: int
  ss_R :: string
  ss_S :: string
  ss_V :: "8 word"

record SigningRequest =
  sg_ID :: string
  sg_FromAddress :: string
  sg_ToAddress :: string
  sg_Amount :: string
  sg_Currency :: string
  sg_Nonce :: "64 word"
  sg_Data :: string
  sg_Threshold :: int
  sg_TotalSigners :: nat
  sg_Shares :: "SignatureShare list"
  sg_CreatedAt :: int
  sg_ExpiresAt :: int
  sg_Status :: string
  sg_TxHash :: string

record MultiSigWallet =
  mw_signers :: nat
  mw_requests :: "string \<rightharpoonup> SigningRequest"

definition NewMultiSigWallet :: "nat \<Rightarrow> MultiSigWallet" where
  "NewMultiSigWallet n = \<lparr>mw_signers = n, mw_requests = Map.empty\<rparr>"

definition day :: int where "day = 24 * 3600 * 1000000000"

definition InitiateSigning ::
  "(nat \<Rightarrow> int) \<Rightarrow> string \<Rightarrow> string \<Rightarrow> string \<Rightarrow> 64 word \<Rightarrow> string \<Rightarrow> int \<Rightarrow> MultiSigWallet \<Rightarrow>
     SigningRequest \<times> MultiSigWallet" where
  "InitiateSigning clk to amount currency nonce dat threshold w =
     (let req = \<lparr>sg_ID = ''ms_'' @ show_int (clk 0), sg_FromAddress = '''', sg_ToAddress = to,
        sg_Amount = amount, sg_Currency = currency, sg_Nonce = nonce, sg_Data = dat,
        sg_Threshold = threshold, sg_TotalSigners = mw_signers w, sg_Shares = [],
        sg_CreatedAt = clk 1, sg_ExpiresAt = clk 2 + day, sg_Status = ''pending'', sg_TxHash = ''''\<rparr>
      in (req, w\<lparr>mw_requests := (mw_requests w)(sg_ID req \<mapsto> req)\<rparr>))"

definition set_request :: "SigningRequest \<Rightarrow> string \<Rightarrow> MultiSigWallet \<Rightarrow> MultiSigWallet" where
  "set_request req rid w = w\<lparr>mw_requests := (mw_requests w)(rid \<mapsto> req)\<rparr>"

text \<open>The text that is hashed and signed.\<close>

definition signing_text :: "SigningRequest \<Rightarrow> string" where
  "signing_text req = sg_ToAddress req @ '':'' @ sg_Amount req @ '':'' @ show_nat (unat (sg_Nonce req))"

definition share_of :: "int \<Rightarrow> string \<Rightarrow> SignatureShare" where
  "share_of i sg = \<lparr>ss_SignerIndex = i, ss_R = take 32 sg, ss_S = take 32 (drop 32 sg),
     ss_V = word_of_nat (byte (sg ! 64)) + 27\<rparr>"

definition Sign ::
  "(string \<Rightarrow> string) \<Rightarrow> (int \<Rightarrow> string \<Rightarrow> error + string) \<Rightarrow> int \<Rightarrow> string \<Rightarrow> int \<Rightarrow> MultiSigWallet \<Rightarrow>
     error option \<times> MultiSigWallet" where
  "Sign keccak sig now rid i w =
     (case mw_requests w rid of
        None \<Rightarrow> (Some (Errorf (''request '' @ rid @ '' not found'')), w)
      | Some req \<Rightarrow>
          if sg_Status req \<noteq> ''pending'' then
            (Some (Errorf (''request '' @ rid @ '' is in status '' @ sg_Status req)), w)
          else if i < 0 \<or> int (mw_signers w) \<le> i then
            (Some (Errorf (''invalid signer index '' @ show_int i)), w)
          else if sg_ExpiresAt req < now then
            (Some (Errorf (''request '' @ rid @ '' has expired'')),
             set_request (req\<lparr>sg_Status := ''expired''\<rparr>) rid w)
          else
            (case sig i (keccak (signing_text req)) of
               Inl e \<Rightarrow> (Some (WrapBefore ''sign: '' e), w)
             | Inr sg \<Rightarrow>
                 (let shares = sg_Shares req @ [share_of i sg];
                      req1 = req\<lparr>sg_Shares := shares\<rparr>;
                      req2 = (if sg_Threshold req \<le> int (length shares) then req1\<lparr>sg_Status := ''ready''\<rparr> else req1)
                  in (None, set_request req2 rid w))))"

text \<open>Go ranges over the map in no fixed order; here the requests are given as the set.\<close>

definition GetReadyRequests :: "MultiSigWallet \<Rightarrow> SigningRequest set" where
  "GetReadyRequests w = {req \<in> ran (mw_requests w). sg_Status req = ''ready''}"

definition MarkBroadcast :: "string \<Rightarrow> string \<Rightarrow> MultiSigWallet \<Rightarrow> MultiSigWallet" where
  "MarkBroadcast rid txHash w =
     (case mw_requests w rid of
        None \<Rightarrow> w
      | Some req \<Rightarrow> set_request (req\<lparr>sg_Status := ''broadcast'', sg_TxHash := txHash\<rparr>) rid w)"

definition SweepRequest ::
  "(nat \<Rightarrow> int) \<Rightarrow> string \<Rightarrow> string \<Rightarrow> string \<Rightarrow> string \<Rightarrow> 64 word \<Rightarrow> int \<Rightarrow> MultiSigWallet \<Rightarrow>
     SigningRequest \<times> MultiSigWallet" where
  "SweepRequest clk fromHotWallet toColdAddress amount currency nonce threshold w =
     InitiateSigning clk toColdAddress amount currency nonce [] threshold w"

subsection \<open>Wallets that can be reached, and what a ready request has\<close>

text \<open>A step is a call of one of the methods, by anybody, at any time.\<close>

inductive wallet_step ::
  "(string \<Rightarrow> string) \<Rightarrow> (int \<Rightarrow> string \<Rightarrow> error + string) \<Rightarrow> MultiSigWallet \<Rightarrow> MultiSigWallet \<Rightarrow> bool"
  for keccak sig where
  initiate: "wallet_step keccak sig w (snd (InitiateSigning clk to amount cur nonce dat threshold w))"
| sign: "wallet_step keccak sig w (snd (Sign keccak sig now rid i w))"
| broadcast: "wallet_step keccak sig w (MarkBroadcast rid txHash w)"

inductive_cases wallet_stepE: "wallet_step keccak sig w w'"

inductive wallet_reachable ::
  "(string \<Rightarrow> string) \<Rightarrow> (int \<Rightarrow> string \<Rightarrow> error + string) \<Rightarrow> nat \<Rightarrow> MultiSigWallet \<Rightarrow> bool"
  for keccak sig n where
  fresh: "wallet_reachable keccak sig n (NewMultiSigWallet n)"
| more: "wallet_reachable keccak sig n w \<Longrightarrow> wallet_step keccak sig w w' \<Longrightarrow> wallet_reachable keccak sig n w'"

definition valid_share :: "(string \<Rightarrow> string) \<Rightarrow> (int \<Rightarrow> string \<Rightarrow> error + string) \<Rightarrow> nat \<Rightarrow> SigningRequest \<Rightarrow> SignatureShare \<Rightarrow> bool" where
  "valid_share keccak sig n req sh \<longleftrightarrow> 0 \<le> ss_SignerIndex sh \<and> ss_SignerIndex sh < int n \<and>
     (\<exists>sg. sig (ss_SignerIndex sh) (keccak (signing_text req)) = Inr sg \<and> sh = share_of (ss_SignerIndex sh) sg)"

definition request_ok :: "(string \<Rightarrow> string) \<Rightarrow> (int \<Rightarrow> string \<Rightarrow> error + string) \<Rightarrow> nat \<Rightarrow> SigningRequest \<Rightarrow> bool" where
  "request_ok keccak sig n req \<longleftrightarrow>
     list_all (valid_share keccak sig n req) (sg_Shares req) \<and>
     (sg_Status req = ''ready'' \<longrightarrow> sg_Threshold req \<le> int (length (sg_Shares req))) \<and>
     (sg_Status req = ''pending'' \<longrightarrow> sg_Shares req = [] \<or> int (length (sg_Shares req)) < sg_Threshold req)"

lemma valid_share_text: "signing_text req' = signing_text req \<Longrightarrow> valid_share keccak sig n req' = valid_share keccak sig n req"
  by (simp add: valid_share_def fun_eq_iff)

lemma Sign_ok:
  assumes "\<forall>rid req. mw_requests w rid = Some req \<longrightarrow> request_ok keccak sig (mw_signers w) req"
    "Sign keccak sig now rid i w = (r, w')"
  shows "mw_signers w' = mw_signers w \<and>
    (\<forall>rid req. mw_requests w' rid = Some req \<longrightarrow> request_ok keccak sig (mw_signers w) req)"
proof (cases "mw_requests w rid")
  case None
  with assms show ?thesis by (auto simp: Sign_def)
next
  case (Some req)
  have ok: "request_ok keccak sig (mw_signers w) req" using assms(1) Some by blast
  have upd: "mw_signers (set_request q rid w) = mw_signers w \<and>
      (\<forall>k req. mw_requests (set_request q rid w) k = Some req \<longrightarrow> request_ok keccak sig (mw_signers w) req)"
    if "request_ok keccak sig (mw_signers w) q" for q
    using that assms(1) by (auto simp: set_request_def)
  let ?exp = "req\<lparr>sg_Status := ''expired''\<rparr>"
  have e: "request_ok keccak sig (mw_signers w) ?exp"
    using ok valid_share_text [of ?exp req] by (simp add: request_ok_def signing_text_def)
  have s: "request_ok keccak sig (mw_signers w)
      (if sg_Threshold req \<le> int (length (sg_Shares req @ [share_of i sg]))
       then req\<lparr>sg_Shares := sg_Shares req @ [share_of i sg], sg_Status := ''ready''\<rparr>
       else req\<lparr>sg_Shares := sg_Shares req @ [share_of i sg]\<rparr>)"
    if g: "sg_Status req = ''pending''" "0 \<le> i" "i < int (mw_signers w)" "sig i (keccak (signing_text req)) = Inr sg" for sg
  proof -
    have v: "valid_share keccak sig (mw_signers w) req (share_of i sg)"
      using g by (simp add: valid_share_def share_of_def)
    have t: "valid_share keccak sig (mw_signers w) (req\<lparr>sg_Shares := x, sg_Status := y\<rparr>) = valid_share keccak sig (mw_signers w) req"
      "valid_share keccak sig (mw_signers w) (req\<lparr>sg_Shares := x\<rparr>) = valid_share keccak sig (mw_signers w) req" for x y
      by (rule valid_share_text, simp add: signing_text_def)+
    show ?thesis using ok v g(1) by (auto simp: request_ok_def t)
  qed
  show ?thesis
    using assms(2) assms(1) Some upd [OF e] upd [OF s]
    by (auto simp: Sign_def Let_def split: if_splits sum.splits)
qed

lemma MarkBroadcast_ok:
  assumes "\<forall>rid req. mw_requests w rid = Some req \<longrightarrow> request_ok keccak sig (mw_signers w) req"
  shows "mw_signers (MarkBroadcast rid txHash w) = mw_signers w \<and>
    (\<forall>k req. mw_requests (MarkBroadcast rid txHash w) k = Some req \<longrightarrow> request_ok keccak sig (mw_signers w) req)"
proof (cases "mw_requests w rid")
  case None
  with assms show ?thesis by (simp add: MarkBroadcast_def)
next
  case (Some req)
  let ?q = "req\<lparr>sg_Status := ''broadcast'', sg_TxHash := txHash\<rparr>"
  have "request_ok keccak sig (mw_signers w) req" using assms Some by blast
  then have "request_ok keccak sig (mw_signers w) ?q"
    using valid_share_text [of ?q req keccak sig "mw_signers w"] by (simp add: request_ok_def signing_text_def)
  with assms Some show ?thesis by (simp add: MarkBroadcast_def set_request_def)
qed

lemma reachable_requests_ok:
  assumes "wallet_reachable keccak sig n w"
  shows "mw_signers w = n \<and> (\<forall>rid req. mw_requests w rid = Some req \<longrightarrow> request_ok keccak sig n req)"
  using assms
proof induction
  case fresh
  then show ?case by (simp add: NewMultiSigWallet_def)
next
  case (more w w')
  from more.hyps(2) show ?case
  proof cases
    case (initiate clk to amount cur nonce dat threshold)
    then show ?thesis using more.IH
      by (auto simp: InitiateSigning_def Let_def request_ok_def)
  next
    case (sign now rid i)
    then show ?thesis using Sign_ok [of w keccak sig now rid i] more.IH by (metis prod.collapse)
  next
    case (broadcast rid txHash)
    then show ?thesis using MarkBroadcast_ok [of w keccak sig rid txHash] more.IH by simp
  qed
qed

subsection \<open>Properties\<close>

text \<open>C32. A request is ready only with enough signatures: in every reachable wallet a request that
  \<open>GetReadyRequests\<close> returns carries at least \<open>Threshold\<close> shares, each of them the
  signature of an existing signer over the hash of that request's destination, amount and nonce.\<close>

theorem ready_request_signed:
  assumes "wallet_reachable keccak sig n w" "req \<in> GetReadyRequests w"
  shows "sg_Threshold req \<le> int (length (sg_Shares req)) \<and>
    (\<forall>sh\<in>set (sg_Shares req). 0 \<le> ss_SignerIndex sh \<and> ss_SignerIndex sh < int n \<and>
       (\<exists>sg. sig (ss_SignerIndex sh) (keccak (signing_text req)) = Inr sg \<and> sh = share_of (ss_SignerIndex sh) sg))"
proof -
  obtain rid where "mw_requests w rid = Some req" "sg_Status req = ''ready''"
    using assms(2) by (auto simp: GetReadyRequests_def ran_def)
  then have "request_ok keccak sig n req" "sg_Status req = ''ready''"
    using reachable_requests_ok [OF assms(1)] by blast+
  then show ?thesis by (auto simp: request_ok_def list_all_iff valid_share_def)
qed

lemma Sign_repeated:
  assumes "mw_requests w rid = Some req" "sg_Status req = ''pending''" "sg_Shares req = []"
    "0 \<le> i" "i < int (mw_signers w)" "now \<le> sg_ExpiresAt req" "sig i (keccak (signing_text req)) = Inr sg"
    "int k < sg_Threshold req"
  shows "((\<lambda>w. snd (Sign keccak sig now rid i w)) ^^ k) w =
    set_request (req\<lparr>sg_Shares := replicate k (share_of i sg)\<rparr>) rid w"
  using assms(8)
proof (induction k)
  case 0
  have "req\<lparr>sg_Shares := []\<rparr> = req" using assms(3) by simp
  then show ?case using assms(1) by (simp add: set_request_def fun_upd_idem)
next
  case (Suc k)
  then have "((\<lambda>w. snd (Sign keccak sig now rid i w)) ^^ k) w =
      set_request (req\<lparr>sg_Shares := replicate k (share_of i sg)\<rparr>) rid w" by simp
  then show ?case
    using assms Suc.prems replicate_append_same [of k "share_of i sg"]
    by (simp add: Sign_def set_request_def signing_text_def Let_def)
qed

text \<open>The shares need not come from different signers: one signer who calls \<open>Sign\<close> as many
  times as the threshold demands makes a request ready alone.\<close>

theorem one_signer_reaches_threshold:
  assumes "mw_requests w rid = Some req" "sg_Status req = ''pending''" "sg_Shares req = []"
    "0 < sg_Threshold req" "0 \<le> i" "i < int (mw_signers w)" "now \<le> sg_ExpiresAt req"
    "sig i (keccak (signing_text req)) = Inr sg"
  shows "req\<lparr>sg_Shares := replicate (nat (sg_Threshold req)) (share_of i sg), sg_Status := ''ready''\<rparr>
    \<in> GetReadyRequests (((\<lambda>w. snd (Sign keccak sig now rid i w)) ^^ nat (sg_Threshold req)) w)"
proof -
  obtain k where k: "nat (sg_Threshold req) = Suc k" "int k < sg_Threshold req" "sg_Threshold req = int k + 1"
    using assms(4) by (metis Suc_pred' int_Suc nat_0_le less_imp_le less_add_one zero_less_nat_eq of_nat_Suc)
  have r: "((\<lambda>w. snd (Sign keccak sig now rid i w)) ^^ k) w =
      set_request (req\<lparr>sg_Shares := replicate k (share_of i sg)\<rparr>) rid w"
    by (rule Sign_repeated [where sig = sig and keccak = keccak, OF assms(1-3,5-8) k(2)])
  have "((\<lambda>w. snd (Sign keccak sig now rid i w)) ^^ Suc k) w =
      set_request (req\<lparr>sg_Shares := replicate (Suc k) (share_of i sg), sg_Status := ''ready''\<rparr>) rid w"
    using assms k(3) r replicate_append_same [of k "share_of i sg"]
    by (simp add: Sign_def set_request_def signing_text_def Let_def)
  then show ?thesis
    unfolding k(1) by (auto simp: GetReadyRequests_def set_request_def ran_def)
qed

text \<open>A wallet of three signers with one request of threshold two.\<close>

definition sample_sig :: "int \<Rightarrow> string \<Rightarrow> error + string" where
  "sample_sig i h = Inr (replicate 64 (CHR ''s'') @ [char_of (0 :: nat)])"

definition sample_wallet :: MultiSigWallet where
  "sample_wallet = snd (InitiateSigning (\<lambda>_. 7) ''0xcc'' ''100'' ''ETH'' 1 [] 2 (NewMultiSigWallet 3))"

definition sample_signing :: SigningRequest where
  "sample_signing = fst (InitiateSigning (\<lambda>_. 7) ''0xcc'' ''100'' ''ETH'' 1 [] 2 (NewMultiSigWallet 3))"

lemma sample_request:
  "mw_requests sample_wallet (sg_ID sample_signing) = Some sample_signing" "sg_Status sample_signing = ''pending''"
  "sg_Shares sample_signing = []" "sg_Threshold sample_signing = 2" "mw_signers sample_wallet = 3"
  "sg_ExpiresAt sample_signing = 7 + day"
  by (simp_all add: sample_wallet_def sample_signing_def InitiateSigning_def Let_def NewMultiSigWallet_def)

theorem one_signer_reaches_threshold_witness:
  "\<exists>req. req \<in> GetReadyRequests (((\<lambda>w. snd (Sign id sample_sig 8 (sg_ID sample_signing) 0 w)) ^^ 2) sample_wallet) \<and>
     map ss_SignerIndex (sg_Shares req) = [0, 0]"
proof -
  have s: "sample_sig 0 (id (signing_text sample_signing)) = Inr (replicate 64 (CHR ''s'') @ [char_of (0 :: nat)])"
    by (simp add: sample_sig_def)
  from one_signer_reaches_threshold [where sig = sample_sig and keccak = id and i = 0 and now = 8,
      OF sample_request(1-3) _ _ _ _ s] show ?thesis
    unfolding sample_request(4-6) day_def
    by (intro exI) (auto simp: share_of_def numeral_2_eq_2)
qed

theorem ready_request_signed_witness:
  "\<exists>w req. wallet_reachable id sample_sig 3 w \<and> req \<in> GetReadyRequests w \<and> length (sg_Shares req) = 2 \<and>
     sg_Threshold req \<le> int (length (sg_Shares req))"
proof -
  let ?S = "\<lambda>w. snd (Sign id sample_sig 8 (sg_ID sample_signing) 0 w)"
  let ?sh = "share_of 0 (replicate 64 (CHR ''s'') @ [char_of (0 :: nat)])"
  have r0: "wallet_reachable id sample_sig 3 sample_wallet"
    unfolding sample_wallet_def by (rule wallet_reachable.more [OF wallet_reachable.fresh wallet_step.initiate])
  have r: "wallet_reachable id sample_sig 3 (?S (?S sample_wallet))"
    by (rule wallet_reachable.more [OF wallet_reachable.more [OF r0 wallet_step.sign] wallet_step.sign])
  have "?S (?S sample_wallet) = set_request (sample_signing\<lparr>sg_Shares := [?sh, ?sh], sg_Status := ''ready''\<rparr>)
      (sg_ID sample_signing) sample_wallet"
    using sample_request by (simp add: Sign_def set_request_def Let_def sample_sig_def day_def)
  then have "sample_signing\<lparr>sg_Shares := [?sh, ?sh], sg_Status := ''ready''\<rparr> \<in> GetReadyRequests (?S (?S sample_wallet))"
    by (auto simp: GetReadyRequests_def set_request_def ran_def)
  with ready_request_signed [OF r this] r show ?thesis
    by (intro exI [of _ "?S (?S sample_wallet)"]
        exI [of _ "sample_signing\<lparr>sg_Shares := [?sh, ?sh], sg_Status := ''ready''\<rparr>"]) simp
qed

end
