(* ===== verification/Risk.thy ===== *)
theory Risk
  imports Decimal Common_Types
begin

section \<open>Risk controls (internal/risk)\<close>

text \<open>
  The blacklist, the price circuit breaker and the withdrawal limits. Each method holds the mutex of
  its object and is one step. Times are the clock's nanoseconds; a method that reads the clock
  twice gets both readings.
\<close>

subsection \<open>Blacklist (blacklist.go)\<close>

text \<open>The maps hold only the value true, so each is the set of its keys.\<close>

record Blacklist =
  bl_IPs :: "string set"
  bl_UIDs :: "string set"
  bl_Addrs :: "string set"

definition NewBlacklist :: Blacklist where
  "NewBlacklist = \<lparr>bl_IPs = {}, bl_UIDs = {}, bl_Addrs = {}\<rparr>"

definition BlockIP :: "string \<Rightarrow> Blacklist \<Rightarrow> Blacklist" where
  "BlockIP ip bl = bl\<lparr>bl_IPs := insert ip (bl_IPs bl)\<rparr>"

definition UnblockIP :: "string \<Rightarrow> Blacklist \<Rightarrow> Blacklist" where
  "UnblockIP ip bl = bl\<lparr>bl_IPs := bl_IPs bl - {ip}\<rparr>"

definition IsIPBlocked :: "string \<Rightarrow> Blacklist \<Rightarrow> bool" where
  "IsIPBlocked ip bl \<longleftrightarrow> ip \<in> bl_IPs bl"

definition BlockUser :: "string \<Rightarrow> Blacklist \<Rightarrow> Blacklist" where
  "BlockUser uid bl = bl\<lparr>bl_UIDs := insert uid (bl_UIDs bl)\<rparr>"

definition IsUserBlocked :: "string \<Rightarrow> Blacklist \<Rightarrow> bool" where
  "IsUserBlocked uid bl \<longleftrightarrow> uid \<in> bl_UIDs bl"

definition BlockAddress :: "string \<Rightarrow> Blacklist \<Rightarrow> Blacklist" where
  "BlockAddress addr bl = bl\<lparr>bl_Addrs := insert addr (bl_Addrs bl)\<rparr>"

definition IsAddressBlocked :: "string \<Rightarrow> Blacklist \<Rightarrow> bool" where
  "IsAddressBlocked addr bl \<longleftrightarrow> addr \<in> bl_Addrs bl"

definition List_blocked :: "Blacklist \<Rightarrow> string set \<times> string set \<times> string set" where
  "List_blocked bl = (bl_IPs bl, bl_UIDs bl, bl_Addrs bl)"

subsection \<open>Circuit breaker (circuit_breaker.go)\<close>

record CircuitBreaker =
  cb_lastPrice :: "string \<rightharpoonup> decimal"
  cb_lastCheckTime :: "string \<rightharpoonup> int"
  cb_threshold :: decimal
  cb_halted :: "string \<Rightarrow> bool"
  cb_haltDuration :: int
  cb_haltedUntil :: "string \<rightharpoonup> int"

text \<open>The percentage is a float64; its sign is all the code looks at.\<close>

definition formatPercent :: "'f \<Rightarrow> string" where
  "formatPercent p = ''0.10''"

definition NewCircuitBreaker :: "('f \<Rightarrow> bool) \<Rightarrow> 'f \<Rightarrow> int \<Rightarrow> CircuitBreaker" where
  "NewCircuitBreaker positive thresholdPercent haltDuration =
     \<lparr>cb_lastPrice = Map.empty, cb_lastCheckTime = Map.empty,
      cb_threshold = (if positive thresholdPercent then decimalMust (formatPercent thresholdPercent)
                      else decimalMust ''0.10''),
      cb_halted = (\<lambda>_. False), cb_haltDuration = haltDuration, cb_haltedUntil = Map.empty\<rparr>"

text \<open>\<open>now.Before(until)\<close>, with the zero time for a missing entry (it is never in the future).\<close>

definition before_until :: "int \<Rightarrow> int option \<Rightarrow> bool" where
  "before_until now u = (case u of None \<Rightarrow> False | Some t \<Rightarrow> now < t)"

definition accept_price :: "int \<Rightarrow> string \<Rightarrow> decimal \<Rightarrow> CircuitBreaker \<Rightarrow> CircuitBreaker" where
  "accept_price now symb price cb =
     cb\<lparr>cb_lastPrice := (cb_lastPrice cb)(symb \<mapsto> price),
        cb_lastCheckTime := (cb_lastCheckTime cb)(symb \<mapsto> now)\<rparr>"

definition CheckPrice :: "int \<Rightarrow> string \<Rightarrow> decimal \<Rightarrow> CircuitBreaker \<Rightarrow> bool \<times> CircuitBreaker" where
  "CheckPrice now symb price cb =
     (if cb_halted cb symb then
        (if before_until now (cb_haltedUntil cb symb) then (False, cb)
         else (True, accept_price now symb price (cb\<lparr>cb_halted := (cb_halted cb)(symb := False)\<rparr>)))
      else
        (case cb_lastPrice cb symb of
           Some lastPrice \<Rightarrow>
             if \<not> IsZero lastPrice \<and> 0 \<le> Cmp (Div (Abs (Sub price lastPrice)) lastPrice) (cb_threshold cb) then
               (False, cb\<lparr>cb_halted := (cb_halted cb)(symb := True),
                  cb_haltedUntil := (cb_haltedUntil cb)(symb \<mapsto> now + cb_haltDuration cb)\<rparr>)
             else (True, accept_price now symb price cb)
         | None \<Rightarrow> (True, accept_price now symb price cb)))"

definition IsHalted :: "int \<Rightarrow> string \<Rightarrow> CircuitBreaker \<Rightarrow> bool" where
  "IsHalted now symb cb \<longleftrightarrow> cb_halted cb symb \<and> before_until now (cb_haltedUntil cb symb)"

definition Resume :: "string \<Rightarrow> CircuitBreaker \<Rightarrow> CircuitBreaker" where
  "Resume symb cb = cb\<lparr>cb_halted := (cb_halted cb)(symb := False)\<rparr>"

subsection \<open>Withdrawal limits (withdrawal_limits.go)\<close>

record WithdrawalLimits =
  wl_maxSingle :: "Currency \<rightharpoonup> decimal"
  wl_maxDaily :: "Currency \<rightharpoonup> decimal"
  wl_minAmount :: "Currency \<rightharpoonup> decimal"
  wl_dailyTracker :: "string \<rightharpoonup> decimal"
  wl_lastReset :: int

definition NewWithdrawalLimits :: "int \<Rightarrow> WithdrawalLimits" where
  "NewWithdrawalLimits now =
     \<lparr>wl_maxSingle = [''ETH'' \<mapsto> decimalMust ''50'', ''USDT'' \<mapsto> decimalMust ''500000''],
      wl_maxDaily = [''ETH'' \<mapsto> decimalMust ''200'', ''USDT'' \<mapsto> decimalMust ''2000000''],
      wl_minAmount = [''ETH'' \<mapsto> decimalMust ''0.01'', ''USDT'' \<mapsto> decimalMust ''10''],
      wl_dailyTracker = Map.empty, wl_lastReset = now\<rparr>"

definition reset_daily :: "int \<Rightarrow> int \<Rightarrow> WithdrawalLimits \<Rightarrow> WithdrawalLimits" where
  "reset_daily now now' wl =
     (if now - wl_lastReset wl > 24 * 3600 * 1000000000
      then wl\<lparr>wl_dailyTracker := Map.empty, wl_lastReset := now'\<rparr> else wl)"

definition tracker_key :: "string \<Rightarrow> Currency \<Rightarrow> string" where
  "tracker_key uid cur = uid @ '':'' @ cur"

definition withdrawn_today :: "WithdrawalLimits \<Rightarrow> string \<Rightarrow> decimal" where
  "withdrawn_today wl key = (case wl_dailyTracker wl key of None \<Rightarrow> NilDecimal | Some a \<Rightarrow> a)"

definition limits_Validate ::
  "int \<Rightarrow> int \<Rightarrow> string \<Rightarrow> Currency \<Rightarrow> decimal \<Rightarrow> WithdrawalLimits \<Rightarrow> error option \<times> WithdrawalLimits" where
  "limits_Validate now now' uid cur amount wl0 =
     (let wl = reset_daily now now' wl0;
          newDailyTotal = Add (withdrawn_today wl (tracker_key uid cur)) amount
      in if (case wl_minAmount wl cur of None \<Rightarrow> False | Some mn \<Rightarrow> Cmp amount mn < 0) then
           (Some ErrWithdrawalTooLarge, wl)
         else if (case wl_maxSingle wl cur of None \<Rightarrow> False | Some mx \<Rightarrow> Cmp amount mx > 0) then
           (Some ErrWithdrawalTooLarge, wl)
         else if (case wl_maxDaily wl cur of None \<Rightarrow> False | Some mx \<Rightarrow> Cmp newDailyTotal mx > 0) then
           (Some ErrWithdrawalTooLarge, wl)
         else (None, wl\<lparr>wl_dailyTracker := (wl_dailyTracker wl)(tracker_key uid cur \<mapsto> newDailyTotal)\<rparr>))"

subsection \<open>Properties\<close>

lemma breaker_threshold: "val (cb_threshold (NewCircuitBreaker pos p dur)) = 10 ^ 17"
proof -
  have "NewFromString ''0.10'' = Inr (Decimal (Some (10 ^ 17)))"
    using NewFromString_fraction [of "''0''" "''10''" False] by (simp add: is_digit_def digit_val_def)
  then show ?thesis by (simp add: NewCircuitBreaker_def formatPercent_def decimalMust_def)
qed

lemma pos_div_less_iff:
  assumes "0 < (l :: int)"
  shows "x div l < t \<longleftrightarrow> x < t * l"
proof
  assume "x div l < t"
  then have "(x div l + 1) * l \<le> t * l" using assms by (intro mult_right_mono) auto
  moreover have "x < (x div l + 1) * l"
    using pos_mod_bound [OF assms, of x] div_mult_mod_eq [of x l] unfolding distrib_right by linarith
  ultimately show "x < t * l" by simp
next
  assume "x < t * l"
  show "x div l < t"
  proof (rule ccontr)
    assume "\<not> x div l < t"
    then have "t * l \<le> (x div l) * l" using assms by (intro mult_right_mono) auto
    also have "\<dots> \<le> x" using pos_mod_sign [OF assms, of x] div_mult_mod_eq [of x l] by linarith
    finally show False using \<open>x < t * l\<close> by simp
  qed
qed

lemma change_below_tenth:
  assumes "0 < val l"
  shows "Cmp (Div (Abs (Sub p l)) l) t < 0 \<longleftrightarrow> \<bar>val p - val l\<bar> * tenPow18 < val t * val l"
proof -
  have "val (Div (Abs (Sub p l)) l) = \<bar>val p - val l\<bar> * tenPow18 div val l"
    using assms by (simp add: val_Div_nonzero)
  then have "Cmp (Div (Abs (Sub p l)) l) t < 0 \<longleftrightarrow> \<bar>val p - val l\<bar> * tenPow18 div val l < val t"
    by (simp add: Cmp_def)
  also have "\<dots> \<longleftrightarrow> \<bar>val p - val l\<bar> * tenPow18 < val t * val l"
    using pos_div_less_iff [OF assms] by simp
  finally show ?thesis .
qed

text \<open>The breaker trips at exactly ten per cent, whatever threshold it was created with: a price
  passes iff it differs from the last accepted positive one by less than a tenth of it. A price that
  does not pass halts the symbol: until the halt has run out every price is refused and
  the reference price stays; the first price after it passes unconditionally and becomes the
  reference.\<close>

theorem breaker_trips_at_tenth:
  assumes "cb_threshold cb = cb_threshold (NewCircuitBreaker pos p dur)" "\<not> cb_halted cb symb"
    "cb_lastPrice cb symb = Some l" "0 < val l" "CheckPrice now symb price cb = (ok, cb')"
  shows "(ok \<longleftrightarrow> 10 * \<bar>val price - val l\<bar> < val l) \<and>
    (ok \<longrightarrow> cb_lastPrice cb' symb = Some price \<and> \<not> IsHalted t symb cb') \<and>
    (\<not> ok \<longrightarrow> cb_lastPrice cb' symb = Some l \<and>
      (IsHalted t symb cb' \<longleftrightarrow> t < now + cb_haltDuration cb) \<and>
      (t < now + cb_haltDuration cb \<longrightarrow> CheckPrice t symb price' cb' = (False, cb')) \<and>
      (now + cb_haltDuration cb \<le> t \<longrightarrow> fst (CheckPrice t symb price' cb') \<and>
         cb_lastPrice (snd (CheckPrice t symb price' cb')) symb = Some price'))"
proof -
  let ?c = "Cmp (Div (Abs (Sub price l)) l) (cb_threshold cb)"
  have "?c < 0 \<longleftrightarrow> \<bar>val price - val l\<bar> * tenPow18 < 10 ^ 17 * val l"
    unfolding change_below_tenth [OF assms(4)] assms(1) breaker_threshold ..
  then have c: "?c < 0 \<longleftrightarrow> 10 * \<bar>val price - val l\<bar> < val l" by (simp add: mult.commute)
  show ?thesis
  proof (cases "?c < 0")
    case True
    then have "ok" "cb' = accept_price now symb price cb"
      using assms by (auto simp: CheckPrice_def)
    with True c assms(2) show ?thesis by (simp add: accept_price_def IsHalted_def)
  next
    case False
    then have "\<not> ok" "cb' = cb\<lparr>cb_halted := (cb_halted cb)(symb := True),
        cb_haltedUntil := (cb_haltedUntil cb)(symb \<mapsto> now + cb_haltDuration cb)\<rparr>"
      using assms by (auto simp: CheckPrice_def not_less)
    with False c assms(3) show ?thesis
      by (auto simp: IsHalted_def before_until_def CheckPrice_def accept_price_def)
  qed
qed

text \<open>Calls of \<open>Validate\<close> in a row, and what they approve for a user and currency in total.\<close>

fun approved_total ::
  "string \<Rightarrow> Currency \<Rightarrow> (int \<times> int \<times> string \<times> Currency \<times> decimal) list \<Rightarrow> WithdrawalLimits \<Rightarrow> int" where
  "approved_total u c [] wl = 0"
| "approved_total u c ((now, now', uid, cur, amount) # calls) wl =
     (case limits_Validate now now' uid cur amount wl of
        (r, wl') \<Rightarrow> (if r = None \<and> uid = u \<and> cur = c then val amount else 0) + approved_total u c calls wl')"

lemma tracker_key_inj:
  "CHR '':'' \<notin> set uid \<Longrightarrow> CHR '':'' \<notin> set uid' \<Longrightarrow> tracker_key uid cur = tracker_key uid' cur' \<Longrightarrow>
     uid = uid' \<and> cur = cur'"
proof (induction uid arbitrary: uid')
  case Nil
  then show ?case by (cases uid') (auto simp: tracker_key_def)
next
  case (Cons c uid)
  then show ?case by (cases uid') (auto simp: tracker_key_def)
qed

lemma limits_Validate_step:
  assumes "limits_Validate now now' uid cur amount wl = (r, wl')" "now - wl_lastReset wl \<le> 24 * 3600 * 1000000000"
  shows "wl_maxDaily wl' = wl_maxDaily wl \<and> wl_lastReset wl' = wl_lastReset wl \<and>
    (r \<noteq> None \<longrightarrow> wl' = wl) \<and>
    (r = None \<longrightarrow> withdrawn_today wl' = (\<lambda>k. if k = tracker_key uid cur
        then Add (withdrawn_today wl k) amount else withdrawn_today wl k) \<and>
      (\<forall>mx. wl_maxDaily wl cur = Some mx \<longrightarrow> val (withdrawn_today wl (tracker_key uid cur)) + val amount \<le> val mx))"
proof -
  have rs: "reset_daily now now' wl = wl" using assms(2) by (simp add: reset_daily_def)
  show ?thesis
    using assms(1) unfolding limits_Validate_def rs Let_def
    by (auto simp: withdrawn_today_def fun_eq_iff not_less split: if_splits option.splits)
qed

text \<open>C33. The daily limit holds over any interleaving of calls: for a currency with a daily maximum,
  what the calls of one day (24 hours from the last reset) approve for a user adds up, with what was
  already counted, to at most that maximum. (User identifiers contain no colon.)\<close>

theorem daily_limit_enforced:
  assumes "wl_maxDaily wl c = Some mx" "val (withdrawn_today wl (tracker_key u c)) \<le> val mx"
    "CHR '':'' \<notin> set u"
    "\<forall>(now, now', uid, cur, amount)\<in>set calls. now - wl_lastReset wl \<le> 24 * 3600 * 1000000000 \<and> CHR '':'' \<notin> set uid"
  shows "val (withdrawn_today wl (tracker_key u c)) + approved_total u c calls wl \<le> val mx"
  using assms
proof (induction calls arbitrary: wl)
  case Nil
  then show ?case by simp
next
  case (Cons call calls)
  obtain now now' uid cur amount where call: "call = (now, now', uid, cur, amount)" by (metis prod_cases5)
  obtain r wl' where v: "limits_Validate now now' uid cur amount wl = (r, wl')" by fastforce
  have w: "now - wl_lastReset wl \<le> 24 * 3600 * 1000000000" "CHR '':'' \<notin> set uid" using Cons.prems(4) call by auto
  note step = limits_Validate_step [OF v w(1)]
  have key: "tracker_key uid cur = tracker_key u c \<longleftrightarrow> uid = u \<and> cur = c"
    using tracker_key_inj [OF w(2) Cons.prems(3)] by blast
  let ?a = "if r = None \<and> uid = u \<and> cur = c then val amount else 0"
  have today: "val (withdrawn_today wl' (tracker_key u c)) = val (withdrawn_today wl (tracker_key u c)) + ?a"
    using step key by (cases r) (auto simp: eq_commute)
  have max': "wl_maxDaily wl' c = Some mx" using step Cons.prems(1) by simp
  have le: "val (withdrawn_today wl' (tracker_key u c)) \<le> val mx"
    unfolding today using step key Cons.prems(1,2) by auto
  have rest: "\<forall>(now, now', uid, cur, amount)\<in>set calls.
      now - wl_lastReset wl' \<le> 24 * 3600 * 1000000000 \<and> CHR '':'' \<notin> set uid"
    using step Cons.prems(4) by auto
  from Cons.IH [OF max' le Cons.prems(3) rest] today show ?case by (simp add: call v)
qed

theorem daily_limit_enforced_witness:
  "approved_total ''alice'' ''ETH'' (replicate 5 (0, 0, ''alice'', ''ETH'', NewFromInt64 50)) (NewWithdrawalLimits 0)
     \<le> 200 * tenPow18"
proof -
  have "NewFromString ''200'' = Inr (NewFromInt64 200)"
    using NewFromString_integer [of "''200''" False] by (simp add: is_digit_def digit_val_def NewFromInt64_def)
  then have "wl_maxDaily (NewWithdrawalLimits 0) ''ETH'' = Some (NewFromInt64 200)"
    by (simp add: NewWithdrawalLimits_def decimalMust_def)
  moreover have "withdrawn_today (NewWithdrawalLimits 0) k = NilDecimal" "wl_lastReset (NewWithdrawalLimits 0) = 0" for k
    by (simp_all add: withdrawn_today_def NewWithdrawalLimits_def)
  ultimately show ?thesis
    using daily_limit_enforced [of "NewWithdrawalLimits 0" "''ETH''" "NewFromInt64 200" "''alice''"
        "replicate 5 (0, 0, ''alice'', ''ETH'', NewFromInt64 50)"] by simp
qed

definition sample_breaker :: CircuitBreaker where
  "sample_breaker = snd (CheckPrice 0 ''ETH-USDT'' (NewFromInt64 100) (NewCircuitBreaker (\<lambda>_. True) () 60))"

theorem breaker_trips_at_tenth_witness:
  "\<not> fst (CheckPrice 1 ''ETH-USDT'' (NewFromInt64 110) sample_breaker) \<and>
   fst (CheckPrice 1 ''ETH-USDT'' (NewFromInt64 109) sample_breaker)"
proof -
  have s: "cb_threshold sample_breaker = cb_threshold (NewCircuitBreaker (\<lambda>_. True) () 60)"
    "\<not> cb_halted sample_breaker ''ETH-USDT''" "cb_lastPrice sample_breaker ''ETH-USDT'' = Some (NewFromInt64 100)"
    by (simp_all add: sample_breaker_def CheckPrice_def NewCircuitBreaker_def accept_price_def)
  have "0 < val (NewFromInt64 100)" by simp
  note t = breaker_trips_at_tenth [OF s this]
  show ?thesis
    using t [of 1 "NewFromInt64 110" "fst (CheckPrice 1 ''ETH-USDT'' (NewFromInt64 110) sample_breaker)"
        "snd (CheckPrice 1 ''ETH-USDT'' (NewFromInt64 110) sample_breaker)"]
      t [of 1 "NewFromInt64 109" "fst (CheckPrice 1 ''ETH-USDT'' (NewFromInt64 109) sample_breaker)"
        "snd (CheckPrice 1 ''ETH-USDT'' (NewFromInt64 109) sample_breaker)"]
    by simp
qed

end
