(* ===== verification/Margin.thy ===== *)
theory Margin
  imports Decimal Common_Types "HOL-Library.Multiset"
begin

section \<open>Margin positions (trading/margin/engine.go)\<close>

text \<open>
  Positions, mark prices, liquidation and funding. The map of positions is the list of its entries
  in the order in which Go happens to range over it. Every method holds the mutex. The pointer of a
  position is shared with the caller of \<open>OpenPosition\<close>, who only reads it. Identifier and
  clock are arguments; \<open>fmt4\<close> is \<open>fmt.Sprintf("%.4f", p)\<close> of a float64.
  The fields \<open>UnrealizedPnL\<close>, \<open>LastFundingTime\<close> and \<open>fundingTimes\<close> are
  never read or written and are left out.
\<close>

record Position =
  p_ID :: string
  p_UserID :: string
  p_Symbol :: Symbol
  p_Side :: Side
  p_Quantity :: decimal
  p_EntryPrice :: decimal
  p_Leverage :: int
  p_MarginType :: string
  p_MarginBalance :: decimal
  p_LiquidationPrice :: decimal
  p_OpenedAt :: int

record MarginEngine =
  me_positions :: "(string \<times> Position list) list"
  me_markPrices :: "Symbol \<rightharpoonup> decimal"
  me_fundingRate :: "Symbol \<rightharpoonup> decimal"
  me_mmr :: decimal
  me_lastFunding :: int

definition margin_NewEngine :: "('f \<Rightarrow> string) \<Rightarrow> 'f \<Rightarrow> int \<Rightarrow> MarginEngine" where
  "margin_NewEngine fmt4 ratio now = \<lparr>me_positions = [], me_markPrices = Map.empty,
     me_fundingRate = Map.empty, me_mmr = decimalMust (fmt4 ratio), me_lastFunding = now\<rparr>"

definition calcLiquidationPrice :: "decimal \<Rightarrow> Position \<Rightarrow> decimal" where
  "calcLiquidationPrice mmr pos =
     (let requiredMargin = Div (Mul (p_EntryPrice pos) (p_Quantity pos)) (NewFromInt64 (p_Leverage pos));
          liquidationThreshold = Mul requiredMargin mmr;
          move = Div (Mul (p_EntryPrice pos) liquidationThreshold) requiredMargin
      in if p_Side pos = SideBuy then Sub (p_EntryPrice pos) move else Add (p_EntryPrice pos) move)"

definition shouldLiquidate :: "Position \<Rightarrow> decimal \<Rightarrow> bool" where
  "shouldLiquidate pos markPrice =
     (if p_Side pos = SideBuy then Cmp markPrice (p_LiquidationPrice pos) \<le> 0
      else Cmp markPrice (p_LiquidationPrice pos) \<ge> 0)"

text \<open>Append to the entry of a key, or a new entry.\<close>

fun add_position :: "string \<Rightarrow> Position \<Rightarrow> (string \<times> Position list) list \<Rightarrow> (string \<times> Position list) list" where
  "add_position uid pos [] = [(uid, [pos])]"
| "add_position uid pos ((u, ps) # rest) =
     (if u = uid then (u, ps @ [pos]) # rest else (u, ps) # add_position uid pos rest)"

definition OpenPosition ::
  "string \<Rightarrow> int \<Rightarrow> string \<Rightarrow> Symbol \<Rightarrow> Side \<Rightarrow> decimal \<Rightarrow> decimal \<Rightarrow> int \<Rightarrow> string \<Rightarrow> decimal \<Rightarrow> MarginEngine \<Rightarrow>
     (error + Position) \<times> MarginEngine" where
  "OpenPosition pid now uid symb side quantity entryPrice leverage marginType marginBalance e =
     (if leverage < 1 \<or> 125 < leverage then
        (Inl (Errorf (''leverage must be 1-125, got '' @ show_int leverage)), e)
      else
        (let pos0 = \<lparr>p_ID = pid, p_UserID = uid, p_Symbol = symb, p_Side = side, p_Quantity = quantity,
               p_EntryPrice = entryPrice, p_Leverage = leverage, p_MarginType = marginType,
               p_MarginBalance = marginBalance, p_LiquidationPrice = NilDecimal, p_OpenedAt = now\<rparr>;
             pos = pos0\<lparr>p_LiquidationPrice := calcLiquidationPrice (me_mmr e) pos0\<rparr>
         in (Inr pos, e\<lparr>me_positions := add_position uid pos (me_positions e)\<rparr>)))"

definition UpdateMarkPrice :: "Symbol \<Rightarrow> decimal \<Rightarrow> MarginEngine \<Rightarrow> MarginEngine" where
  "UpdateMarkPrice symb price e = e\<lparr>me_markPrices := (me_markPrices e)(symb \<mapsto> price)\<rparr>"

text \<open>The scan of one user's positions: those to keep and those to liquidate, each in order.\<close>

fun scan_positions :: "Symbol \<Rightarrow> decimal \<Rightarrow> Position list \<Rightarrow> Position list \<times> Position list" where
  "scan_positions symb mark [] = ([], [])"
| "scan_positions symb mark (pos # ps) =
     (let (remaining, liquidated) = scan_positions symb mark ps in
      if p_Symbol pos \<noteq> symb then (pos # remaining, liquidated)
      else if shouldLiquidate pos mark then (remaining, pos # liquidated)
      else (pos # remaining, liquidated))"

definition CheckLiquidations :: "Symbol \<Rightarrow> MarginEngine \<Rightarrow> Position list \<times> MarginEngine" where
  "CheckLiquidations symb e =
     (case me_markPrices e symb of
        None \<Rightarrow> ([], e)
      | Some mark \<Rightarrow>
          (concat (map (\<lambda>(u, ps). snd (scan_positions symb mark ps)) (me_positions e)),
           e\<lparr>me_positions := map (\<lambda>(u, ps). (u, fst (scan_positions symb mark ps))) (me_positions e)\<rparr>))"

definition fund_position :: "Symbol \<Rightarrow> decimal \<Rightarrow> Position \<Rightarrow> Position" where
  "fund_position symb rate pos =
     (if p_Symbol pos \<noteq> symb then pos
      else
        (let fundingPayment = Mul (Mul (p_EntryPrice pos) (p_Quantity pos)) rate in
         if (p_Side pos = SideBuy \<and> IsNegative rate) \<or> (p_Side pos = SideSell \<and> \<not> IsNegative rate)
         then pos\<lparr>p_MarginBalance := Sub (p_MarginBalance pos) (Abs fundingPayment)\<rparr>
         else pos\<lparr>p_MarginBalance := Add (p_MarginBalance pos) (Abs fundingPayment)\<rparr>))"

definition CalculateFunding :: "int \<Rightarrow> int \<Rightarrow> Symbol \<Rightarrow> MarginEngine \<Rightarrow> MarginEngine" where
  "CalculateFunding now now' symb e =
     (if now - me_lastFunding e < 8 * 3600 * 1000000000 then e
      else
        (case me_fundingRate e symb of
           None \<Rightarrow> e
         | Some rate \<Rightarrow>
             e\<lparr>me_positions := map (\<lambda>(u, ps). (u, map (fund_position symb rate) ps)) (me_positions e),
               me_lastFunding := now'\<rparr>))"

definition GetPositions :: "string \<Rightarrow> MarginEngine \<Rightarrow> Position list" where
  "GetPositions uid e = (case map_of (me_positions e) uid of None \<Rightarrow> [] | Some ps \<Rightarrow> ps)"

subsection \<open>Liquidation\<close>

definition all_positions :: "MarginEngine \<Rightarrow> Position multiset" where
  "all_positions e = mset (concat (map snd (me_positions e)))"

definition due :: "Symbol \<Rightarrow> decimal \<Rightarrow> Position \<Rightarrow> bool" where
  "due symb mark pos \<longleftrightarrow> p_Symbol pos = symb \<and> shouldLiquidate pos mark"

lemma scan_positions_filter:
  "scan_positions symb mark ps = (filter (\<lambda>p. \<not> due symb mark p) ps, filter (due symb mark) ps)"
  by (induction ps) (auto simp: due_def)

lemma liquidation_move:
  assumes "0 \<le> val E" "0 < val r" "0 \<le> val m"
  shows "val (Div (Mul E (Mul r m)) r) \<le> (val E * val m) div tenPow18"
proof -
  define thr a x where "thr = (val r * val m) div tenPow18" and "a = (val E * thr) div tenPow18"
    and "x = (a * tenPow18) div val r"
  have x: "val (Div (Mul E (Mul r m)) r) = x"
    using assms by (simp add: val_Div_nonzero val_Mul x_def a_def thr_def)
  have le: "(y div c) * c \<le> y" if "0 < c" for y c :: int
    using pos_mod_sign [OF that, of y] div_mult_mod_eq [of y c] by linarith
  have "x * val r \<le> a * tenPow18" unfolding x_def by (rule le [OF assms(2)])
  also have "a * tenPow18 \<le> val E * thr" unfolding a_def by (rule le) simp
  finally have "(x * val r) * tenPow18 \<le> (val E * thr) * tenPow18" by (intro mult_right_mono) auto
  also have "\<dots> = val E * (thr * tenPow18)" by (simp only: mult.assoc)
  also have "\<dots> \<le> val E * (val r * val m)"
    using assms(1) le [of tenPow18 "val r * val m"] unfolding thr_def by (intro mult_left_mono) auto
  finally have "(x * tenPow18) * val r \<le> (val E * val m) * val r" by (simp only: mult_ac)
  then have "x * tenPow18 \<le> val E * val m" using assms(2) mult_le_cancel_right_pos by blast
  then have "(x * tenPow18) div tenPow18 \<le> (val E * val m) div tenPow18" by (intro zdiv_mono1) auto
  then show ?thesis by (simp add: x)
qed


text \<open>The liquidation price does not depend on the leverage beyond rounding: for every leverage
  from 1 to 125 a long position is liquidated as soon as the mark price has fallen from the entry
  price by the maintenance ratio (half a per cent, say), even a position with no borrowed funds at
  all.\<close>

theorem liquidation_ignores_leverage:
  assumes "OpenPosition pid now uid symb SideBuy quantity entryPrice leverage mt mb e = (Inr pos, e')"
    "0 \<le> val entryPrice" "0 \<le> val (me_mmr e)"
    "0 < val (Div (Mul entryPrice quantity) (NewFromInt64 leverage))"
    "val mark \<le> val entryPrice - (val entryPrice * val (me_mmr e)) div tenPow18"
  shows "1 \<le> leverage \<and> leverage \<le> 125 \<and> p_Leverage pos = leverage \<and> shouldLiquidate pos mark \<and>
    pos \<in> set (fst (CheckLiquidations symb (UpdateMarkPrice symb mark e')))"
proof -
  have pos: "p_Side pos = SideBuy" "p_Symbol pos = symb" "p_Leverage pos = leverage"
    "1 \<le> leverage" "leverage \<le> 125"
    "p_LiquidationPrice pos = Sub entryPrice (Div (Mul entryPrice
       (Mul (Div (Mul entryPrice quantity) (NewFromInt64 leverage)) (me_mmr e)))
       (Div (Mul entryPrice quantity) (NewFromInt64 leverage)))"
    "e' = e\<lparr>me_positions := add_position uid pos (me_positions e)\<rparr>"
    using assms(1) by (auto simp: OpenPosition_def calcLiquidationPrice_def Let_def split: if_splits)
  have "val mark \<le> val (p_LiquidationPrice pos)"
    using liquidation_move [OF assms(2,4,3)] assms(5) unfolding pos(6) by simp
  then have due: "shouldLiquidate pos mark" using pos(1) by (simp add: shouldLiquidate_def)
  have "\<exists>en\<in>set (add_position uid pos ents). pos \<in> set (snd en)" for ents
    by (induction ents) (fastforce+)
  then have "\<exists>en\<in>set (me_positions e'). pos \<in> set (snd en)" by (simp add: pos(7))
  then have "pos \<in> set (fst (CheckLiquidations symb (UpdateMarkPrice symb mark e')))"
    using due pos(2)
    by (auto simp: CheckLiquidations_def UpdateMarkPrice_def scan_positions_filter due_def case_prod_unfold)
  with pos due show ?thesis by simp
qed

definition sample_margin :: MarginEngine where
  "sample_margin = (margin_NewEngine (\<lambda>_. '''') () 0)\<lparr>me_mmr := Decimal (Some (5 * 10 ^ 15))\<rparr>"

theorem liquidation_ignores_leverage_witness:
  "\<exists>pos e'. OpenPosition ''p1'' 0 ''alice'' ''ETH-USDT'' SideBuy (NewFromInt64 2) (NewFromInt64 100) 1 ''isolated''
       (NewFromInt64 200) sample_margin = (Inr pos, e') \<and> shouldLiquidate pos (Decimal (Some (995 * 10 ^ 17)))"
proof -
  obtain pos e' where p: "OpenPosition ''p1'' 0 ''alice'' ''ETH-USDT'' SideBuy (NewFromInt64 2) (NewFromInt64 100) 1
      ''isolated'' (NewFromInt64 200) sample_margin = (Inr pos, e')"
    by (simp add: OpenPosition_def Let_def)
  have m: "val (me_mmr sample_margin) = 5 * 10 ^ 15" by (simp add: sample_margin_def)
  show ?thesis
    using liquidation_ignores_leverage [OF p, of "Decimal (Some (995 * 10 ^ 17))"] p m
    by (simp add: val_Div_nonzero val_Mul)
qed


end
