(* ===== verification/Fix_Session.thy ===== *)
theory Fix_Session
  imports Order_Service
begin

section \<open>The FIX gateway's message conversion (trading/fix/session.go)\<close>

text \<open>
  A FIX message is a header and a body, each a map from tag to text; reading an absent tag gives the
  empty text and an error, setting a tag replaces it. Wire format and sessions are quickfix's.
\<close>

record FixMessage =
  fm_Header :: "nat \<rightharpoonup> string"
  fm_Body :: "nat \<rightharpoonup> string"

definition GetString :: "(nat \<rightharpoonup> string) \<Rightarrow> nat \<Rightarrow> string" where
  "GetString tags tag = (case tags tag of None \<Rightarrow> '''' | Some s \<Rightarrow> s)"

definition fix_side :: "string \<Rightarrow> error + Side" where
  "fix_side s =
     (if s = ''1'' then Inr SideBuy else if s = ''2'' then Inr SideSell
      else Inl (Errorf (''invalid FIX side: '' @ s)))"

definition fix_type :: "string \<Rightarrow> error + OrderType" where
  "fix_type s =
     (if s = ''1'' then Inr OrderTypeMarket else if s = ''2'' then Inr OrderTypeLimit
      else if s = ''3'' then Inr OrderTypeStopLoss else if s = ''4'' then Inr OrderTypeStopLimit
      else Inl (Errorf (''invalid FIX ordType: '' @ s)))"

definition fix_tif :: "string option \<Rightarrow> TimeInForce" where
  "fix_tif t =
     (case t of None \<Rightarrow> TIF_GTC
      | Some s \<Rightarrow> if s = ''0'' then TIF_GTC else if s = ''3'' then TIF_IOC
          else if s = ''4'' then TIF_FOK else TIF_GTC)"

definition NewOrderSingleToPlaceOrder :: "FixMessage \<Rightarrow> error + PlaceOrderRequest" where
  "NewOrderSingleToPlaceOrder msg =
     (let body = fm_Body msg in
      case fix_side (GetString body 54) of
        Inl e \<Rightarrow> Inl e
      | Inr side \<Rightarrow>
          (case fix_type (GetString body 40) of
             Inl e \<Rightarrow> Inl e
           | Inr ty \<Rightarrow>
               (let priceStr = GetString body 44;
                    priceDec = (if priceStr = '''' then Zero else decimalMust priceStr)
                in Inr \<lparr>req_UserID = '''', req_Symbol = GetString body 55, req_Side = side, req_Type = ty,
                     req_TimeInForce = fix_tif (body 59), req_Price = priceDec, req_StopPrice = NilDecimal,
                     req_Quantity = decimalMust (GetString body 38),
                     req_ClientOrderID = GetString body 11\<rparr>)))"

definition fixStatus :: "OrderStatus \<Rightarrow> string" where
  "fixStatus s =
     (if s = OrderStatusOpen then ''0'' else if s = OrderStatusPartiallyFilled then ''1''
      else if s = OrderStatusFilled then ''2'' else if s = OrderStatusCancelled then ''4''
      else if s = OrderStatusRejected then ''8'' else ''0'')"

definition fixExecType :: "OrderStatus \<Rightarrow> string" where
  "fixExecType s =
     (if s = OrderStatusFilled then ''2'' else if s = OrderStatusPartiallyFilled then ''1''
      else if s = OrderStatusCancelled then ''4'' else if s = OrderStatusRejected then ''8'' else ''0'')"

definition BuildExecutionReport :: "PlaceOrderResponse \<Rightarrow> string \<Rightarrow> string \<Rightarrow> FixMessage" where
  "BuildExecutionReport resp clOrdID symb =
     \<lparr>fm_Header = [35 \<mapsto> ''8'', 49 \<mapsto> ''EXCHANGE'', 56 \<mapsto> ''CLIENT''],
      fm_Body = [37 \<mapsto> pr_OrderID resp, 11 \<mapsto> clOrdID, 55 \<mapsto> symb, 39 \<mapsto> fixStatus (pr_Status resp),
        150 \<mapsto> fixExecType (pr_Status resp), 14 \<mapsto> String (pr_FilledQty resp), 151 \<mapsto> ''0'']\<rparr>"

definition BuildReject :: "string \<Rightarrow> string \<Rightarrow> FixMessage" where
  "BuildReject clOrdID reason =
     \<lparr>fm_Header = [35 \<mapsto> ''j'', 49 \<mapsto> ''EXCHANGE''],
      fm_Body = [11 \<mapsto> clOrdID, 39 \<mapsto> ''8'', 58 \<mapsto> reason]\<rparr>"

subsection \<open>What a client's message becomes\<close>

text \<open>The message of a request as FIX 4.4 prescribes its tags.\<close>

definition new_order_single :: "PlaceOrderRequest \<Rightarrow> FixMessage" where
  "new_order_single req =
     \<lparr>fm_Header = [35 \<mapsto> ''D''],
      fm_Body = [11 \<mapsto> req_ClientOrderID req, 55 \<mapsto> req_Symbol req,
        54 \<mapsto> (if req_Side req = SideBuy then ''1'' else ''2''),
        40 \<mapsto> (if req_Type req = OrderTypeMarket then ''1'' else if req_Type req = OrderTypeLimit then ''2''
              else if req_Type req = OrderTypeStopLoss then ''3'' else ''4''),
        44 \<mapsto> String (req_Price req), 38 \<mapsto> String (req_Quantity req), 99 \<mapsto> String (req_StopPrice req),
        59 \<mapsto> (if req_TimeInForce req = TIF_IOC then ''3'' else if req_TimeInForce req = TIF_FOK then ''4'' else ''1'')]\<rparr>"

lemma String_nonempty: "String d \<noteq> ''''"
  by (simp add: String_def Let_def show_int_def split: option.split)

text \<open>A FIX order is the order it describes: converting the message of a well-formed request
  gives back its symbol, side, type, time in force and client identifier, and price and quantity to
  the last digit. The stop price is dropped and the user is not filled in, so the validator
  refuses every stop and stop-limit order that comes in over FIX.\<close>

theorem fix_order_roundtrip:
  assumes "req_Side req \<in> {SideBuy, SideSell}"
    "req_Type req \<in> {OrderTypeMarket, OrderTypeLimit, OrderTypeStopLoss, OrderTypeStopLimit}"
    "req_TimeInForce req \<in> {TIF_GTC, TIF_IOC, TIF_FOK}"
  shows "\<exists>req'. NewOrderSingleToPlaceOrder (new_order_single req) = Inr req' \<and>
    req_Symbol req' = req_Symbol req \<and> req_Side req' = req_Side req \<and> req_Type req' = req_Type req \<and>
    req_TimeInForce req' = req_TimeInForce req \<and> req_ClientOrderID req' = req_ClientOrderID req \<and>
    val (req_Price req') = val (req_Price req) \<and> val (req_Quantity req') = val (req_Quantity req) \<and>
    req_UserID req' = '''' \<and>
    (req_Type req \<in> {OrderTypeStopLoss, OrderTypeStopLimit} \<longrightarrow>
       (\<forall>v d e d'. Validate v req' d \<noteq> Inr (None, e, d')))"
proof -
  let ?req' = "\<lparr>req_UserID = '''', req_Symbol = req_Symbol req, req_Side = req_Side req, req_Type = req_Type req,
    req_TimeInForce = req_TimeInForce req, req_Price = Decimal (Some (val (req_Price req))),
    req_StopPrice = NilDecimal, req_Quantity = Decimal (Some (val (req_Quantity req))),
    req_ClientOrderID = req_ClientOrderID req\<rparr>"
  have ty: "fix_type (if req_Type req = OrderTypeMarket then ''1'' else if req_Type req = OrderTypeLimit then ''2''
      else if req_Type req = OrderTypeStopLoss then ''3'' else ''4'') = Inr (req_Type req)"
    using assms(2) by (auto simp: fix_type_def)
  have sd: "fix_side (if req_Side req = SideBuy then ''1'' else ''2'') = Inr (req_Side req)"
    using assms(1) by (auto simp: fix_side_def)
  have tif: "fix_tif (Some (if req_TimeInForce req = TIF_IOC then ''3'' else if req_TimeInForce req = TIF_FOK
      then ''4'' else ''1'')) = req_TimeInForce req"
    using assms(3) by (auto simp: fix_tif_def)
  have conv: "NewOrderSingleToPlaceOrder (new_order_single req) = Inr ?req'"
    using ty sd tif String_nonempty
    by (simp add: NewOrderSingleToPlaceOrder_def new_order_single_def GetString_def decimalMust_def
        NewFromString_String Let_def)
  have "Validate v ?req' d \<noteq> Inr (None, e, d')"
    if "req_Type req \<in> {OrderTypeStopLoss, OrderTypeStopLimit}" for v d e d'
  proof
    assume "Validate v ?req' d = Inr (None, e, d')"
    then have "validateOrderType ?req' = None" by (rule Validate_cases)
    with that show False by (auto simp: validateOrderType_def)
  qed
  with conv show ?thesis by (intro exI [of _ ?req']) simp
qed

theorem fix_order_roundtrip_witness:
  "\<exists>req'. NewOrderSingleToPlaceOrder (new_order_single
       ((sample_request ''alice'' SideBuy OrderTypeLimit 100 2)\<lparr>req_TimeInForce := TIF_IOC\<rparr>)) = Inr req' \<and>
     req_TimeInForce req' = TIF_IOC \<and> val (req_Price req') = 100 * tenPow18"
proof -
  let ?r = "(sample_request ''alice'' SideBuy OrderTypeLimit 100 2)\<lparr>req_TimeInForce := TIF_IOC\<rparr>"
  have "req_Side ?r \<in> {SideBuy, SideSell}" "req_TimeInForce ?r \<in> {TIF_GTC, TIF_IOC, TIF_FOK}"
    "req_Type ?r \<in> {OrderTypeMarket, OrderTypeLimit, OrderTypeStopLoss, OrderTypeStopLimit}"
    "val (req_Price ?r) = 100 * tenPow18" by (simp_all add: sample_request_def)
  from fix_order_roundtrip [OF this(1,3,2)] this(4) show ?thesis by auto
qed

end
