(* ===== verification/Auth.thy ===== *)
theory Auth
  imports Hd_Wallet Events
begin

section \<open>Tokens, passwords and signatures (user/auth.go)\<close>

text \<open>
  The authentication service over the primitives it imports. A signed token is a text; signing,
  verifying and parsing tokens (golang-jwt), bcrypt, HMAC-SHA256, PEM and X.509 parsing, the file
  system and \<open>time.Parse\<close> are parameters. RSA keys are numbered: \<open>RsaPrivate k\<close> and
  \<open>RsaPublic k\<close> belong together. Times are nanoseconds, claims hold seconds.
\<close>

datatype jwt_key = SecretKey string | RsaPrivate nat | RsaPublic nat

datatype jwt_method = MethodHMAC string | MethodRSA string | MethodOther string

fun method_name :: "jwt_method \<Rightarrow> string" where
  "method_name (MethodHMAC a) = a" | "method_name (MethodRSA a) = a" | "method_name (MethodOther a) = a"

record jwt_claims =
  cl_sub :: "string option"
  cl_iat :: int
  cl_exp :: "int option"

record AuthService =
  as_PrivateKey :: "nat option"
  as_PublicKey :: "nat option"
  as_useHMAC :: bool
  as_accessSecret :: string
  as_refreshSecret :: string

definition NewAuthService :: "nat option \<Rightarrow> nat option \<Rightarrow> AuthService" where
  "NewAuthService priv pub = \<lparr>as_PrivateKey = priv, as_PublicKey = pub, as_useHMAC = False,
     as_accessSecret = '''', as_refreshSecret = ''''\<rparr>"

definition NewAuthServiceWithSecrets :: "string \<Rightarrow> string \<Rightarrow> AuthService" where
  "NewAuthServiceWithSecrets accessSecret refreshSecret =
     \<lparr>as_PrivateKey = None, as_PublicKey = None, as_useHMAC = True,
      as_accessSecret = accessSecret, as_refreshSecret = refreshSecret\<rparr>"

subsection \<open>Passwords\<close>

definition HashPassword :: "(string \<Rightarrow> nat \<Rightarrow> error + string) \<Rightarrow> string \<Rightarrow> error + string" where
  "HashPassword bcrypt_gen password =
     map_sum (WrapBefore ''hash password: '') id (bcrypt_gen password 12)"

definition VerifyPassword :: "(string \<Rightarrow> string \<Rightarrow> error option) \<Rightarrow> string \<Rightarrow> string \<Rightarrow> bool" where
  "VerifyPassword bcrypt_cmp hash password \<longleftrightarrow> bcrypt_cmp hash password = None"

subsection \<open>Tokens\<close>

definition jwtExpiry :: int where "jwtExpiry = 15 * 60 * 1000000000"

definition unix :: "int \<Rightarrow> int" where "unix t = t div 1000000000"

definition GenerateJWT ::
  "(jwt_method \<Rightarrow> jwt_key \<Rightarrow> jwt_claims \<Rightarrow> error + string) \<Rightarrow> int \<Rightarrow> int \<Rightarrow> string \<Rightarrow> AuthService \<Rightarrow> error + string" where
  "GenerateJWT sign now now' uid s =
     (let claims = \<lparr>cl_sub = Some uid, cl_iat = unix now, cl_exp = Some (unix (now' + jwtExpiry))\<rparr> in
      if as_useHMAC s then sign (MethodHMAC ''HS256'') (SecretKey (as_accessSecret s)) claims
      else
        (case as_PrivateKey s of
           None \<Rightarrow> Inl (Errorf ''no signing key configured'')
         | Some k \<Rightarrow> sign (MethodRSA ''RS256'') (RsaPrivate k) claims))"

text \<open>The function that picks the key for a token's method.\<close>

definition keyFunc :: "AuthService \<Rightarrow> jwt_method \<Rightarrow> error + jwt_key" where
  "keyFunc s meth =
     (if as_useHMAC s then
        (case meth of
           MethodHMAC _ \<Rightarrow> Inr (SecretKey (as_accessSecret s))
         | _ \<Rightarrow> Inl (Errorf (''unexpected signing method: '' @ method_name meth)))
      else
        (case meth of
           MethodRSA _ \<Rightarrow>
             (case as_PublicKey s of
                None \<Rightarrow> Inl (Errorf ''no verification key configured'')
              | Some k \<Rightarrow> Inr (RsaPublic k))
         | _ \<Rightarrow> Inl (Errorf (''unexpected signing method: '' @ method_name meth))))"

text \<open>
  \<open>jwt.Parse\<close> returns the claims of a valid token. (It reports an invalid token as an error,
  so the check of \<open>token.Valid\<close> behind it never fails.)
\<close>

definition VerifyJWT ::
  "((jwt_method \<Rightarrow> error + jwt_key) \<Rightarrow> string \<Rightarrow> error + jwt_claims) \<Rightarrow> string \<Rightarrow> AuthService \<Rightarrow> error + string" where
  "VerifyJWT parse token s =
     (case parse (keyFunc s) token of
        Inl e \<Rightarrow> Inl (WrapBefore ''parse jwt: '' e)
      | Inr claims \<Rightarrow> Inr (case cl_sub claims of None \<Rightarrow> '''' | Some sub \<Rightarrow> sub))"

subsection \<open>Key files\<close>

datatype x509_key = RsaKey nat | OtherKey string

definition loadPrivateKey ::
  "(string \<Rightarrow> error + string) \<Rightarrow> (string \<Rightarrow> string option) \<Rightarrow> (string \<Rightarrow> error + x509_key) \<Rightarrow>
     (string \<Rightarrow> error + x509_key) \<Rightarrow> string \<Rightarrow> error + nat" where
  "loadPrivateKey readFile pem pkcs8 pkcs1 path =
     (case readFile path of
        Inl e \<Rightarrow> Inl (WrapBefore ''read file: '' e)
      | Inr bytes \<Rightarrow>
          (case pem bytes of
             None \<Rightarrow> Inl (Errorf ''failed to decode PEM block'')
           | Some block \<Rightarrow>
               (case (case pkcs8 block of Inr k \<Rightarrow> Inr k | Inl _ \<Rightarrow> pkcs1 block) of
                  Inl e \<Rightarrow> Inl (WrapBefore ''parse private key: '' e)
                | Inr (OtherKey _) \<Rightarrow> Inl (Errorf ''not an RSA private key'')
                | Inr (RsaKey k) \<Rightarrow> Inr k)))"

definition loadPublicKey ::
  "(string \<Rightarrow> error + string) \<Rightarrow> (string \<Rightarrow> string option) \<Rightarrow> (string \<Rightarrow> error + x509_key) \<Rightarrow> string \<Rightarrow> error + nat" where
  "loadPublicKey readFile pem pkix path =
     (case readFile path of
        Inl e \<Rightarrow> Inl (WrapBefore ''read file: '' e)
      | Inr bytes \<Rightarrow>
          (case pem bytes of
             None \<Rightarrow> Inl (Errorf ''failed to decode PEM block'')
           | Some block \<Rightarrow>
               (case pkix block of
                  Inl e \<Rightarrow> Inl (WrapBefore ''parse public key: '' e)
                | Inr (OtherKey _) \<Rightarrow> Inl (Errorf ''not an RSA public key'')
                | Inr (RsaKey k) \<Rightarrow> Inr k)))"

definition LoadRSAKeyPair ::
  "(string \<Rightarrow> error + string) \<Rightarrow> (string \<Rightarrow> string option) \<Rightarrow> (string \<Rightarrow> error + x509_key) \<Rightarrow>
     (string \<Rightarrow> error + x509_key) \<Rightarrow> (string \<Rightarrow> error + x509_key) \<Rightarrow> string \<Rightarrow> string \<Rightarrow> error + nat \<times> nat" where
  "LoadRSAKeyPair readFile pem pkcs8 pkcs1 pkix privPath pubPath =
     (case loadPrivateKey readFile pem pkcs8 pkcs1 privPath of
        Inl e \<Rightarrow> Inl (WrapBefore ''load private key: '' e)
      | Inr priv \<Rightarrow>
          (case loadPublicKey readFile pem pkix pubPath of
             Inl e \<Rightarrow> Inl (WrapBefore ''load public key: '' e)
           | Inr pub \<Rightarrow> Inr (priv, pub)))"

subsection \<open>Signed API requests\<close>

text \<open>\<open>hmac.Equal\<close> compares for equality (in constant time).\<close>

definition VerifyHMACSignature ::
  "(string \<Rightarrow> string \<Rightarrow> string) \<Rightarrow> string \<Rightarrow> string \<Rightarrow> string \<Rightarrow> string \<Rightarrow> string \<Rightarrow> string \<Rightarrow> string \<Rightarrow> bool" where
  "VerifyHMACSignature hmac_sha256 secret timestamp meth path query body signature \<longleftrightarrow>
     hex_encode (hmac_sha256 secret (timestamp @ meth @ path @ query @ body)) = signature"

text \<open>
  \<open>fmt.Sscanf(s, "%d", &ms)\<close> on the text of a header: blanks, a sign, digits, and the rest is
  left alone.
\<close>

definition sscanf_int64 :: "string \<Rightarrow> int option" where
  "sscanf_int64 s =
     (let s1 = dropWhile (\<lambda>c. c = CHR '' '' \<or> c = CHR 0x09) s;
          neg = (s1 \<noteq> [] \<and> hd s1 = CHR ''-'');
          s2 = (if s1 \<noteq> [] \<and> (hd s1 = CHR ''-'' \<or> hd s1 = CHR ''+'') then tl s1 else s1);
          ds = takeWhile is_digit s2;
          v = (if neg then - int (digits_val 0 ds) else int (digits_val 0 ds))
      in if ds = [] \<or> v < - (2 ^ 63) \<or> 2 ^ 63 \<le> v then None else Some v)"

definition VerifyTimestamp :: "(string \<Rightarrow> int option) \<Rightarrow> int \<Rightarrow> string \<Rightarrow> int \<Rightarrow> bool" where
  "VerifyTimestamp parse3339 now timestamp window =
     (case parse3339 timestamp of
        Some ts \<Rightarrow> \<bar>now - ts\<bar> \<le> window
      | None \<Rightarrow>
          (case sscanf_int64 timestamp of
             None \<Rightarrow> False
           | Some ms \<Rightarrow> \<bar>now - ms * 1000000\<bar> \<le> window))"

subsection \<open>What a verified token says\<close>

definition key_pair :: "jwt_key \<Rightarrow> jwt_key \<Rightarrow> bool" where
  "key_pair k vk \<longleftrightarrow>
     (case (k, vk) of
        (SecretKey a, SecretKey b) \<Rightarrow> a = b
      | (RsaPrivate m, RsaPublic n) \<Rightarrow> m = n
      | _ \<Rightarrow> False)"

definition unexpired :: "int \<Rightarrow> jwt_claims \<Rightarrow> bool" where
  "unexpired t c \<longleftrightarrow> (case cl_exp c of None \<Rightarrow> True | Some e \<Rightarrow> t < e)"

text \<open>
  What golang-jwt documents, at second \<open>t\<close>: \<open>meth tok\<close> is the method that the header of a
  token names; \<open>Parse\<close> asks the key function about that method; it returns the claims of a token
  signed with the matching key until they expire, and of no other token.
\<close>

definition jwt_laws ::
  "(string \<Rightarrow> jwt_method) \<Rightarrow> (jwt_method \<Rightarrow> jwt_key \<Rightarrow> jwt_claims \<Rightarrow> error + string) \<Rightarrow>
     ((jwt_method \<Rightarrow> error + jwt_key) \<Rightarrow> string \<Rightarrow> error + jwt_claims) \<Rightarrow> int \<Rightarrow> bool" where
  "jwt_laws meth sign parse t \<longleftrightarrow>
     (\<forall>m k c tok. sign m k c = Inr tok \<longrightarrow> meth tok = m) \<and>
     (\<forall>kf tok c. parse kf tok = Inr c \<longleftrightarrow>
        (\<exists>k vk. kf (meth tok) = Inr vk \<and> key_pair k vk \<and> sign (meth tok) k c = Inr tok \<and> unexpired t c))"

text \<open>The key a service signs with, and the methods it accepts.\<close>

definition signing_key :: "AuthService \<Rightarrow> jwt_key option" where
  "signing_key s =
     (if as_useHMAC s then Some (SecretKey (as_accessSecret s))
      else map_option RsaPrivate (as_PrivateKey s))"

definition accepts_method :: "AuthService \<Rightarrow> jwt_method \<Rightarrow> bool" where
  "accepts_method s m \<longleftrightarrow>
     (case m of MethodHMAC _ \<Rightarrow> as_useHMAC s | MethodRSA _ \<Rightarrow> \<not> as_useHMAC s | MethodOther _ \<Rightarrow> False)"

definition key_configured :: "AuthService \<Rightarrow> bool" where
  "key_configured s \<longleftrightarrow> as_useHMAC s \<or> as_PublicKey s \<noteq> None \<and> as_PublicKey s = as_PrivateKey s"

lemma keyFunc_Inr:
  "keyFunc s m = Inr vk \<Longrightarrow> accepts_method s m \<and>
     (if as_useHMAC s then vk = SecretKey (as_accessSecret s)
      else \<exists>k. as_PublicKey s = Some k \<and> vk = RsaPublic k)"
  by (auto simp: keyFunc_def accepts_method_def split: if_splits jwt_method.splits option.splits)

lemma key_pair_signing:
  "key_configured s \<Longrightarrow> keyFunc s m = Inr vk \<Longrightarrow> key_pair k vk \<Longrightarrow> signing_key s = Some k"
  by (drule keyFunc_Inr)
    (auto simp: key_pair_def signing_key_def key_configured_def split: jwt_key.splits if_splits)

lemma GenerateJWT_Inr:
  assumes "GenerateJWT sign now now' uid s = Inr tok"
  shows "\<exists>m k. signing_key s = Some k \<and> accepts_method s m \<and>
    sign m k \<lparr>cl_sub = Some uid, cl_iat = unix now, cl_exp = Some (unix (now' + jwtExpiry))\<rparr> = Inr tok"
proof (cases "as_useHMAC s")
  case True
  with assms show ?thesis
    by (intro exI [of _ "MethodHMAC ''HS256''"])
      (auto simp: GenerateJWT_def signing_key_def accepts_method_def Let_def)
next
  case False
  with assms show ?thesis
    by (intro exI [of _ "MethodRSA ''RS256''"])
      (auto simp: GenerateJWT_def signing_key_def accepts_method_def Let_def split: option.splits)
qed

lemma keyFunc_signing:
  "key_configured s \<Longrightarrow> accepts_method s m \<Longrightarrow> signing_key s = Some k \<Longrightarrow>
     \<exists>vk. keyFunc s m = Inr vk \<and> key_pair k vk"
  by (auto simp: keyFunc_def accepts_method_def key_configured_def signing_key_def key_pair_def
      split: jwt_method.splits if_splits)

lemma jwt_laws_meth: "jwt_laws meth sign parse t \<Longrightarrow> sign m k c = Inr tok \<Longrightarrow> meth tok = m"
  unfolding jwt_laws_def by blast

lemma jwt_laws_parse:
  "jwt_laws meth sign parse t \<Longrightarrow> parse kf tok = Inr c \<longleftrightarrow>
     (\<exists>k vk. kf (meth tok) = Inr vk \<and> key_pair k vk \<and> sign (meth tok) k c = Inr tok \<and> unexpired t c)"
  unfolding jwt_laws_def by blast

text \<open>A token issued by a service with its keys configured is accepted by it until it expires.\<close>

lemma issued_token_verifies:
  assumes laws: "jwt_laws meth sign parse t" and conf: "key_configured s"
    and a: "GenerateJWT sign now now' uid s = Inr tok" "t < unix (now' + jwtExpiry)"
  shows "VerifyJWT parse tok s = Inr uid"
proof -
  define c where "c = \<lparr>cl_sub = Some uid, cl_iat = unix now, cl_exp = Some (unix (now' + jwtExpiry))\<rparr>"
  from a obtain m k where k: "signing_key s = Some k" "accepts_method s m" "sign m k c = Inr tok"
    unfolding c_def using GenerateJWT_Inr by blast
  with laws have m: "meth tok = m" by (blast intro: jwt_laws_meth)
  obtain vk where "keyFunc s m = Inr vk" "key_pair k vk" using keyFunc_signing [OF conf k(2,1)] by blast
  moreover have "unexpired t c" using a by (simp add: unexpired_def c_def)
  ultimately have "parse (keyFunc s) tok = Inr c" using k(3) m unfolding jwt_laws_parse [OF laws] by blast
  then show "VerifyJWT parse tok s = Inr uid" by (simp add: VerifyJWT_def c_def)
qed

text \<open>C27. A service with its keys configured accepts the tokens it issues, as the user they were
  issued to, until fifteen minutes have passed; and every token it accepts was signed with its own
  key, by a method of its own kind (an HMAC token never passes an RSA service, whatever its header
  says), is unexpired, and names the user returned.\<close>

theorem jwt_authentic:
  assumes laws: "jwt_laws meth sign parse t" and conf: "key_configured s"
  shows "(\<forall>now now' uid tok. GenerateJWT sign now now' uid s = Inr tok \<and> t < unix (now' + jwtExpiry) \<longrightarrow>
      VerifyJWT parse tok s = Inr uid) \<and>
    (\<forall>tok uid. VerifyJWT parse tok s = Inr uid \<longrightarrow>
      (\<exists>k c. signing_key s = Some k \<and> accepts_method s (meth tok) \<and> sign (meth tok) k c = Inr tok \<and>
        unexpired t c \<and> uid = (case cl_sub c of None \<Rightarrow> '''' | Some u \<Rightarrow> u)))"
proof (intro conjI allI impI)
  fix now now' uid tok
  assume "GenerateJWT sign now now' uid s = Inr tok \<and> t < unix (now' + jwtExpiry)"
  then show "VerifyJWT parse tok s = Inr uid" using issued_token_verifies [OF laws conf] by blast
next
  fix tok uid
  assume "VerifyJWT parse tok s = Inr uid"
  then obtain c where c: "parse (keyFunc s) tok = Inr c"
    and uid: "uid = (case cl_sub c of None \<Rightarrow> '''' | Some u \<Rightarrow> u)"
    by (auto simp: VerifyJWT_def split: sum.splits)
  from c obtain k vk where k: "keyFunc s (meth tok) = Inr vk" "key_pair k vk"
    "sign (meth tok) k c = Inr tok" "unexpired t c"
    unfolding jwt_laws_parse [OF laws] by blast
  show "\<exists>k c. signing_key s = Some k \<and> accepts_method s (meth tok) \<and> sign (meth tok) k c = Inr tok \<and>
      unexpired t c \<and> uid = (case cl_sub c of None \<Rightarrow> '''' | Some u \<Rightarrow> u)"
    by (rule exI [of _ k], rule exI [of _ c])
      (simp add: key_pair_signing [OF conf k(1,2)] keyFunc_Inr [OF k(1)] k(3,4) uid)
qed

text \<open>An instance of the library: one token, signed with one secret.\<close>

definition one_claims :: jwt_claims where
  "one_claims = \<lparr>cl_sub = Some ''u1'', cl_iat = 0, cl_exp = Some 900\<rparr>"

definition one_sign :: "jwt_method \<Rightarrow> jwt_key \<Rightarrow> jwt_claims \<Rightarrow> error + string" where
  "one_sign m k c =
     (if m = MethodHMAC ''HS256'' \<and> k = SecretKey ''s3cret'' \<and> c = one_claims then Inr ''tok''
      else Inl (Errorf ''no''))"

definition one_parse :: "(jwt_method \<Rightarrow> error + jwt_key) \<Rightarrow> string \<Rightarrow> error + jwt_claims" where
  "one_parse kf tok =
     (case kf (MethodHMAC ''HS256'') of
        Inl e \<Rightarrow> Inl e
      | Inr vk \<Rightarrow> if tok = ''tok'' \<and> vk = SecretKey ''s3cret'' then Inr one_claims else Inl (Errorf ''no''))"

definition one_service :: AuthService where
  "one_service = NewAuthServiceWithSecrets ''s3cret'' ''r''"

lemma one_laws: "jwt_laws (\<lambda>_. MethodHMAC ''HS256'') one_sign one_parse 10"
  by (auto simp: jwt_laws_def one_sign_def one_parse_def key_pair_def unexpired_def one_claims_def
      split: sum.splits if_splits jwt_key.splits)

theorem jwt_authentic_witness:
  "GenerateJWT one_sign 0 0 ''u1'' one_service = Inr ''tok'' \<and> VerifyJWT one_parse ''tok'' one_service = Inr ''u1''"
proof -
  have conf: "key_configured one_service"
    by (simp add: key_configured_def one_service_def NewAuthServiceWithSecrets_def)
  have g: "GenerateJWT one_sign 0 0 ''u1'' one_service = Inr ''tok''"
    by (simp add: GenerateJWT_def one_service_def NewAuthServiceWithSecrets_def one_sign_def
        one_claims_def unix_def jwtExpiry_def)
  have "(10::int) < unix (0 + jwtExpiry)" by (simp add: unix_def jwtExpiry_def)
  with g jwt_authentic [OF one_laws conf, THEN conjunct1] show ?thesis by blast
qed

subsection \<open>What a request signature says\<close>

lemma VerifyHMACSignature_regroup:
  "ts @ m @ p @ q @ b = ts' @ m' @ p' @ q' @ b' \<Longrightarrow>
     VerifyHMACSignature hm secret ts m p q b sig = VerifyHMACSignature hm secret ts' m' p' q' b' sig"
  by (simp add: VerifyHMACSignature_def)

end
