(* ===== verification/Market_Data.thy ===== *)
theory Market_Data
  imports Engine_Steps "HOL-Library.Word"
begin

section \<open>Public market data (marketdata/service.go)\<close>

text \<open>
  Recent trades in a Redis list per symbol, the ticker hash, the depth of the book. A list element
  is the JSON value that was pushed. LPUSH, LTRIM, LRANGE and HGETALL do what Redis documents; a
  list of outcomes says which round trips to Redis fail, and after how many commands of the
  pipeline. Nothing in the repository writes the ticker hash. Go's \<open>int\<close> has 64 bits.
\<close>

record TradeItem =
  ti_ID :: string
  ti_Price :: string
  ti_Quantity :: string
  ti_QuoteQty :: string
  ti_Time :: int
  ti_IsBuyerMaker :: bool

record Ticker =
  tk_Symbol :: string
  tk_Open :: string
  tk_High :: string
  tk_Low :: string
  tk_Last :: string
  tk_Volume :: string
  tk_Change :: string
  tk_ChangePct :: string
  tk_Count :: string

record Candlestick =
  cs_OpenTime :: int
  cs_Open :: string
  cs_High :: string
  cs_Low :: string
  cs_Close :: string
  cs_Volume :: string
  cs_CloseTime :: int

record redis =
  rd_lists :: "string \<Rightarrow> json list"
  rd_hashes :: "string \<Rightarrow> (string \<rightharpoonup> string)"
  rd_faults :: "(error \<times> nat) option list"

subsection \<open>Redis\<close>

definition lpush :: "string \<Rightarrow> json \<Rightarrow> redis \<Rightarrow> redis" where
  "lpush key x r = r\<lparr>rd_lists := (rd_lists r)(key := x # rd_lists r key)\<rparr>"

definition list_range :: "int \<Rightarrow> 'a list \<Rightarrow> 'a list" where
  "list_range stop xs = (let n = (if stop < 0 then int (length xs) + stop else stop) in take (nat (n + 1)) xs)"

definition ltrim :: "string \<Rightarrow> int \<Rightarrow> redis \<Rightarrow> redis" where
  "ltrim key stop r = r\<lparr>rd_lists := (rd_lists r)(key := list_range stop (rd_lists r key))\<rparr>"

text \<open>A round trip: the commands in order, or an error after some of them.\<close>

definition round_trip :: "(redis \<Rightarrow> redis) list \<Rightarrow> redis \<Rightarrow> error option \<times> redis" where
  "round_trip cmds r =
     (let run = (\<lambda>cs r. foldl (\<lambda>r c. c r) r cs) in
      case rd_faults r of
        [] \<Rightarrow> (None, run cmds r)
      | None # fs \<Rightarrow> (None, run cmds (r\<lparr>rd_faults := fs\<rparr>))
      | Some (e, k) # fs \<Rightarrow> (Some e, run (take k cmds) (r\<lparr>rd_faults := fs\<rparr>)))"

subsection \<open>Trade items as JSON\<close>

definition marshal_TradeItem :: "TradeItem \<Rightarrow> json" where
  "marshal_TradeItem t = JObj
     [(''id'', JStr (ti_ID t)), (''price'', JStr (ti_Price t)), (''qty'', JStr (ti_Quantity t)),
      (''quoteQty'', JStr (ti_QuoteQty t)), (''time'', JTime (ti_Time t)),
      (''isBuyerMaker'', JBool (ti_IsBuyerMaker t))]"

definition json_time :: "string \<Rightarrow> json_object \<Rightarrow> error + int" where
  "json_time k ms =
     (case json_member k ms of
        None \<Rightarrow> Inr 0
      | Some (JTime t) \<Rightarrow> Inr t
      | Some _ \<Rightarrow> Inl (Errorf (''json: cannot unmarshal into Go struct field '' @ k)))"

definition json_bool :: "string \<Rightarrow> json_object \<Rightarrow> error + bool" where
  "json_bool k ms =
     (case json_member k ms of
        None \<Rightarrow> Inr False
      | Some (JBool b) \<Rightarrow> Inr b
      | Some _ \<Rightarrow> Inl (Errorf (''json: cannot unmarshal into Go struct field '' @ k)))"

definition unmarshal_TradeItem :: "json \<Rightarrow> error + TradeItem" where
  "unmarshal_TradeItem j =
     (case j of
        JObj ms \<Rightarrow>
          bind_sum (json_string ''id'' ms) (\<lambda>i.
          bind_sum (json_string ''price'' ms) (\<lambda>p.
          bind_sum (json_string ''qty'' ms) (\<lambda>q.
          bind_sum (json_string ''quoteQty'' ms) (\<lambda>qq.
          bind_sum (json_time ''time'' ms) (\<lambda>t.
          bind_sum (json_bool ''isBuyerMaker'' ms) (\<lambda>b.
          Inr \<lparr>ti_ID = i, ti_Price = p, ti_Quantity = q, ti_QuoteQty = qq, ti_Time = t,
            ti_IsBuyerMaker = b\<rparr>))))))
      | _ \<Rightarrow> Inl (Errorf ''json: cannot unmarshal into Go value of type marketdata.TradeItem''))"

subsection \<open>Operations\<close>

definition market_GetOrderBook :: "Engine \<Rightarrow> Symbol \<Rightarrow> 64 word \<Rightarrow> error + BookSnapshot" where
  "market_GetOrderBook e symb depth = GetOrderBook symb (sint depth) e"

definition trades_key :: "Symbol \<Rightarrow> string" where
  "trades_key symb = ''trades:'' @ symb"

text \<open>Elements that do not decode are skipped.\<close>

definition decode_items :: "json list \<Rightarrow> TradeItem list" where
  "decode_items js = concat (map (\<lambda>j. case unmarshal_TradeItem j of Inl _ \<Rightarrow> [] | Inr t \<Rightarrow> [t]) js)"

definition GetRecentTrades :: "Symbol \<Rightarrow> 64 word \<Rightarrow> redis \<Rightarrow> (error + TradeItem list) \<times> redis" where
  "GetRecentTrades symb limit r =
     (case round_trip [] r of
        (Some e, r') \<Rightarrow> (Inl e, r')
      | (None, r') \<Rightarrow> (Inr (decode_items (list_range (sint (limit - 1)) (rd_lists r (trades_key symb)))), r'))"

definition GetTicker :: "Symbol \<Rightarrow> redis \<Rightarrow> (error + Ticker) \<times> redis" where
  "GetTicker symb r =
     (case round_trip [] r of
        (Some e, r') \<Rightarrow> (Inl e, r')
      | (None, r') \<Rightarrow>
          (let dat = rd_hashes r (''ticker:'' @ symb);
               get = (\<lambda>k. case dat k of None \<Rightarrow> '''' | Some v \<Rightarrow> v)
           in (Inr \<lparr>tk_Symbol = symb, tk_Open = get ''open'', tk_High = get ''high'', tk_Low = get ''low'',
                tk_Last = get ''last'', tk_Volume = get ''volume'', tk_Change = get ''change'',
                tk_ChangePct = get ''change_pct'', tk_Count = get ''count''\<rparr>, r')))"

definition GetKlines :: "Symbol \<Rightarrow> string \<Rightarrow> 64 word \<Rightarrow> error + Candlestick list" where
  "GetKlines symb interval limit = Inr []"

definition trade_item :: "string \<Rightarrow> MatchResult \<Rightarrow> TradeItem" where
  "trade_item tid m = \<lparr>ti_ID = tid, ti_Price = String (m_Price m), ti_Quantity = String (m_Quantity m),
     ti_QuoteQty = String (m_QuoteQty m), ti_Time = m_Timestamp m, ti_IsBuyerMaker = (m_TakerSide m = SideSell)\<rparr>"

definition RecordTrade :: "string \<Rightarrow> MatchResult \<Rightarrow> redis \<Rightarrow> error option \<times> redis" where
  "RecordTrade tid m r =
     (let key = trades_key (m_Symbol m) in
      case round_trip [lpush key (marshal_TradeItem (trade_item tid m)), ltrim key 999] r of
        (Some e, r') \<Rightarrow> (Some (WrapBefore ''redis push trade: '' e), r')
      | (None, r') \<Rightarrow> (None, r'))"

definition market_match :: "int \<Rightarrow> TradeExecutedPayload \<Rightarrow> MatchResult" where
  "market_match ts p =
     \<lparr>m_TakerOrderID = tep_TakerOrderID p, m_MakerOrderID = tep_MakerOrderID p,
      m_TakerUserID = tep_TakerUserID p, m_MakerUserID = tep_MakerUserID p, m_Symbol = tep_Symbol p,
      m_Price = decimalMust (tep_Price p), m_Quantity = decimalMust (tep_Quantity p),
      m_QuoteQty = decimalMust (tep_QuoteQty p), m_TakerSide = tep_TakerSide p, m_Timestamp = ts\<rparr>"

text \<open>The handler \<open>Start\<close> subscribes to \<open>trade.executed\<close> in the group \<open>marketdata\<close>, when
  there is a bus.\<close>

definition market_handler :: "string \<Rightarrow> redis EventHandler" where
  "market_handler tid ev r =
     (case unmarshal_TradeExecuted (e_Payload ev) of
        Inl e \<Rightarrow> (Some (WrapBefore ''unmarshal trade payload: '' e), r)
      | Inr p \<Rightarrow> RecordTrade tid (market_match (e_Timestamp ev) p) r)"

definition market_Start :: "string \<Rightarrow> redis MemoryEventBus option \<Rightarrow> error option \<times> redis MemoryEventBus option" where
  "market_Start tid eventBus =
     (case eventBus of
        None \<Rightarrow> (None, None)
      | Some b \<Rightarrow> map_prod id Some (Subscribe b ''trade.executed'' ''marketdata'' (market_handler tid)))"

subsection \<open>Properties\<close>

lemma decode_marshal: "unmarshal_TradeItem (marshal_TradeItem t) = Inr t"
  by (simp add: unmarshal_TradeItem_def marshal_TradeItem_def json_string_def json_time_def json_bool_def
      ToLower_def to_lower_def)

lemma decode_items_simps [simp]:
  "decode_items [] = []" "decode_items (marshal_TradeItem t # js) = t # decode_items js"
  "decode_items (js @ js') = decode_items js @ decode_items js'"
  by (simp_all add: decode_items_def decode_marshal)

lemma decode_items_marshalled: "decode_items (map marshal_TradeItem ts) = ts"
  by (induction ts) simp_all

definition record_all :: "(string \<times> MatchResult) list \<Rightarrow> redis \<Rightarrow> redis" where
  "record_all ms r = foldl (\<lambda>r (tid, m). snd (RecordTrade tid m r)) r ms"

lemma RecordTrade_ok:
  "rd_faults r = [] \<Longrightarrow> RecordTrade tid m r = (None, r\<lparr>rd_lists := (rd_lists r)(trades_key (m_Symbol m) :=
     take 1000 (marshal_TradeItem (trade_item tid m) # rd_lists r (trades_key (m_Symbol m))))\<rparr>)"
  by (simp add: RecordTrade_def round_trip_def lpush_def ltrim_def list_range_def Let_def)

lemma trades_key_inj [simp]: "trades_key s = trades_key s' \<longleftrightarrow> s = s'"
  by (simp add: trades_key_def)

lemma take_front:
  "take (1000 - n) (x # take 999 l) = take (1000 - n) [x] @ take (999 - n) l"
proof (cases "1000 - n")
  case (Suc k)
  then have "999 - n = k" "k \<le> 999" by simp_all
  with Suc show ?thesis by (simp add: min_def)
qed simp

lemma record_all_lists:
  assumes "rd_faults r = []"
  shows "rd_faults (record_all ms r) = [] \<and> rd_lists (record_all ms r) (trades_key symb) =
    (if filter (\<lambda>(_, m). m_Symbol m = symb) ms = [] then rd_lists r (trades_key symb)
     else take 1000 (rev (map (\<lambda>(tid, m). marshal_TradeItem (trade_item tid m))
       (filter (\<lambda>(_, m). m_Symbol m = symb) ms)) @ rd_lists r (trades_key symb)))"
  using assms
proof (induction ms arbitrary: r)
  case Nil
  then show ?case by (simp add: record_all_def)
next
  case (Cons p ms)
  obtain tid m where p: "p = (tid, m)" by fastforce
  let ?r = "snd (RecordTrade tid m r)"
  have nf: "rd_faults ?r = []" using Cons.prems by (simp add: RecordTrade_ok)
  have "record_all (p # ms) r = record_all ms ?r" by (simp add: record_all_def p)
  with Cons.IH [OF nf] show ?case
    using Cons.prems by (auto simp: RecordTrade_ok p min_def take_front)
qed

lemma sint_minus_one: "1 \<le> sint (x :: 64 word) \<Longrightarrow> sint (x - 1) = sint x - 1"
proof -
  assume a: "1 \<le> sint x"
  have "sint x < 2 ^ 63" using sint_lt [of x] by simp
  then have "signed_take_bit 63 (sint x - 1) = sint x - 1"
    using a by (intro signed_take_bit_int_eq_self) auto
  moreover have "sint (x - 1) = signed_take_bit 63 (sint x - 1)"
    by (simp add: sint_word_ariths)
  ultimately show ?thesis by simp
qed

text \<open>What was traded is what is shown: after any sequence of recorded trades, the recent trades of
  a symbol are those of that symbol, the latest first, with price, quantity and quote amount printed
  exactly and the side of the maker, cut to the limit asked for (at least 1) and to the last 1000. A
  limit of 0, which is also what an unreadable limit becomes, returns the whole list instead.\<close>

theorem recent_trades:
  assumes "rd_faults r = []" "rd_lists r (trades_key symb) = []"
  shows "(1 \<le> sint limit \<longrightarrow> fst (GetRecentTrades symb limit (record_all ms r)) =
      Inr (take (min (nat (sint limit)) 1000)
        (rev (map (\<lambda>(tid, m). trade_item tid m) (filter (\<lambda>(_, m). m_Symbol m = symb) ms))))) \<and>
    fst (GetRecentTrades symb 0 (record_all ms r)) =
      Inr (take 1000 (rev (map (\<lambda>(tid, m). trade_item tid m) (filter (\<lambda>(_, m). m_Symbol m = symb) ms))))"
proof -
  define ts where "ts = rev (map (\<lambda>(tid, m). trade_item tid m) (filter (\<lambda>(_, m). m_Symbol m = symb) ms))"
  have "rev (map (\<lambda>(tid, m). marshal_TradeItem (trade_item tid m)) (filter (\<lambda>(_, m). m_Symbol m = symb) ms)) =
      map marshal_TradeItem ts"
    by (simp add: ts_def rev_map case_prod_unfold comp_def)
  then have l: "rd_faults (record_all ms r) = []"
    "rd_lists (record_all ms r) (trades_key symb) = map marshal_TradeItem (take 1000 ts)"
    using record_all_lists [OF assms(1), of ms symb] assms(2) by (auto simp: take_map)
  have g: "fst (GetRecentTrades symb lim (record_all ms r)) =
      Inr (list_range (sint (lim - 1)) (take 1000 ts))" for lim
    using l by (simp add: GetRecentTrades_def round_trip_def list_range_def Let_def take_map decode_items_marshalled)
  have "sint (0 - 1 :: 64 word) = - 1" by simp
  then have "list_range (sint (0 - 1 :: 64 word)) (take 1000 ts) = take 1000 ts"
    by (simp add: list_range_def Let_def min_def)
  moreover have "list_range (sint (limit - 1)) (take 1000 ts) = take (min (nat (sint limit)) 1000) ts"
    if "1 \<le> sint limit"
    using that by (simp add: list_range_def sint_minus_one min.commute)
  ultimately show ?thesis unfolding g ts_def by simp
qed

text \<open>The market data of a trade are the trade's: when the event that the engine publishes for a
  match is delivered to the subscribed handler and Redis answers, the newest entry of the symbol has
  the price, quantity and quote amount of the match to the last digit and the time of the event.\<close>

theorem published_trade_is_recorded:
  assumes "rd_faults r = []" "market_Start tid (Some NewMemoryEventBus) = (None, Some b)"
    "ev = \<lparr>e_ID = i, e_Type = EventTradeExecuted, e_Payload = marshal_TradeExecuted (trade_payload m),
       e_Timestamp = ts, e_Version = 0\<rparr>"
  shows "fst (Publish b ''trade.executed'' [ev] r) = None \<and>
    rd_lists (snd (Publish b ''trade.executed'' [ev] r)) (trades_key (m_Symbol m)) =
      take 1000 (marshal_TradeItem \<lparr>ti_ID = tid, ti_Price = String (m_Price m),
        ti_Quantity = String (m_Quantity m), ti_QuoteQty = String (m_QuoteQty m), ti_Time = ts,
        ti_IsBuyerMaker = (m_TakerSide m = SideSell)\<rparr> # rd_lists r (trades_key (m_Symbol m)))"
proof -
  have h: "bus_handlers b ''trade.executed'' = [\<lparr>he_handler = market_handler tid, he_group = ''marketdata''\<rparr>]"
    using assms(2) by (auto simp: market_Start_def Subscribe_def NewMemoryEventBus_def)
  have "String (Decimal (Some (val d))) = String d" for d
    by (simp add: String_eq)
  then have "trade_item tid (market_match ts (trade_payload m)) =
      \<lparr>ti_ID = tid, ti_Price = String (m_Price m), ti_Quantity = String (m_Quantity m),
       ti_QuoteQty = String (m_QuoteQty m), ti_Time = ts, ti_IsBuyerMaker = (m_TakerSide m = SideSell)\<rparr>"
    by (simp add: trade_item_def market_match_def trade_payload_def decimalMust_def NewFromString_String)
  moreover have "m_Symbol (market_match ts (trade_payload m)) = m_Symbol m"
    by (simp add: market_match_def trade_payload_def)
  ultimately show ?thesis
    using assms(1) RecordTrade_ok [of r tid "market_match ts (trade_payload m)"]
    by (simp add: Publish_def h assms(3) market_handler_def unmarshal_marshal_TradeExecuted)
qed

subsection \<open>Examples\<close>

definition empty_redis :: redis where
  "empty_redis = \<lparr>rd_lists = (\<lambda>_. []), rd_hashes = (\<lambda>_. Map.empty), rd_faults = []\<rparr>"

definition sample_trade :: "int \<Rightarrow> MatchResult" where
  "sample_trade ts = \<lparr>m_TakerOrderID = ''t'', m_MakerOrderID = ''m'', m_TakerUserID = ''a'', m_MakerUserID = ''b'',
     m_Symbol = ''ETH-USDT'', m_Price = One, m_Quantity = One, m_QuoteQty = One, m_TakerSide = SideBuy,
     m_Timestamp = ts\<rparr>"

theorem recent_trades_witness:
  "fst (GetRecentTrades ''ETH-USDT'' 1 (record_all [(''x'', sample_trade 1), (''y'', sample_trade 2)] empty_redis)) =
     Inr [trade_item ''y'' (sample_trade 2)]"
proof -
  have "rd_faults empty_redis = []" "rd_lists empty_redis (trades_key ''ETH-USDT'') = []"
    by (simp_all add: empty_redis_def)
  from recent_trades [OF this, of 1 "[(''x'', sample_trade 1), (''y'', sample_trade 2)]"]
  show ?thesis by (simp add: sample_trade_def)
qed

theorem published_trade_is_recorded_witness:
  "\<exists>b ev js. rd_lists (snd (Publish b ''trade.executed'' [ev] empty_redis)) (trades_key ''ETH-USDT'') =
     take 1000 (marshal_TradeItem \<lparr>ti_ID = ''x'', ti_Price = String One, ti_Quantity = String One,
        ti_QuoteQty = String One, ti_Time = 5, ti_IsBuyerMaker = False\<rparr> # js)"
proof -
  obtain b where b: "market_Start ''x'' (Some NewMemoryEventBus) = (None, Some b)"
    by (simp add: market_Start_def Subscribe_def)
  have "rd_faults empty_redis = []" by (simp add: empty_redis_def)
  note p = published_trade_is_recorded [OF this b refl, of "''i''" "sample_trade 1" 5, THEN conjunct2]
  have m: "m_Symbol (sample_trade 1) = ''ETH-USDT''" "m_Price (sample_trade 1) = One"
    "m_Quantity (sample_trade 1) = One" "m_QuoteQty (sample_trade 1) = One" "(m_TakerSide (sample_trade 1) = SideSell) = False"
    by (simp_all add: sample_trade_def)
  show ?thesis by (rule exI, rule exI, rule exI, rule p [unfolded m])
qed

end
