(* ===== verification/Middleware.thy ===== *)
theory Middleware
  imports Auth Order_Repository Engine_Steps Market_Data
begin

section \<open>HTTP requests and the gateway's middleware (gateway/middleware)\<close>

text \<open>
  Requests and responses as the handlers see them, the query string, and the middleware: JWT and
  HMAC authentication, rate limiting, response headers. A handler maps a request and the state of
  the process to a response and a state. Header names are canonical; an absent header reads as the
  empty string. JSON responses are the Go values that are encoded. The operations of \<open>float64\<close>
  that the token bucket uses are the fields of a parameter.
\<close>

datatype http_body =
    NoBody
  | RawBody string
  | FieldsBody json_object
  | OrderBody StoredOrder
  | OrdersBody "StoredOrder list"
  | DepthBody BookSnapshot
  | TradesBody "TradeItem list"
  | TickerBody Ticker
  | KlinesBody "Candlestick list"

record request =
  rq_Method :: string
  rq_Path :: string
  rq_RawQuery :: string
  rq_Header :: "string \<Rightarrow> string"
  rq_Body :: string
  rq_RemoteAddr :: string
  rq_UserIDKey :: "string option"

record response =
  rs_Status :: nat
  rs_Header :: "(string \<times> string) list"
  rs_Body :: http_body

type_synonym 's handler = "request \<Rightarrow> 's \<Rightarrow> response \<times> 's"

text \<open>\<open>http.Error\<close> writes a text (the messages are JSON texts all the same).\<close>

definition http_Error :: "string \<Rightarrow> nat \<Rightarrow> response" where
  "http_Error msg status = \<lparr>rs_Status = status,
     rs_Header = [(''Content-Type'', ''text/plain; charset=utf-8''), (''X-Content-Type-Options'', ''nosniff'')],
     rs_Body = RawBody (msg @ [CHR 0x0A])\<rparr>"

definition WriteJSON :: "nat \<Rightarrow> http_body \<Rightarrow> response" where
  "WriteJSON status body = \<lparr>rs_Status = status, rs_Header = [(''Content-Type'', ''application/json'')],
     rs_Body = body\<rparr>"

definition WriteError :: "nat \<Rightarrow> string \<Rightarrow> response" where
  "WriteError status msg = WriteJSON status (FieldsBody [(''error'', JStr msg)])"

definition GetUserID :: "request \<Rightarrow> string" where
  "GetUserID r = (case rq_UserIDKey r of None \<Rightarrow> '''' | Some u \<Rightarrow> u)"

subsection \<open>Query strings and integers (net/url, strconv)\<close>

fun QueryUnescape :: "string \<Rightarrow> string option" where
  "QueryUnescape [] = Some []"
| "QueryUnescape (c # cs) =
     (if c = CHR ''%'' then
        (case cs of
           h # l # cs' \<Rightarrow>
             (case (hex_val h, hex_val l) of
                (Some a, Some b) \<Rightarrow> map_option ((#) (char_of (16 * a + b))) (QueryUnescape cs')
              | _ \<Rightarrow> None)
         | _ \<Rightarrow> None)
      else map_option ((#) (if c = CHR ''+'' then CHR '' '' else c)) (QueryUnescape cs))"

text \<open>\<open>strings.Cut\<close> at a byte: the part before it, and the part behind it if it occurs.\<close>

definition cut :: "char \<Rightarrow> string \<Rightarrow> string \<times> string option" where
  "cut d s =
     (let a = takeWhile (\<lambda>c. c \<noteq> d) s; r = dropWhile (\<lambda>c. c \<noteq> d) s in
      (a, case r of [] \<Rightarrow> None | _ # b \<Rightarrow> Some b))"

text \<open>The pairs of a query; a piece with a semicolon or a bad escape is dropped.\<close>

definition query_pair :: "string \<Rightarrow> (string \<times> string) list" where
  "query_pair piece =
     (if CHR '';'' \<in> set piece \<or> piece = [] then []
      else
        (case cut (CHR ''='') piece of
           (k, v) \<Rightarrow>
             (case (QueryUnescape k, QueryUnescape (case v of None \<Rightarrow> '''' | Some v \<Rightarrow> v)) of
                (Some k', Some v') \<Rightarrow> [(k', v')]
              | _ \<Rightarrow> [])))"

definition ParseQuery :: "string \<Rightarrow> (string \<times> string) list" where
  "ParseQuery q = concat (map query_pair (split_on (CHR ''&'') q))"

definition query_Get :: "request \<Rightarrow> string \<Rightarrow> string" where
  "query_Get r k = (case map_of (ParseQuery (rq_RawQuery r)) k of None \<Rightarrow> '''' | Some v \<Rightarrow> v)"

text \<open>The value of \<open>strconv.Atoi\<close> with its error ignored: 0 when it is no number, the nearest
  bound when it is out of range.\<close>

definition Atoi_value :: "string \<Rightarrow> 64 word" where
  "Atoi_value s =
     (case big_SetString s of
        None \<Rightarrow> 0
      | Some i \<Rightarrow> word_of_int (max (- (2 ^ 63)) (min (2 ^ 63 - 1) i)))"

subsection \<open>Authentication (auth.go)\<close>

definition with_user :: "string \<Rightarrow> request \<Rightarrow> request" where
  "with_user uid r = r\<lparr>rq_UserIDKey := Some uid\<rparr>"

text \<open>\<open>strings.SplitN(h, " ", 2)\<close> cuts at the first blank; only ASCII letters fold to those of
  \<open>bearer\<close>.\<close>

definition jwt_user ::
  "((jwt_method \<Rightarrow> error + jwt_key) \<Rightarrow> string \<Rightarrow> error + jwt_claims) \<Rightarrow> AuthService \<Rightarrow> request \<Rightarrow> response + string" where
  "jwt_user parse authSvc r =
     (let authHeader = rq_Header r ''Authorization'' in
      if authHeader = '''' then Inl (http_Error ''{\"error\":\"missing authorization header\"}'' 401)
      else
        (case cut (CHR '' '') authHeader of
           (scheme, Some token) \<Rightarrow>
             if ToLower scheme \<noteq> ''bearer'' then
               Inl (http_Error ''{\"error\":\"invalid authorization format\"}'' 401)
             else
               (case VerifyJWT parse token authSvc of
                  Inl _ \<Rightarrow> Inl (http_Error ''{\"error\":\"invalid or expired token\"}'' 401)
                | Inr uid \<Rightarrow> Inr uid)
         | (_, None) \<Rightarrow> Inl (http_Error ''{\"error\":\"invalid authorization format\"}'' 401)))"

text \<open>The handler behind an authentication sees the user in the context of the request.\<close>

definition authenticated :: "(request \<Rightarrow> response + string) \<Rightarrow> 's handler \<Rightarrow> 's handler" where
  "authenticated check handler r s =
     (case check r of Inl resp \<Rightarrow> (resp, s) | Inr uid \<Rightarrow> handler (with_user uid r) s)"

definition JWTAuth ::
  "((jwt_method \<Rightarrow> error + jwt_key) \<Rightarrow> string \<Rightarrow> error + jwt_claims) \<Rightarrow> AuthService \<Rightarrow> 's handler \<Rightarrow> 's handler" where
  "JWTAuth parse authSvc = authenticated (jwt_user parse authSvc)"

text \<open>The body, unless it is longer than the limit; the handler reads it again.\<close>

definition readBody :: "nat \<Rightarrow> request \<Rightarrow> error + string" where
  "readBody maxBytes r =
     (if maxBytes < length (rq_Body r) then Inl (Errorf ''http: request body too large'') else Inr (rq_Body r))"

definition hmac_user ::
  "(string \<Rightarrow> int option) \<Rightarrow> (string \<Rightarrow> string \<Rightarrow> string) \<Rightarrow> int \<Rightarrow> (string \<Rightarrow> error + string \<times> string) option \<Rightarrow>
     request \<Rightarrow> response + string" where
  "hmac_user parse3339 hmac_sha256 now keyGetter r =
     (let apiKey = rq_Header r ''X-Api-Key''; timestamp = rq_Header r ''X-Timestamp'';
          signature = rq_Header r ''X-Signature''
      in if apiKey = '''' \<or> timestamp = '''' \<or> signature = '''' then
           Inl (http_Error ''{\"error\":\"missing required headers: X-API-Key, X-Timestamp, X-Signature\"}'' 401)
         else
           (case keyGetter of
              None \<Rightarrow> Inl (http_Error ''{\"error\":\"HMAC authentication not configured\"}'' 500)
            | Some getKey \<Rightarrow>
                if \<not> VerifyTimestamp parse3339 now timestamp (5 * 1000000000) then
                  Inl (http_Error ''{\"error\":\"timestamp expired\"}'' 401)
                else
                  (case getKey apiKey of
                     Inl _ \<Rightarrow> Inl (http_Error ''{\"error\":\"invalid API key\"}'' 401)
                   | Inr (secret, uid) \<Rightarrow>
                       (case readBody (2 ^ 20) r of
                          Inl _ \<Rightarrow> Inl (http_Error ''{\"error\":\"request body too large\"}'' 413)
                        | Inr body \<Rightarrow>
                            if \<not> VerifyHMACSignature hmac_sha256 secret timestamp (rq_Method r) (rq_Path r)
                                 (rq_RawQuery r) body signature
                            then Inl (http_Error ''{\"error\":\"invalid signature\"}'' 401)
                            else Inr uid))))"

definition HMACAuth ::
  "(string \<Rightarrow> int option) \<Rightarrow> (string \<Rightarrow> string \<Rightarrow> string) \<Rightarrow> int \<Rightarrow> (string \<Rightarrow> error + string \<times> string) option \<Rightarrow>
     's handler \<Rightarrow> 's handler" where
  "HMACAuth parse3339 hmac_sha256 now keyGetter =
     authenticated (hmac_user parse3339 hmac_sha256 now keyGetter)"

subsection \<open>Rate limiting (ratelimit.go)\<close>

record 'f float_ops =
  fl_add :: "'f \<Rightarrow> 'f \<Rightarrow> 'f"
  fl_sub :: "'f \<Rightarrow> 'f \<Rightarrow> 'f"
  fl_mul :: "'f \<Rightarrow> 'f \<Rightarrow> 'f"
  fl_le :: "'f \<Rightarrow> 'f \<Rightarrow> bool"
  fl_less :: "'f \<Rightarrow> 'f \<Rightarrow> bool"
  fl_one :: 'f
  fl_two :: 'f
  fl_Seconds :: "int \<Rightarrow> 'f"

record 'f TokenBucket =
  tb_rate :: 'f
  tb_capacity :: 'f
  tb_tokens :: 'f
  tb_lastTime :: int

definition NewTokenBucket :: "int \<Rightarrow> 'f \<Rightarrow> 'f \<Rightarrow> 'f TokenBucket" where
  "NewTokenBucket now rate capacity =
     \<lparr>tb_rate = rate, tb_capacity = capacity, tb_tokens = capacity, tb_lastTime = now\<rparr>"

definition Allow :: "'f float_ops \<Rightarrow> int \<Rightarrow> 'f TokenBucket \<Rightarrow> bool \<times> 'f TokenBucket" where
  "Allow F now tb =
     (let elapsed = fl_Seconds F (now - tb_lastTime tb);
          filled = fl_add F (tb_tokens tb) (fl_mul F elapsed (tb_rate tb));
          tokens = (if fl_less F (tb_capacity tb) filled then tb_capacity tb else filled);
          tb1 = tb\<lparr>tb_tokens := tokens, tb_lastTime := now\<rparr>
      in if fl_le F (fl_one F) tokens then (True, tb1\<lparr>tb_tokens := fl_sub F tokens (fl_one F)\<rparr>)
         else (False, tb1))"

record 'f RateLimiter =
  rl_buckets :: "string \<rightharpoonup> 'f TokenBucket"
  rl_ipRate :: 'f
  rl_userRate :: 'f

definition NewRateLimiter :: "'f \<Rightarrow> 'f \<Rightarrow> 'f RateLimiter" where
  "NewRateLimiter ipRate userRate = \<lparr>rl_buckets = Map.empty, rl_ipRate = ipRate, rl_userRate = userRate\<rparr>"

definition rl_allow ::
  "'f float_ops \<Rightarrow> (nat \<Rightarrow> int) \<Rightarrow> string \<Rightarrow> 'f \<Rightarrow> 'f \<Rightarrow> 'f RateLimiter \<Rightarrow> bool \<times> 'f RateLimiter" where
  "rl_allow F clk key rate capacity rl =
     (let bucket = (case rl_buckets rl key of None \<Rightarrow> NewTokenBucket (clk 0) rate capacity | Some b \<Rightarrow> b);
          (ok, bucket') = Allow F (clk 1) bucket
      in (ok, rl\<lparr>rl_buckets := (rl_buckets rl)(key \<mapsto> bucket')\<rparr>))"

definition AllowIP :: "'f float_ops \<Rightarrow> (nat \<Rightarrow> int) \<Rightarrow> string \<Rightarrow> 'f RateLimiter \<Rightarrow> bool \<times> 'f RateLimiter" where
  "AllowIP F clk ip rl =
     rl_allow F clk (''ip:'' @ ip) (rl_ipRate rl) (fl_mul F (rl_ipRate rl) (fl_two F)) rl"

definition AllowUser :: "'f float_ops \<Rightarrow> (nat \<Rightarrow> int) \<Rightarrow> string \<Rightarrow> 'f RateLimiter \<Rightarrow> bool \<times> 'f RateLimiter" where
  "AllowUser F clk uid rl =
     rl_allow F clk (''user:'' @ uid) (rl_userRate rl) (fl_mul F (rl_userRate rl) (fl_two F)) rl"

definition cleanup :: "int \<Rightarrow> int \<Rightarrow> 'f RateLimiter \<Rightarrow> 'f RateLimiter" where
  "cleanup now ttl rl =
     rl\<lparr>rl_buckets := (\<lambda>k. case rl_buckets rl k of None \<Rightarrow> None
        | Some b \<Rightarrow> if tb_lastTime b < now - ttl then None else Some b)\<rparr>"

text \<open>The loop of \<open>StartCleanup\<close>: the times of its ticks until its context ends.\<close>

fun StartCleanup :: "int list \<Rightarrow> int \<Rightarrow> 'f RateLimiter \<Rightarrow> 'f RateLimiter" where
  "StartCleanup [] ttl rl = rl"
| "StartCleanup (now # ticks) ttl rl = StartCleanup ticks ttl (cleanup now ttl rl)"

text \<open>What is left are the buckets used since \<open>ttl\<close> before every tick, unchanged.\<close>

lemma StartCleanup_keeps:
  "rl_buckets (StartCleanup ticks ttl rl) k = Some b \<longleftrightarrow>
     rl_buckets rl k = Some b \<and> (\<forall>now\<in>set ticks. now - ttl \<le> tb_lastTime b)"
  by (induction ticks arbitrary: rl) (auto simp: cleanup_def not_less split: option.splits if_splits)

definition rate_Middleware ::
  "'f float_ops \<Rightarrow> (nat \<Rightarrow> int) \<Rightarrow> ('f RateLimiter \<times> 's) handler \<Rightarrow> ('f RateLimiter \<times> 's) handler" where
  "rate_Middleware F clk handler r st =
     (case st of (rl, s) \<Rightarrow>
        (case AllowIP F clk (rq_RemoteAddr r) rl of
           (False, rl1) \<Rightarrow> (http_Error ''{\"error\":\"rate limit exceeded\"}'' 429, (rl1, s))
         | (True, rl1) \<Rightarrow>
             if GetUserID r \<noteq> '''' then
               (case AllowUser F (\<lambda>i. clk (i + 2)) (GetUserID r) rl1 of
                  (False, rl2) \<Rightarrow> (http_Error ''{\"error\":\"rate limit exceeded\"}'' 429, (rl2, s))
                | (True, rl2) \<Rightarrow> handler r (rl2, s))
             else handler r (rl1, s)))"

subsection \<open>Response headers (security.go)\<close>

text \<open>\<open>Header().Set\<close> before the handler runs; what the handler sets later replaces it.\<close>

definition set_before :: "(string \<times> string) list \<Rightarrow> response \<Rightarrow> response" where
  "set_before hs resp =
     resp\<lparr>rs_Header := filter (\<lambda>(k, _). k \<notin> fst ` set (rs_Header resp)) hs @ rs_Header resp\<rparr>"

definition security_headers :: "(string \<times> string) list" where
  "security_headers =
     [(''X-Content-Type-Options'', ''nosniff''), (''X-Frame-Options'', ''DENY''),
      (''X-Xss-Protection'', ''1; mode=block''), (''Referrer-Policy'', ''strict-origin-when-cross-origin''),
      (''Content-Security-Policy'',
       ''default-src '' @ [CHR 0x27] @ ''self'' @ [CHR 0x27] @ ''; script-src '' @ [CHR 0x27] @ ''self'' @
       [CHR 0x27] @ ''; style-src '' @ [CHR 0x27] @ ''self'' @ [CHR 0x27] @ '' '' @ [CHR 0x27] @
       ''unsafe-inline'' @ [CHR 0x27]),
      (''Strict-Transport-Security'', ''max-age=31536000; includeSubDomains''),
      (''Cache-Control'', ''no-store, no-cache, must-revalidate''), (''Pragma'', ''no-cache'')]"

definition SecurityHeaders :: "'s handler \<Rightarrow> 's handler" where
  "SecurityHeaders handler r s = map_prod (set_before security_headers) id (handler r s)"

definition cors_headers :: "(string \<times> string) list" where
  "cors_headers =
     [(''Access-Control-Allow-Origin'', ''*''), (''Access-Control-Allow-Methods'', ''GET, POST, DELETE, OPTIONS''),
      (''Access-Control-Allow-Headers'', ''Content-Type, Authorization, X-API-Key, X-Timestamp, X-Signature''),
      (''Access-Control-Max-Age'', ''86400'')]"

definition CORSMiddleware :: "'s handler \<Rightarrow> 's handler" where
  "CORSMiddleware handler r s =
     map_prod (set_before cors_headers) id
       (if rq_Method r = ''OPTIONS'' then (\<lparr>rs_Status = 204, rs_Header = [], rs_Body = NoBody\<rparr>, s)
        else handler r s)"

subsection \<open>Properties\<close>

text \<open>A signature does not fix where the path, the query and the body begin: whenever a signed
  request is accepted as a user, every request with the same headers whose method, path, query and
  body only concatenate to the same text (and whose body is within the limit) is accepted as that
  user and handed on.\<close>

theorem signed_request_regroups:
  assumes "hmac_user p h now kg r = Inr uid" "rq_Header r' = rq_Header r"
    "rq_Method r' @ rq_Path r' @ rq_RawQuery r' @ rq_Body r' = rq_Method r @ rq_Path r @ rq_RawQuery r @ rq_Body r"
    "length (rq_Body r') \<le> 2 ^ 20"
  shows "HMACAuth p h now kg handler r s = handler (with_user uid r) s \<and>
    HMACAuth p h now kg handler r' s = handler (with_user uid r') s"
proof -
  have b: "readBody (2 ^ 20) r' = Inr (rq_Body r')" using assms(4) by (simp add: readBody_def not_less)
  have "VerifyHMACSignature h secret ts (rq_Method r') (rq_Path r') (rq_RawQuery r') (rq_Body r') sg =
      VerifyHMACSignature h secret ts (rq_Method r) (rq_Path r) (rq_RawQuery r) (rq_Body r) sg" for secret ts sg
    by (rule VerifyHMACSignature_regroup) (simp add: assms(3))
  then have "hmac_user p h now kg r' = Inr uid"
    using assms(1) b unfolding hmac_user_def Let_def assms(2)
    by (auto simp: readBody_def split: if_splits option.splits sum.splits prod.splits)
  with assms(1) show ?thesis by (simp add: HMACAuth_def authenticated_def)
qed

definition sample_signed :: "string \<Rightarrow> string \<Rightarrow> string \<Rightarrow> request" where
  "sample_signed path query body = \<lparr>rq_Method = ''POST'', rq_Path = path, rq_RawQuery = query,
     rq_Header = (\<lambda>k. if k = ''X-Signature'' then hex_encode ''k'' else if k = ''X-Timestamp'' then ''7'' else ''ak''),
     rq_Body = body, rq_RemoteAddr = '''', rq_UserIDKey = None\<rparr>"

theorem signed_request_regroups_witness:
  "HMACAuth (\<lambda>_. Some 0) (\<lambda>k m. ''k'') 1 (Some (\<lambda>_. Inr (''s'', ''u1''))) (\<lambda>r s. (WriteError 200 (GetUserID r), s))
     (sample_signed ''/api/v1'' '''' ''/order'') () = (WriteError 200 ''u1'', ())"
proof -
  let ?h = "\<lambda>r (s :: unit). (WriteError 200 (GetUserID r), s)"
  have k: "hex_encode ''k'' \<noteq> []" by (simp add: hex_encode_def)
  have "hmac_user (\<lambda>_. Some 0) (\<lambda>k m. ''k'') 1 (Some (\<lambda>_. Inr (''s'', ''u1''))) (sample_signed ''/api/v1/order'' '''' '''') = Inr ''u1''"
    using k by (simp add: hmac_user_def Let_def sample_signed_def VerifyTimestamp_def readBody_def
        VerifyHMACSignature_def)
  from signed_request_regroups [OF this, of "sample_signed ''/api/v1'' '''' ''/order''" ?h "()"]
  show ?thesis by (simp add: sample_signed_def GetUserID_def with_user_def)
qed

end
