(* ===== verification/Gateway.thy ===== *)
theory Gateway
  imports Middleware Order_Service Wallet
begin

section \<open>The API gateway (gateway/handler, gateway/router.go)\<close>

text \<open>
  The handlers of the HTTP API over the services, and the router. \<open>world\<close> is the state behind a
  request; \<open>inputs\<close> is what its handling takes from outside the repository: the JSON reader
  (the first value of a body behind a reader that fails after a number of bytes, members that are
  null left out), the token library, the crypto primitives, fresh identifiers, the clock, the
  answers of the matching engine (theory \<open>Engine_Steps\<close>), the client address that chi's
  \<open>RealIP\<close> takes from the request, and the responses of chi and of the telemetry handlers.
  chi's \<open>Recoverer\<close> answers a panic with status 500; a panic of \<open>PlaceOrder\<close> happens before
  its first statement.
\<close>

datatype endpoint =
    Health | Ready | Metrics | Ping | ServerTime | Depth | Trades | Klines | Ticker24
  | Account | PlaceOrderE | CancelOrderE | GetOrderE | OpenOrdersE | BalancesE | DepositAddressE | WithdrawE

record gateway =
  gw_auth :: AuthService
  gw_orders :: OrderService
  gw_hasWallet :: bool

record world =
  wd_db :: db
  wd_wallet :: wallet_service
  wd_redis :: redis
  wd_engine :: Engine

record inputs =
  in_json :: "nat \<Rightarrow> string \<Rightarrow> error + json_object"
  in_parse :: "(jwt_method \<Rightarrow> error + jwt_key) \<Rightarrow> string \<Rightarrow> error + jwt_claims"
  in_crypto :: crypto
  in_rnd :: string
  in_orderID :: string
  in_withdrawalID :: string
  in_now :: int
  in_eng :: "Order \<Rightarrow> MatchResult list \<times> Order option \<times> error option"
  in_engc :: "Symbol \<Rightarrow> string \<Rightarrow> error + Order"
  in_realIP :: "request \<Rightarrow> string"
  in_unrouted :: "request \<Rightarrow> response"
  in_telemetry :: "endpoint \<Rightarrow> response"

text \<open>\<open>Error()\<close> of the errors of theory \<open>Common_Types\<close>.\<close>

fun error_text :: "error \<Rightarrow> string" where
  "error_text ErrInsufficientBalance = ''insufficient balance''"
| "error_text ErrOrderNotFound = ''order not found''"
| "error_text ErrMarketNotAvailable = ''market not available''"
| "error_text ErrInvalidPricePrecision = ''invalid price precision''"
| "error_text ErrInvalidQtyPrecision = ''invalid quantity precision''"
| "error_text ErrOrderSizeOutOfRange = ''order size out of range''"
| "error_text ErrRateLimitExceeded = ''rate limit exceeded''"
| "error_text ErrRiskBlocked = ''order blocked by risk control''"
| "error_text ErrInvalidOrderType = ''invalid order type''"
| "error_text ErrInvalidTimeInForce = ''invalid time in force''"
| "error_text ErrUserNotFound = ''user not found''"
| "error_text ErrUserSuspended = ''user suspended''"
| "error_text ErrWithdrawalTooLarge = ''withdrawal exceeds daily limit''"
| "error_text ErrInvalidAddress = ''invalid blockchain address''"
| "error_text ErrDepositNotConfirmed = ''deposit not yet confirmed''"
| "error_text ErrDuplicateDeposit = ''duplicate deposit transaction''"
| "error_text ErrUnauthorized = ''unauthorized''"
| "error_text ErrInvalidSignature = ''invalid API signature''"
| "error_text ErrTimestampExpired = ''request timestamp expired''"
| "error_text ErrInvalidAPIKey = ''invalid API key''"
| "error_text ErrInternalServer = ''internal server error''"
| "error_text (Errorf m) = m"
| "error_text (WrapBefore m e) = m @ error_text e"
| "error_text (WrapAfter e m) = error_text e @ m"

text \<open>A handler that needs a user.\<close>

definition for_user :: "(string \<Rightarrow> 's handler) \<Rightarrow> 's handler" where
  "for_user h r w =
     (if GetUserID r = '''' then (WriteError 401 ''unauthorized'', w) else h (GetUserID r) r w)"

text \<open>The decoded body, behind the limit of one megabyte.\<close>

definition decode_body :: "inputs \<Rightarrow> (json_object \<Rightarrow> error + 'a) \<Rightarrow> request \<Rightarrow> error + 'a" where
  "decode_body i fields_of r = bind_sum (in_json i (2 ^ 20) (rq_Body r)) fields_of"

subsection \<open>Orders (order.go)\<close>

record order_body =
  bo_Symbol :: string
  bo_Side :: string
  bo_Type :: string
  bo_TimeInForce :: string
  bo_Price :: string
  bo_StopPrice :: string
  bo_Quantity :: string
  bo_ClientOrderID :: string

definition order_body_of :: "json_object \<Rightarrow> error + order_body" where
  "order_body_of ms =
     bind_sum (json_string ''symbol'' ms) (\<lambda>sy.
     bind_sum (json_string ''side'' ms) (\<lambda>sd.
     bind_sum (json_string ''type'' ms) (\<lambda>ty.
     bind_sum (json_string ''timeInForce'' ms) (\<lambda>tif.
     bind_sum (json_string ''price'' ms) (\<lambda>pr.
     bind_sum (json_string ''stopPrice'' ms) (\<lambda>sp.
     bind_sum (json_string ''quantity'' ms) (\<lambda>qt.
     bind_sum (json_string ''clientOrderId'' ms) (\<lambda>cid.
     Inr \<lparr>bo_Symbol = sy, bo_Side = sd, bo_Type = ty, bo_TimeInForce = tif, bo_Price = pr,
       bo_StopPrice = sp, bo_Quantity = qt, bo_ClientOrderID = cid\<rparr>))))))))"

definition place_request :: "string \<Rightarrow> order_body \<Rightarrow> decimal \<Rightarrow> PlaceOrderRequest" where
  "place_request uid b quantity =
     \<lparr>req_UserID = uid, req_Symbol = bo_Symbol b, req_Side = bo_Side b, req_Type = bo_Type b,
      req_TimeInForce = bo_TimeInForce b, req_Price = decimalMust (bo_Price b),
      req_StopPrice = decimalMust (bo_StopPrice b), req_Quantity = quantity,
      req_ClientOrderID = bo_ClientOrderID b\<rparr>"

definition handle_PlaceOrder :: "gateway \<Rightarrow> inputs \<Rightarrow> world handler" where
  "handle_PlaceOrder gw i = for_user (\<lambda>uid r w.
     case decode_body i order_body_of r of
       Inl _ \<Rightarrow> (WriteError 400 ''invalid request body'', w)
     | Inr b \<Rightarrow>
         if isl (NewFromString (bo_Price b)) \<and> bo_Price b \<noteq> '''' then (WriteError 400 ''invalid price'', w)
         else
           (case NewFromString (bo_Quantity b) of
              Inl _ \<Rightarrow> (WriteError 400 ''invalid quantity'', w)
            | Inr quantity \<Rightarrow>
                (case PlaceOrder (gw_orders gw) (in_orderID i) (in_now i) (in_eng i)
                    (place_request uid b quantity) (wd_db w) of
                   Inl _ \<Rightarrow> (\<lparr>rs_Status = 500, rs_Header = [], rs_Body = NoBody\<rparr>, w)
                 | Inr (Inl e, d) \<Rightarrow> (WriteError 400 (error_text e), w\<lparr>wd_db := d\<rparr>)
                 | Inr (Inr resp, d) \<Rightarrow>
                     (WriteJSON 200 (FieldsBody
                        [(''orderId'', JStr (pr_OrderID resp)), (''clientOrderId'', JStr (pr_ClientOrderID resp)),
                         (''status'', JStr (pr_Status resp)), (''filledQty'', JStr (String (pr_FilledQty resp)))]),
                      w\<lparr>wd_db := d\<rparr>))))"

definition cancel_body_of :: "json_object \<Rightarrow> error + string \<times> string" where
  "cancel_body_of ms =
     bind_sum (json_string ''symbol'' ms) (\<lambda>sy. bind_sum (json_string ''orderId'' ms) (\<lambda>oid. Inr (sy, oid)))"

definition handle_CancelOrder :: "gateway \<Rightarrow> inputs \<Rightarrow> world handler" where
  "handle_CancelOrder gw i = for_user (\<lambda>uid r w.
     case decode_body i cancel_body_of r of
       Inl _ \<Rightarrow> (WriteError 400 ''invalid request body'', w)
     | Inr (symb, oid) \<Rightarrow>
         (case service_CancelOrder (gw_orders gw) (in_engc i) uid symb oid (wd_db w) of
            (Some e, d) \<Rightarrow> (WriteError 400 (error_text e), w\<lparr>wd_db := d\<rparr>)
          | (None, d) \<Rightarrow> (WriteJSON 200 (FieldsBody [(''status'', JStr ''cancelled'')]), w\<lparr>wd_db := d\<rparr>)))"

definition handle_GetOpenOrders :: "gateway \<Rightarrow> world handler" where
  "handle_GetOpenOrders gw = for_user (\<lambda>uid r w.
     case service_GetOpenOrders (gw_orders gw) uid (query_Get r ''symbol'') (wd_db w) of
       (Inl e, d) \<Rightarrow> (WriteError 500 (error_text e), w\<lparr>wd_db := d\<rparr>)
     | (Inr os, d) \<Rightarrow> (WriteJSON 200 (OrdersBody os), w\<lparr>wd_db := d\<rparr>))"

definition handle_GetOrder :: "gateway \<Rightarrow> world handler" where
  "handle_GetOrder gw = for_user (\<lambda>uid r w.
     case service_GetOrder (gw_orders gw) (query_Get r ''orderId'') (wd_db w) of
       (Inl e, d) \<Rightarrow> (WriteError 404 (error_text e), w\<lparr>wd_db := d\<rparr>)
     | (Inr so, d) \<Rightarrow>
         if so_UserID so \<noteq> uid then (WriteError 403 ''not your order'', w\<lparr>wd_db := d\<rparr>)
         else (WriteJSON 200 (OrderBody so), w\<lparr>wd_db := d\<rparr>))"

subsection \<open>Wallet (wallet.go)\<close>

definition withdrawalFee :: "Currency \<Rightarrow> decimal" where
  "withdrawalFee currency =
     (if currency = ''ETH'' then decimalMust ''0.001''
      else if currency = ''USDT'' then decimalMust ''1'' else Zero)"

definition address_body_of :: "json_object \<Rightarrow> error + string \<times> string" where
  "address_body_of ms =
     bind_sum (json_string ''currency'' ms) (\<lambda>cur. bind_sum (json_string ''chain'' ms) (\<lambda>chain. Inr (cur, chain)))"

definition handle_GetDepositAddress :: "inputs \<Rightarrow> world handler" where
  "handle_GetDepositAddress i = for_user (\<lambda>uid r w.
     case decode_body i address_body_of r of
       Inl _ \<Rightarrow> (WriteError 400 ''invalid request body'', w)
     | Inr (cur, chain) \<Rightarrow>
         (case GenerateDepositAddress (in_crypto i) (in_rnd i) (wd_wallet w) uid cur chain (wd_db w) of
            (Inl e, s, d) \<Rightarrow> (WriteError 500 (error_text e), w\<lparr>wd_wallet := s, wd_db := d\<rparr>)
          | (Inr addr, s, d) \<Rightarrow>
              (WriteJSON 200 (FieldsBody [(''address'', JStr addr), (''chain'', JStr chain)]),
               w\<lparr>wd_wallet := s, wd_db := d\<rparr>)))"

definition withdraw_body_of :: "json_object \<Rightarrow> error + string \<times> string \<times> string \<times> string" where
  "withdraw_body_of ms =
     bind_sum (json_string ''currency'' ms) (\<lambda>cur.
     bind_sum (json_string ''chain'' ms) (\<lambda>chain.
     bind_sum (json_string ''toAddress'' ms) (\<lambda>to.
     bind_sum (json_string ''amount'' ms) (\<lambda>amt. Inr (cur, chain, to, amt)))))"

definition handle_Withdraw :: "inputs \<Rightarrow> world handler" where
  "handle_Withdraw i = for_user (\<lambda>uid r w.
     case decode_body i withdraw_body_of r of
       Inl _ \<Rightarrow> (WriteError 400 ''invalid request body'', w)
     | Inr (cur, chain, to, amt) \<Rightarrow>
         (case NewFromString amt of
            Inl _ \<Rightarrow> (WriteError 400 ''invalid amount'', w)
          | Inr amount \<Rightarrow>
              (case RequestWithdrawal (wd_wallet w) (in_withdrawalID i)
                  \<lparr>wr_UserID = uid, wr_Currency = cur, wr_Chain = chain, wr_ToAddress = to,
                   wr_Amount = amount, wr_Fee = withdrawalFee cur\<rparr> (wd_db w) of
                 (Inl e, d) \<Rightarrow> (WriteError 400 (error_text e), w\<lparr>wd_db := d\<rparr>)
               | (Inr res, d) \<Rightarrow>
                   (WriteJSON 200 (FieldsBody [(''withdrawalId'', JStr (wres_WithdrawalID res)),
                      (''status'', JStr (wres_Status res))]), w\<lparr>wd_db := d\<rparr>))))"

definition handle_GetBalances :: "world handler" where
  "handle_GetBalances = for_user (\<lambda>uid r w.
     (WriteJSON 200 (FieldsBody [(''message'', JStr ''use /api/v1/account for balance info'')]), w))"

subsection \<open>Market data (market.go)\<close>

text \<open>A limit that is given but cannot be read counts as 0.\<close>

definition limit_of :: "64 word \<Rightarrow> request \<Rightarrow> 64 word" where
  "limit_of dflt r = (let l = query_Get r ''limit'' in if l \<noteq> '''' then Atoi_value l else dflt)"

definition handle_GetDepth :: "world handler" where
  "handle_GetDepth r w =
     (case market_GetOrderBook (wd_engine w) (query_Get r ''symbol'') (limit_of 100 r) of
        Inl e \<Rightarrow> (WriteError 404 (error_text e), w)
      | Inr snap \<Rightarrow> (WriteJSON 200 (DepthBody snap), w))"

definition handle_GetTrades :: "world handler" where
  "handle_GetTrades r w =
     (case GetRecentTrades (query_Get r ''symbol'') (limit_of 500 r) (wd_redis w) of
        (Inl e, rd) \<Rightarrow> (WriteError 404 (error_text e), w\<lparr>wd_redis := rd\<rparr>)
      | (Inr ts, rd) \<Rightarrow> (WriteJSON 200 (TradesBody ts), w\<lparr>wd_redis := rd\<rparr>))"

definition handle_GetTicker :: "world handler" where
  "handle_GetTicker r w =
     (case GetTicker (query_Get r ''symbol'') (wd_redis w) of
        (Inl e, rd) \<Rightarrow> (WriteError 404 (error_text e), w\<lparr>wd_redis := rd\<rparr>)
      | (Inr t, rd) \<Rightarrow> (WriteJSON 200 (TickerBody t), w\<lparr>wd_redis := rd\<rparr>))"

definition handle_GetKlines :: "world handler" where
  "handle_GetKlines r w =
     (case GetKlines (query_Get r ''symbol'') (query_Get r ''interval'') (limit_of 100 r) of
        Inl e \<Rightarrow> (WriteError 404 (error_text e), w)
      | Inr ks \<Rightarrow> (WriteJSON 200 (KlinesBody ks), w))"

definition handle_GetAccount :: "world handler" where
  "handle_GetAccount = for_user (\<lambda>uid r w.
     (WriteJSON 200 (FieldsBody [(''userId'', JStr uid), (''message'', JStr ''use wallet service for balances'')]), w))"

subsection \<open>The router (router.go)\<close>

definition public_routes :: "(string \<times> string \<times> endpoint) list" where
  "public_routes =
     [(''GET'', ''/health'', Health), (''GET'', ''/ready'', Ready), (''GET'', ''/metrics'', Metrics),
      (''GET'', ''/api/v1/ping'', Ping), (''GET'', ''/api/v1/time'', ServerTime), (''GET'', ''/api/v1/depth'', Depth),
      (''GET'', ''/api/v1/trades'', Trades), (''GET'', ''/api/v1/klines'', Klines),
      (''GET'', ''/api/v1/ticker/24hr'', Ticker24)]"

definition private_routes :: "bool \<Rightarrow> (string \<times> string \<times> endpoint) list" where
  "private_routes wallet =
     [(''GET'', ''/api/v1/account'', Account), (''POST'', ''/api/v1/order'', PlaceOrderE),
      (''DELETE'', ''/api/v1/order'', CancelOrderE), (''GET'', ''/api/v1/order'', GetOrderE),
      (''GET'', ''/api/v1/open-orders'', OpenOrdersE)] @
     (if wallet then
        [(''GET'', ''/api/v1/wallet/balances'', BalancesE),
         (''POST'', ''/api/v1/wallet/deposit-address'', DepositAddressE),
         (''POST'', ''/api/v1/wallet/withdraw'', WithdrawE)]
      else [])"

definition find_route :: "(string \<times> string \<times> endpoint) list \<Rightarrow> request \<Rightarrow> endpoint option" where
  "find_route routes r =
     map_option (\<lambda>(_, _, ep). ep) (find (\<lambda>(me, p, _). me = rq_Method r \<and> p = rq_Path r) routes)"

fun public_handler :: "inputs \<Rightarrow> endpoint \<Rightarrow> world handler" where
  "public_handler i Ping r w = (\<lparr>rs_Status = 200, rs_Header = [], rs_Body = RawBody ''{\"status\":\"ok\"}''\<rparr>, w)"
| "public_handler i ServerTime r w =
     (WriteJSON 200 (FieldsBody [(''serverTime'', JInt (in_now i div 1000000))]), w)"
| "public_handler i Depth r w = handle_GetDepth r w"
| "public_handler i Trades r w = handle_GetTrades r w"
| "public_handler i Klines r w = handle_GetKlines r w"
| "public_handler i Ticker24 r w = handle_GetTicker r w"
| "public_handler i ep r w = (in_telemetry i ep, w)"

fun private_handler :: "gateway \<Rightarrow> inputs \<Rightarrow> endpoint \<Rightarrow> world handler" where
  "private_handler gw i Account r w = handle_GetAccount r w"
| "private_handler gw i PlaceOrderE r w = handle_PlaceOrder gw i r w"
| "private_handler gw i CancelOrderE r w = handle_CancelOrder gw i r w"
| "private_handler gw i GetOrderE r w = handle_GetOrder gw r w"
| "private_handler gw i OpenOrdersE r w = handle_GetOpenOrders gw r w"
| "private_handler gw i BalancesE r w = handle_GetBalances r w"
| "private_handler gw i DepositAddressE r w = handle_GetDepositAddress i r w"
| "private_handler gw i WithdrawE r w = handle_Withdraw i r w"
| "private_handler gw i ep r w = (in_unrouted i r, w)"

definition route_request :: "gateway \<Rightarrow> inputs \<Rightarrow> world handler" where
  "route_request gw i r w =
     (case find_route public_routes r of
        Some ep \<Rightarrow> public_handler i ep r w
      | None \<Rightarrow>
          (case find_route (private_routes (gw_hasWallet gw)) r of
             Some ep \<Rightarrow> JWTAuth (in_parse i) (gw_auth gw) (private_handler gw i ep) r w
           | None \<Rightarrow> (in_unrouted i r, w)))"

text \<open>The chain of the router; the request arrives with an empty context.\<close>

definition NewRouter ::
  "'f float_ops \<Rightarrow> (nat \<Rightarrow> int) \<Rightarrow> gateway \<Rightarrow> inputs \<Rightarrow> ('f RateLimiter \<times> world) handler" where
  "NewRouter F clk gw i r =
     SecurityHeaders (CORSMiddleware (rate_Middleware F clk
       (\<lambda>r (rl, w). map_prod id (Pair rl) (route_request gw i r w))))
     (r\<lparr>rq_RemoteAddr := in_realIP i r, rq_UserIDKey := None\<rparr>)"

subsection \<open>Whom a request can touch\<close>

text \<open>The funds of everybody else are untouched, and stored orders shown are the user's own.\<close>

definition shows_only :: "string \<Rightarrow> http_body \<Rightarrow> bool" where
  "shows_only uid b =
     (case b of OrderBody so \<Rightarrow> so_UserID so = uid
      | OrdersBody os \<Rightarrow> (\<forall>so\<in>set os. so_UserID so = uid)
      | _ \<Rightarrow> True)"

definition acts_for :: "string \<Rightarrow> world \<Rightarrow> response \<times> world \<Rightarrow> bool" where
  "acts_for uid w out \<longleftrightarrow>
     (\<forall>k. fst k \<noteq> uid \<longrightarrow> held (wd_db (snd out)) k = held (wd_db w) k \<and>
        frozen (wd_db (snd out)) k = frozen (wd_db w) k) \<and> shows_only uid (rs_Body (fst out))"

lemma response_simps [simp]:
  "rs_Status (WriteJSON st b) = st" "rs_Body (WriteJSON st b) = b" "rs_Status (WriteError st m) = st"
  "shows_only uid (rs_Body (WriteError st m))" "rs_Status (http_Error m st) = st"
  "shows_only uid (rs_Body (http_Error m st))" "shows_only uid (FieldsBody ms)" "shows_only uid NoBody"
  "shows_only uid (RawBody s)"
  by (simp_all add: WriteJSON_def WriteError_def http_Error_def shows_only_def)

lemma acts_for_own_funds:
  "own_funds_only uid (wd_db w) d \<Longrightarrow> shows_only uid (rs_Body resp) \<Longrightarrow> acts_for uid w (resp, w\<lparr>wd_db := d\<rparr>)"
  by (auto simp: acts_for_def own_funds_only_def held_def frozen_def)

lemma acts_for_same:
  "shows_only uid (rs_Body resp) \<Longrightarrow> wd_db w' = wd_db w \<Longrightarrow> acts_for uid w (resp, w')"
  by (simp add: acts_for_def)

lemma acts_for_refl: "shows_only uid (rs_Body resp) \<Longrightarrow> acts_for uid w (resp, w)"
  by (simp add: acts_for_same)

lemma shows_only_simps [simp]:
  "shows_only uid (OrderBody so) = (so_UserID so = uid)"
  "shows_only uid (OrdersBody os) = (\<forall>so\<in>set os. so_UserID so = uid)"
  "shows_only uid (DepthBody sn)" "shows_only uid (TradesBody ts)" "shows_only uid (TickerBody tk)"
  "shows_only uid (KlinesBody ks)"
  by (simp_all add: shows_only_def)

lemma acts_for_for_user:
  "(GetUserID r \<noteq> '''' \<Longrightarrow> acts_for (GetUserID r) w (h (GetUserID r) r w)) \<Longrightarrow> acts_for (GetUserID r) w (for_user h r w)"
  by (simp add: for_user_def acts_for_same)

lemma handle_PlaceOrder_acts: "acts_for (GetUserID r) w (handle_PlaceOrder gw i r w)"
  unfolding handle_PlaceOrder_def
proof (rule acts_for_for_user, goal_cases)
  case 1
  have "own_funds_only (GetUserID r) (wd_db w) d"
    if "PlaceOrder s oid now eng (place_request (GetUserID r) b q) (wd_db w) = Inr (x, d)" for s oid now eng b q x d
    using PlaceOrder_funds [OF that] by (simp add: place_request_def)
  then show ?case
    by (auto intro!: acts_for_own_funds acts_for_refl split: sum.split prod.split)
qed

lemma handle_CancelOrder_acts: "acts_for (GetUserID r) w (handle_CancelOrder gw i r w)"
  unfolding handle_CancelOrder_def
  by (rule acts_for_for_user)
    (auto intro!: acts_for_own_funds acts_for_refl dest!: service_CancelOrder_funds split: sum.split prod.split option.split)

lemma reads_acts:
  assumes "\<exists>fs. d = (wd_db w)\<lparr>db_faults := fs\<rparr>" "shows_only uid (rs_Body resp)"
  shows "acts_for uid w (resp, w\<lparr>wd_db := d\<rparr>)"
  using assms by (auto intro: acts_for_own_funds own_funds_refl)

lemma service_GetOrder_reads: "service_GetOrder s oid d = (x, d') \<Longrightarrow> \<exists>fs. d' = d\<lparr>db_faults := fs\<rparr>"
  using GetByID_tables [of oid d x d']
  by (auto simp: service_GetOrder_def split: if_splits intro: exI [of _ "db_faults d"])

lemma service_GetOpenOrders_reads:
  assumes "service_GetOpenOrders s uid symb d = (x, d')"
  shows "(\<exists>fs. d' = d\<lparr>db_faults := fs\<rparr>) \<and> (\<forall>os. x = Inr os \<longrightarrow> (\<forall>so\<in>set os. so_UserID so = uid))"
proof -
  obtain y d1 where q: "stmt (\<lambda>d. (Inr (open_rows uid symb (db_orders d)), d)) d = (y, d1)" by fastforce
  from stmt_tables [OF q] q have "(\<exists>fs. d1 = d\<lparr>db_faults := fs\<rparr>) \<and> (y = Inr (open_rows uid symb (db_orders d1)) \<or> isl y)"
    by blast
  with assms q show ?thesis
    by (auto simp: service_GetOpenOrders_def GetOpenOrders_def open_rows_def stored_of_row_def
        split: if_splits sum.splits intro: exI [of _ "db_faults d"])
qed

lemma handle_GetOrder_acts: "acts_for (GetUserID r) w (handle_GetOrder gw r w)"
  unfolding handle_GetOrder_def
  by (rule acts_for_for_user)
    (auto intro!: reads_acts dest!: service_GetOrder_reads split: sum.split prod.split)

lemma handle_GetOpenOrders_acts: "acts_for (GetUserID r) w (handle_GetOpenOrders gw r w)"
  unfolding handle_GetOpenOrders_def
  by (rule acts_for_for_user)
    (auto intro!: reads_acts dest!: service_GetOpenOrders_reads split: sum.split prod.split)

lemma GenerateDepositAddress_accounts:
  "GenerateDepositAddress cr rnd s uid cur chain d = (x, s', d') \<Longrightarrow> db_accounts d' = db_accounts d"
proof -
  have "db_accounts d' = db_accounts d" if "stmt (select_address uid cur chain) d = (x, d')" for x d d'
    using that by (cases rule: stmt_cases) (auto simp: select_address_def split: list.splits)
  moreover have "db_accounts d' = db_accounts d" if "stmt (insert_address row) d = (x, d')" for row x d d'
    using that by (cases rule: stmt_cases) (auto simp: insert_address_def split: if_splits)
  ultimately show "GenerateDepositAddress cr rnd s uid cur chain d = (x, s', d') \<Longrightarrow> db_accounts d' = db_accounts d"
    by (fastforce simp: GenerateDepositAddress_def split: sum.splits prod.splits)
qed

lemma handle_GetDepositAddress_acts: "acts_for (GetUserID r) w (handle_GetDepositAddress i r w)"
  unfolding handle_GetDepositAddress_def
proof (rule acts_for_for_user, goal_cases)
  case 1
  have "acts_for uid w (resp, w\<lparr>wd_wallet := s, wd_db := d\<rparr>)"
    if "GenerateDepositAddress cr rnd ws u cur chain (wd_db w) = (x, s, d)" "shows_only uid (rs_Body resp)"
    for uid cr rnd ws u cur chain x s d resp
    using GenerateDepositAddress_accounts [OF that(1)] that(2)
    by (simp add: acts_for_def held_def frozen_def)
  then show ?case by (auto intro!: acts_for_refl split: sum.split prod.split)
qed

lemma handle_Withdraw_acts: "acts_for (GetUserID r) w (handle_Withdraw i r w)"
  unfolding handle_Withdraw_def
proof (rule acts_for_for_user, goal_cases)
  case 1
  have "acts_for (wr_UserID req) w (resp, w\<lparr>wd_db := d\<rparr>)"
    if "RequestWithdrawal s wid req (wd_db w) = (x, d)" "shows_only (wr_UserID req) (rs_Body resp)"
    for s wid req x d resp
    using RequestWithdrawal_effect [where s = s and wid = wid and req = req and d = "wd_db w"] that
    by (auto simp: acts_for_def Let_def split: sum.splits)
  from this [where req = "\<lparr>wr_UserID = GetUserID r, wr_Currency = cur, wr_Chain = chain, wr_ToAddress = to,
                   wr_Amount = amount, wr_Fee = withdrawalFee cur\<rparr>" for cur chain to amount]
  show ?case by (auto intro!: acts_for_refl split: sum.split prod.split)
qed

lemma private_handler_acts:
  assumes "shows_only (GetUserID r) (rs_Body (in_unrouted i r))"
  shows "acts_for (GetUserID r) w (private_handler gw i ep r w)"
  using assms handle_PlaceOrder_acts handle_CancelOrder_acts handle_GetOrder_acts handle_GetOpenOrders_acts
    handle_GetDepositAddress_acts handle_Withdraw_acts
  by (cases ep) (auto simp: handle_GetAccount_def handle_GetBalances_def intro!: acts_for_for_user acts_for_same)

lemma public_handler_reads:
  assumes "\<forall>ep. shows_only uid (rs_Body (in_telemetry i ep))"
  shows "acts_for uid w (public_handler i ep r w) \<and> wd_db (snd (public_handler i ep r w)) = wd_db w"
  using assms
  by (cases ep)
    (auto simp: handle_GetDepth_def handle_GetTrades_def handle_GetTicker_def handle_GetKlines_def
      intro!: acts_for_same split: sum.split prod.split)


lemma route_request_acts:
  assumes "\<forall>ep. shows_only uid (rs_Body (in_telemetry i ep))" "\<forall>r. shows_only uid (rs_Body (in_unrouted i r))"
    "jwt_user (in_parse i) (gw_auth gw) r = Inr uid \<or> (\<exists>e. jwt_user (in_parse i) (gw_auth gw) r = Inl e)"
    "\<And>resp. jwt_user (in_parse i) (gw_auth gw) r = Inl resp \<Longrightarrow> shows_only uid (rs_Body resp)"
  shows "acts_for uid w (route_request gw i r w)"
proof (cases "find_route public_routes r")
  case (Some ep)
  with public_handler_reads [OF assms(1)] show ?thesis by (simp add: route_request_def)
next
  case None
  have "acts_for uid w (private_handler gw i ep (with_user uid r) w)" for ep
    using private_handler_acts [of "with_user uid r" i w gw ep] assms(2) by (simp add: GetUserID_def with_user_def)
  with None assms show ?thesis
    by (auto simp: route_request_def JWTAuth_def authenticated_def intro!: acts_for_refl split: option.split)
qed

lemma NewRouter_cases:
  assumes "NewRouter F clk gw i r (rl, w) = (resp, rl', w')"
  defines "r1 \<equiv> r\<lparr>rq_RemoteAddr := in_realIP i r, rq_UserIDKey := None\<rparr>"
  obtains (stopped) "w' = w" "rs_Body resp = NoBody \<or> (\<exists>t. rs_Body resp = RawBody t)"
    "rq_Method r = ''OPTIONS'' \<and> rl' = rl \<or> (rq_Method r \<noteq> ''OPTIONS'' \<and> AllowIP F clk (in_realIP i r) rl = (False, rl'))"
  | (routed) resp' where "rq_Method r \<noteq> ''OPTIONS''" "AllowIP F clk (in_realIP i r) rl = (True, rl')"
    "route_request gw i r1 w = (resp', w')" "rs_Body resp = rs_Body resp'" "rs_Status resp = rs_Status resp'"
proof (cases "rq_Method r = ''OPTIONS''")
  case True
  then show thesis using assms stopped by (auto simp: NewRouter_def SecurityHeaders_def CORSMiddleware_def set_before_def)
next
  case False
  obtain ok rl1 where a: "AllowIP F clk (in_realIP i r) rl = (ok, rl1)" by fastforce
  show thesis
  proof (cases ok)
    case True
    then show thesis using assms False a routed
      by (cases "route_request gw i r1 w")
        (auto simp: NewRouter_def SecurityHeaders_def CORSMiddleware_def set_before_def rate_Middleware_def
          GetUserID_def)
  next
    case False
    with \<open>rq_Method r \<noteq> ''OPTIONS''\<close> show thesis using assms a stopped
      by (auto simp: NewRouter_def SecurityHeaders_def CORSMiddleware_def set_before_def rate_Middleware_def
          http_Error_def)
  qed
qed

lemma jwt_user_headers [simp]:
  "jwt_user parse a (r\<lparr>rq_RemoteAddr := x, rq_UserIDKey := y\<rparr>) = jwt_user parse a r"
  by (simp add: jwt_user_def)

text \<open>C12. The gateway confines a request to the user its token names: whatever the request and
  whatever the engine, the database and the token library answer, no available or frozen balance of
  another user changes, and an order in the response was placed by that user. A request without an
  acceptable token changes no balance at all and is shown no order; what chi and the telemetry
  handlers add contains no orders.\<close>

theorem gateway_confines_user:
  assumes "NewRouter F clk gw i r (rl, w) = (resp, rl', w')"
    "\<forall>ep uid. shows_only uid (rs_Body (in_telemetry i ep))" "\<forall>r uid. shows_only uid (rs_Body (in_unrouted i r))"
  shows "case jwt_user (in_parse i) (gw_auth gw) r of
      Inr uid \<Rightarrow> acts_for uid w (resp, w')
    | Inl _ \<Rightarrow> \<forall>uid. acts_for uid w (resp, w')"
  using assms(1)
proof (cases rule: NewRouter_cases)
  case stopped
  then have "acts_for uid w (resp, w')" for uid by (auto simp: acts_for_def)
  then show ?thesis by (simp split: sum.split)
next
  case (routed resp')
  let ?r = "r\<lparr>rq_RemoteAddr := in_realIP i r, rq_UserIDKey := None\<rparr>"
  have body: "acts_for uid w (resp, w') = acts_for uid w (resp', w')" for uid
    using routed(4) by (simp add: acts_for_def)
  show ?thesis
  proof (cases "jwt_user (in_parse i) (gw_auth gw) r")
    case (Inr uid)
    then have "acts_for uid w (route_request gw i ?r w)"
      using assms(2,3) by (intro route_request_acts) auto
    with Inr routed(3) body show ?thesis by simp
  next
    case (Inl e)
    then have "shows_only uid (rs_Body e)" for uid
      by (auto simp: jwt_user_def Let_def split: if_splits prod.splits option.splits sum.splits)
    then have "acts_for uid w (route_request gw i ?r w)" for uid
      using Inl assms(2,3) by (intro route_request_acts) auto
    with Inl routed(3) body show ?thesis by simp
  qed
qed

text \<open>The limit is per client address only: the router runs the rate limiter in front of the
  authentication, where no user is known yet, so whatever the request, the buckets of users are never
  created, charged or consulted, and only the bucket of the request's own address may change.\<close>

theorem rate_limit_by_address_only:
  assumes "NewRouter F clk gw i r (rl, w) = (resp, rl', w')" "key \<noteq> ''ip:'' @ in_realIP i r"
  shows "rl_buckets rl' key = rl_buckets rl key"
proof -
  have "rl_buckets rl1 key = rl_buckets rl key" if "AllowIP F clk (in_realIP i r) rl = (ok, rl1)" for ok rl1
    using that assms(2) by (auto simp: AllowIP_def rl_allow_def Let_def split: prod.splits)
  with assms(1) show ?thesis by (cases rule: NewRouter_cases) auto
qed

text \<open>A withdrawal that fits its columns, for a user with an account, when no statement fails.\<close>

lemma RequestWithdrawal_runs:
  assumes "db_faults d = []" "wr_UserID req \<in> set (db_users d)"
    "db_accounts d (wr_UserID req, wr_Currency req) = Some a"
    "val (wr_Amount req) + val (wr_Fee req) \<le> ac_balance a"
    "numeric_ok (ac_balance a - (val (wr_Amount req) + val (wr_Fee req)))" "numeric_ok (ac_frozen a)"
    "varchar_ok 50 wid" "varchar_ok 20 (wr_Currency req)" "varchar_ok 20 (wr_Chain req)"
    "varchar_ok 42 (wr_ToAddress req)" "numeric_ok (val (wr_Amount req))" "numeric_ok (val (wr_Fee req))"
    "wid \<notin> w_id ` set (db_withdrawals d)"
  shows "\<exists>res d'. RequestWithdrawal s wid req d = (Inr res, d')"
proof -
  let ?t = "val (wr_Amount req) + val (wr_Fee req)"
  let ?a = "a\<lparr>ac_balance := ac_balance a - ?t\<rparr>"
  have w: "debit_stmt (wr_UserID req) (wr_Currency req) ?t d = (Inr 1, set_account (wr_UserID req, wr_Currency req) ?a d)"
    using assms by (simp add: debit_stmt_def write_account_def)
  then show ?thesis using assms
    by (simp add: RequestWithdrawal_def begin_tx_def stmt_def in_tx_def select_account_def Scan_def
        NewFromString_numeric_text Let_def insert_withdrawal_def withdrawal_row_of_def commit_def not_less)
qed

text \<open>C40. A signed-in user can raise the own balance: \<open>POST /api/v1/wallet/withdraw\<close> with a token
  accepted for the user succeeds for every amount that parses, fits the columns and does not exceed
  the balance with the fee added, whatever its sign; the balance goes down by amount plus fee, so an
  amount below minus the fee increases it.\<close>

theorem negative_withdrawal_credits:
  assumes "rq_Method r = ''POST''" "rq_Path r = ''/api/v1/wallet/withdraw''" "gw_hasWallet gw"
    "jwt_user (in_parse i) (gw_auth gw) r = Inr uid" "uid \<noteq> ''''" "AllowIP F clk (in_realIP i r) rl = (True, rl')"
    "decode_body i withdraw_body_of r = Inr (cur, chain, to, amt)" "NewFromString amt = Inr amount"
    "db_faults (wd_db w) = []" "uid \<in> set (db_users (wd_db w))" "db_accounts (wd_db w) (uid, cur) = Some a"
    "c = val amount + val (withdrawalFee cur)" "c \<le> ac_balance a" "numeric_ok (ac_balance a - c)"
    "numeric_ok (ac_frozen a)" "varchar_ok 50 (in_withdrawalID i)" "varchar_ok 20 cur" "varchar_ok 20 chain"
    "varchar_ok 42 to" "numeric_ok (val amount)" "numeric_ok (val (withdrawalFee cur))"
    "in_withdrawalID i \<notin> w_id ` set (db_withdrawals (wd_db w))"
  shows "\<exists>resp w'. NewRouter F clk gw i r (rl, w) = (resp, rl', w') \<and> rs_Status resp = 200 \<and>
    held (wd_db w') (uid, cur) = held (wd_db w) (uid, cur) - c \<and>
    (val amount < - val (withdrawalFee cur) \<longrightarrow> held (wd_db w) (uid, cur) < held (wd_db w') (uid, cur))"
proof -
  let ?req = "\<lparr>wr_UserID = uid, wr_Currency = cur, wr_Chain = chain, wr_ToAddress = to,
    wr_Amount = amount, wr_Fee = withdrawalFee cur\<rparr>"
  let ?r = "r\<lparr>rq_RemoteAddr := in_realIP i r, rq_UserIDKey := None\<rparr>"
  obtain res d where q: "RequestWithdrawal (wd_wallet w) (in_withdrawalID i) ?req (wd_db w) = (Inr res, d)"
    using RequestWithdrawal_runs [where req = ?req and s = "wd_wallet w" and wid = "in_withdrawalID i" and a = a, OF assms(9)] assms(10-22) by auto
  then have h: "held d (uid, cur) = held (wd_db w) (uid, cur) - c"
    using RequestWithdrawal_effect [where req = ?req and s = "wd_wallet w" and wid = "in_withdrawalID i" and d = "wd_db w"]
      assms(12) by (simp add: Let_def)
  have "find_route public_routes ?r = None" "find_route (private_routes (gw_hasWallet gw)) ?r = Some WithdrawE"
    using assms(1-3) by (simp_all add: find_route_def public_routes_def private_routes_def)
  moreover have "decode_body i withdraw_body_of (with_user uid ?r) = Inr (cur, chain, to, amt)"
    using assms(7) by (simp add: decode_body_def with_user_def)
  ultimately have "\<exists>resp. route_request gw i ?r w = (resp, w\<lparr>wd_db := d\<rparr>) \<and> rs_Status resp = 200"
    using assms(4,5,8) q
    by (simp add: route_request_def JWTAuth_def authenticated_def handle_Withdraw_def for_user_def GetUserID_def
        with_user_def)
  then have "\<exists>resp. NewRouter F clk gw i r (rl, w) = (resp, rl', w\<lparr>wd_db := d\<rparr>) \<and> rs_Status resp = 200"
    using assms(1,6)
    by (auto simp: NewRouter_def SecurityHeaders_def CORSMiddleware_def rate_Middleware_def GetUserID_def set_before_def)
  then show ?thesis using h assms(12) by auto
qed

subsection \<open>Examples\<close>

definition int_ops :: "int float_ops" where
  "int_ops = \<lparr>fl_add = (+), fl_sub = (-), fl_mul = (*), fl_le = (\<le>), fl_less = (<), fl_one = 1, fl_two = 2,
     fl_Seconds = (\<lambda>d. d div 1000000000)\<rparr>"

definition sample_gateway :: gateway where
  "sample_gateway = \<lparr>gw_auth = one_service, gw_orders = default_service, gw_hasWallet = True\<rparr>"

definition sample_world :: world where
  "sample_world = \<lparr>wd_db = (empty_db [''u1''])\<lparr>db_accounts :=
       [(''u1'', ''BTC'') \<mapsto> \<lparr>ac_balance = 0, ac_frozen = 0, ac_version = 0\<rparr>]\<rparr>,
     wd_wallet = wallet_NewService False, wd_redis = empty_redis, wd_engine = NewEngine False\<rparr>"

definition sample_inputs :: inputs where
  "sample_inputs = \<lparr>in_json = (\<lambda>n body. Inr [(''currency'', JStr ''BTC''), (''chain'', JStr ''btc''),
       (''toAddress'', JStr ''x''), (''amount'', JStr ''-5'')]),
     in_parse = one_parse, in_crypto = sample_crypto, in_rnd = '''', in_orderID = ''ord_1'',
     in_withdrawalID = ''wdr_1'', in_now = 0, in_eng = (\<lambda>o'. ([], Some o', None)),
     in_engc = (\<lambda>_ _. Inl ErrOrderNotFound), in_realIP = rq_RemoteAddr, in_unrouted = (\<lambda>r. http_Error ''404'' 404),
     in_telemetry = (\<lambda>ep. \<lparr>rs_Status = 200, rs_Header = [], rs_Body = NoBody\<rparr>)\<rparr>"

definition sample_withdraw :: request where
  "sample_withdraw = \<lparr>rq_Method = ''POST'', rq_Path = ''/api/v1/wallet/withdraw'', rq_RawQuery = '''',
     rq_Header = (\<lambda>k. if k = ''Authorization'' then ''bearer tok'' else ''''), rq_Body = '''', rq_RemoteAddr = ''1.2.3.4'',
     rq_UserIDKey = None\<rparr>"

definition sample_limiter :: "int RateLimiter" where
  "sample_limiter = NewRateLimiter 100 50"

lemma sample_user: "jwt_user (in_parse sample_inputs) (gw_auth sample_gateway) sample_withdraw = Inr ''u1''"
  by (simp add: jwt_user_def sample_withdraw_def cut_def Let_def ToLower_def to_lower_def VerifyJWT_def
      sample_inputs_def sample_gateway_def one_parse_def keyFunc_def one_service_def
      NewAuthServiceWithSecrets_def one_claims_def)

lemma sample_withdraw_runs:
  obtains rl' resp w' where "AllowIP int_ops (\<lambda>_. 0) ''1.2.3.4'' sample_limiter = (True, rl')"
    "NewRouter int_ops (\<lambda>_. 0) sample_gateway sample_inputs sample_withdraw (sample_limiter, sample_world) = (resp, rl', w')"
proof -
  obtain ok rl' where a: "AllowIP int_ops (\<lambda>_. 0) ''1.2.3.4'' sample_limiter = (ok, rl')" by fastforce
  moreover have "fst (AllowIP int_ops (\<lambda>_. 0) ''1.2.3.4'' sample_limiter)"
    by (simp add: sample_limiter_def AllowIP_def rl_allow_def NewRateLimiter_def NewTokenBucket_def Allow_def int_ops_def Let_def)
  ultimately have ok by simp
  with a show thesis using that
    by (cases "NewRouter int_ops (\<lambda>_. 0) sample_gateway sample_inputs sample_withdraw (sample_limiter, sample_world)")
      (auto elim!: NewRouter_cases simp: sample_withdraw_def sample_inputs_def)
qed

theorem negative_withdrawal_credits_witness:
  "\<exists>resp rl' w'. NewRouter int_ops (\<lambda>_. 0) sample_gateway sample_inputs sample_withdraw (sample_limiter, sample_world) =
     (resp, rl', w') \<and> rs_Status resp = 200 \<and> held (wd_db sample_world) (''u1'', ''BTC'') = 0 \<and>
     held (wd_db w') (''u1'', ''BTC'') = 5 * 10 ^ 18"
proof -
  obtain rl' resp w' where a: "AllowIP int_ops (\<lambda>_. 0) (in_realIP sample_inputs sample_withdraw) sample_limiter = (True, rl')"
    using sample_withdraw_runs by (auto simp: sample_inputs_def sample_withdraw_def)
  have n: "NewFromString ''-5'' = Inr (Decimal (Some (- 5 * tenPow18)))"
    using NewFromString_integer [of "''5''" True] by (simp add: is_digit_def digit_val_def)
  have b: "decode_body sample_inputs withdraw_body_of sample_withdraw = Inr (''BTC'', ''btc'', ''x'', ''-5'')"
    by (simp add: decode_body_def sample_inputs_def withdraw_body_of_def json_string_def ToLower_def to_lower_def)
  have f: "val (withdrawalFee ''BTC'') = 0" by (simp add: withdrawalFee_def)
  have w: "db_faults (wd_db sample_world) = []" "''u1'' \<in> set (db_users (wd_db sample_world))"
    "db_accounts (wd_db sample_world) (''u1'', ''BTC'') = Some \<lparr>ac_balance = 0, ac_frozen = 0, ac_version = 0\<rparr>"
    "db_withdrawals (wd_db sample_world) = []" "held (wd_db sample_world) (''u1'', ''BTC'') = 0"
    by (simp_all add: sample_world_def empty_db_def held_def)
  have m: "rq_Method sample_withdraw = ''POST''" "rq_Path sample_withdraw = ''/api/v1/wallet/withdraw''" "gw_hasWallet sample_gateway"
    by (simp_all add: sample_withdraw_def sample_gateway_def)
  from negative_withdrawal_credits [OF m sample_user _ a b n w(1-3) refl] f w(4,5)
  show ?thesis by (auto simp: numeric_ok_def varchar_ok_def char_count_def sample_inputs_def)
qed

theorem gateway_confines_user_witness:
  "\<exists>resp rl' w'. NewRouter int_ops (\<lambda>_. 0) sample_gateway sample_inputs sample_withdraw (sample_limiter, sample_world) =
     (resp, rl', w') \<and> acts_for ''u1'' sample_world (resp, w')"
proof -
  obtain rl' resp w' where r: "NewRouter int_ops (\<lambda>_. 0) sample_gateway sample_inputs sample_withdraw
      (sample_limiter, sample_world) = (resp, rl', w')"
    using sample_withdraw_runs by blast
  have "\<forall>ep uid. shows_only uid (rs_Body (in_telemetry sample_inputs ep))"
    "\<forall>r uid. shows_only uid (rs_Body (in_unrouted sample_inputs r))"
    by (simp_all add: sample_inputs_def)
  from gateway_confines_user [OF r this] sample_user r show ?thesis by auto
qed

theorem rate_limit_by_address_only_witness:
  "\<exists>resp rl' w'. NewRouter int_ops (\<lambda>_. 0) sample_gateway sample_inputs sample_withdraw (sample_limiter, sample_world) =
     (resp, rl', w') \<and> rl_buckets rl' ''user:u1'' = None"
proof -
  obtain rl' resp w' where r: "NewRouter int_ops (\<lambda>_. 0) sample_gateway sample_inputs sample_withdraw
      (sample_limiter, sample_world) = (resp, rl', w')"
    using sample_withdraw_runs by blast
  from rate_limit_by_address_only [OF r, of "''user:u1''"] r show ?thesis
    by (auto simp: sample_limiter_def NewRateLimiter_def)
qed

end
