(* ===== verification/User_Service.thy ===== *)
theory User_Service
  imports Auth Database
begin

section \<open>User accounts (user/service.go)\<close>

text \<open>
  Registration, login and status of users over the \<open>users\<close> table, beside the tables of theory
  \<open>Database\<close>, whose foreign keys refer to it. The table of KYC verifications belongs to the same
  store (theory \<open>Kyc\<close>). The identifier \<open>uuid.New\<close> draws and the password library are
  arguments; creation times are left out.
\<close>

record StoredUser =
  su_ID :: string
  su_Email :: string
  su_PasswordHash :: string
  su_KYCLevel :: int
  su_TwoFAEnabled :: bool
  su_Status :: UserStatus

record kyc_row =
  kr_user_id :: string
  kr_status :: string
  kr_level :: int
  kr_full_name :: string
  kr_doc_type :: string
  kr_doc_number :: string
  kr_doc_image_url :: string
  kr_review_notes :: "string option"
  kr_reviewed_by :: "string option"
  kr_submitted_at :: int
  kr_reviewed_at :: "int option"

record user_store =
  us_rows :: "StoredUser list"
  us_kyc :: "kyc_row list"
  us_db :: db

record user_service =
  usv_auth :: AuthService
  usv_productionMode :: bool

definition user_NewService :: "AuthService \<Rightarrow> bool \<Rightarrow> user_service" where
  "user_NewService a p = \<lparr>usv_auth = a, usv_productionMode = p\<rparr>"

type_synonym 'a usql = "user_store \<Rightarrow> (error + 'a) \<times> user_store"

text \<open>A statement, with the faults of theory \<open>Database\<close>.\<close>

definition set_faults :: "error option list \<Rightarrow> user_store \<Rightarrow> user_store" where
  "set_faults fs st = st\<lparr>us_db := (us_db st)\<lparr>db_faults := fs\<rparr>\<rparr>"

definition ustmt :: "'a usql \<Rightarrow> 'a usql" where
  "ustmt q st =
     (case db_faults (us_db st) of
        [] \<Rightarrow> q st
      | None # fs \<Rightarrow> q (set_faults fs st)
      | Some e # fs \<Rightarrow> (Inl e, set_faults fs st))"

subsection \<open>Statements\<close>

definition email_exists :: "string \<Rightarrow> bool usql" where
  "email_exists email st = (Inr (email \<in> su_Email ` set (us_rows st)), st)"

definition insert_user :: "string \<Rightarrow> string \<Rightarrow> string \<Rightarrow> int usql" where
  "insert_user uid email hash st =
     (if \<not> (varchar_ok 255 email \<and> varchar_ok 255 hash) then (Inl (pg_error ''value too long''), st)
      else if uid \<in> su_ID ` set (us_rows st) \<or> email \<in> su_Email ` set (us_rows st) then
        (Inl (pg_error ''duplicate key value violates unique constraint''), st)
      else
        (Inr 1, st\<lparr>us_rows := us_rows st @ [\<lparr>su_ID = uid, su_Email = email, su_PasswordHash = hash,
           su_KYCLevel = 0, su_TwoFAEnabled = False, su_Status = UserStatusActive\<rparr>],
           us_db := (us_db st)\<lparr>db_users := db_users (us_db st) @ [uid]\<rparr>\<rparr>))"

definition default_account :: "int \<Rightarrow> account" where
  "default_account units = \<lparr>ac_balance = units * 10 ^ 18, ac_frozen = 0, ac_version = 0\<rparr>"

definition insert_default_accounts :: "string \<Rightarrow> int usql" where
  "insert_default_accounts uid st =
     (let d = us_db st in
      if db_accounts d (uid, ''USDT'') \<noteq> None \<or> db_accounts d (uid, ''ETH'') \<noteq> None then
        (Inl (pg_error ''duplicate key value violates unique constraint''), st)
      else if uid \<notin> set (db_users d) then (Inl (pg_error ''violates foreign key constraint''), st)
      else (Inr 2, st\<lparr>us_db := set_account (uid, ''ETH'') (default_account 100)
             (set_account (uid, ''USDT'') (default_account 1000000) d)\<rparr>))"

definition select_user :: "(StoredUser \<Rightarrow> bool) \<Rightarrow> StoredUser usql" where
  "select_user P st =
     (case filter P (us_rows st) of
        [] \<Rightarrow> (Inl (Errorf ''no rows in result set''), st)
      | u # _ \<Rightarrow> (Inr u, st))"

definition update_user :: "string \<Rightarrow> (StoredUser \<Rightarrow> StoredUser) \<Rightarrow> int usql" where
  "update_user uid f st =
     (Inr (int (length (filter (\<lambda>u. su_ID u = uid) (us_rows st)))),
      st\<lparr>us_rows := map (\<lambda>u. if su_ID u = uid then f u else u) (us_rows st)\<rparr>)"

definition set_status_stmt :: "string \<Rightarrow> string \<Rightarrow> int usql" where
  "set_status_stmt uid status st =
     (if \<not> varchar_ok 20 status then (Inl (pg_error ''value too long''), st)
      else update_user uid (\<lambda>u. u\<lparr>su_Status := status\<rparr>) st)"

subsection \<open>Operations\<close>

definition new_user :: "string \<Rightarrow> string \<Rightarrow> StoredUser" where
  "new_user uid email = \<lparr>su_ID = uid, su_Email = email, su_PasswordHash = '''', su_KYCLevel = 0,
     su_TwoFAEnabled = False, su_Status = UserStatusActive\<rparr>"

definition RegisterUser ::
  "(string \<Rightarrow> nat \<Rightarrow> error + string) \<Rightarrow> user_service \<Rightarrow> string \<Rightarrow> string \<Rightarrow> string \<Rightarrow> user_store \<Rightarrow>
     (error + StoredUser) \<times> user_store" where
  "RegisterUser gen s uid email password st =
     (case ustmt (email_exists email) st of
        (Inl e, st1) \<Rightarrow> (Inl (WrapBefore ''check email: '' e), st1)
      | (Inr ex, st1) \<Rightarrow>
          if ex then (Inl (Errorf ''email already registered''), st1)
          else
            (case HashPassword gen password of
               Inl e \<Rightarrow> (Inl e, st1)
             | Inr hash \<Rightarrow>
                 (case ustmt (insert_user uid email hash) st1 of
                    (Inl e, st2) \<Rightarrow> (Inl (WrapBefore ''insert user: '' e), st2)
                  | (Inr _, st2) \<Rightarrow>
                      if usv_productionMode s then (Inr (new_user uid email), st2)
                      else
                        (case ustmt (insert_default_accounts uid) st2 of
                           (Inl e, st3) \<Rightarrow> (Inl (WrapBefore ''create accounts: '' e), st3)
                         | (Inr _, st3) \<Rightarrow> (Inr (new_user uid email), st3)))))"

definition Login ::
  "(string \<Rightarrow> string \<Rightarrow> error option) \<Rightarrow> (jwt_method \<Rightarrow> jwt_key \<Rightarrow> jwt_claims \<Rightarrow> error + string) \<Rightarrow>
     int \<Rightarrow> int \<Rightarrow> user_service \<Rightarrow> string \<Rightarrow> string \<Rightarrow> user_store \<Rightarrow> (error + string) \<times> user_store" where
  "Login bcrypt_cmp sign now now' s email password st =
     (case ustmt (select_user (\<lambda>u. su_Email u = email)) st of
        (Inl e, st1) \<Rightarrow> (Inl (WrapBefore ''user not found: '' e), st1)
      | (Inr u, st1) \<Rightarrow>
          if su_Status u \<noteq> UserStatusActive then (Inl ErrUserSuspended, st1)
          else if \<not> VerifyPassword bcrypt_cmp (su_PasswordHash u) password then
            (Inl (Errorf ''invalid password''), st1)
          else (GenerateJWT sign now now' (su_ID u) (usv_auth s), st1))"

definition GetUser :: "string \<Rightarrow> StoredUser usql" where
  "GetUser uid st =
     (case ustmt (select_user (\<lambda>u. su_ID u = uid)) st of
        (Inl _, st1) \<Rightarrow> (Inl ErrUserNotFound, st1)
      | (Inr u, st1) \<Rightarrow> (Inr u, st1))"

definition user_UpdateStatus :: "string \<Rightarrow> string \<Rightarrow> user_store \<Rightarrow> error option \<times> user_store" where
  "user_UpdateStatus uid status st =
     (case ustmt (set_status_stmt uid status) st of
        (Inl e, st1) \<Rightarrow> (Some e, st1)
      | (Inr _, st1) \<Rightarrow> (None, st1))"

subsection \<open>Well-formed stores\<close>

text \<open>What the constraints of the table keep: unique identifiers and emails, and the identifiers the
  foreign keys of the other tables see.\<close>

definition users_ok :: "user_store \<Rightarrow> bool" where
  "users_ok st \<longleftrightarrow> distinct (map su_ID (us_rows st)) \<and> distinct (map su_Email (us_rows st)) \<and>
     db_users (us_db st) = map su_ID (us_rows st)"

lemma set_faults_simps [simp]:
  "us_rows (set_faults fs st) = us_rows st" "us_kyc (set_faults fs st) = us_kyc st"
  "us_db (set_faults fs st) = (us_db st)\<lparr>db_faults := fs\<rparr>" "users_ok (set_faults fs st) = users_ok st"
  by (simp_all add: set_faults_def users_ok_def)

lemma ustmt_cases:
  assumes "ustmt q st = (r, st')"
  obtains (fault) e fs where "r = Inl e" "st' = set_faults fs st"
  | (run) fs where "q (set_faults fs st) = (r, st')"
proof (cases "db_faults (us_db st)")
  case Nil
  then have "set_faults [] st = st" by (simp add: set_faults_def)
  with Nil assms run [of "[]"] show thesis by (simp add: ustmt_def)
next
  case (Cons f fs)
  then show thesis using assms fault run [of fs] by (cases f) (auto simp: ustmt_def)
qed

lemma ustmt_no_faults: "db_faults (us_db st) = [] \<Longrightarrow> ustmt q st = q st"
  by (simp add: ustmt_def)

text \<open>A statement that keeps a predicate no fault list occurs in keeps it behind a fault.\<close>

lemma ustmt_keeps:
  assumes "\<And>st. P st \<Longrightarrow> P (snd (q st))" "\<And>fs st. P (set_faults fs st) = P st" "P st"
  shows "P (snd (ustmt q st))"
proof -
  obtain r st' where s: "ustmt q st = (r, st')" by fastforce
  then show ?thesis
  proof (cases rule: ustmt_cases)
    case (fault e fs)
    with s assms show ?thesis by simp
  next
    case (run fs)
    with s assms(1) [of "set_faults fs st"] assms(2,3) show ?thesis by simp
  qed
qed

lemma select_user_store [simp]: "snd (select_user P st) = st"
  by (simp add: select_user_def split: list.split)

lemma insert_user_ok: "users_ok st \<Longrightarrow> users_ok (snd (insert_user uid email hash st))"
  by (auto simp: insert_user_def users_ok_def)

lemma insert_default_accounts_ok: "users_ok st \<Longrightarrow> users_ok (snd (insert_default_accounts uid st))"
  by (auto simp: insert_default_accounts_def users_ok_def Let_def)

lemma update_user_ok:
  assumes "\<And>u. su_ID (f u) = su_ID u" "\<And>u. su_Email (f u) = su_Email u" "users_ok st"
  shows "users_ok (snd (update_user uid f st))"
proof -
  let ?g = "\<lambda>u. if su_ID u = uid then f u else u"
  have "map su_ID (map ?g (us_rows st)) = map su_ID (us_rows st)"
    "map su_Email (map ?g (us_rows st)) = map su_Email (us_rows st)"
    using assms(1,2) by simp_all
  with assms(3) show ?thesis by (simp add: users_ok_def update_user_def del: map_map)
qed

lemma ustmt_users_ok:
  assumes "\<And>st. users_ok st \<Longrightarrow> users_ok (snd (q st))" "users_ok st" "ustmt q st = (r, st')"
  shows "users_ok st'"
  using ustmt_keeps [of users_ok q st, OF assms(1) _ assms(2)] assms(3) by simp

lemma email_exists_store [simp]: "snd (email_exists email st) = st"
  by (simp add: email_exists_def)

lemma RegisterUser_users_ok:
  assumes "users_ok st"
  shows "users_ok (snd (RegisterUser gen s uid email password st))"
proof -
  obtain r1 st1 where 1: "ustmt (email_exists email) st = (r1, st1)" by fastforce
  have ok1: "users_ok st1" using ustmt_users_ok [OF _ assms 1] by simp
  obtain hash r2 st2 where 2: "hash = projr (HashPassword gen password)"
    "ustmt (insert_user uid email hash) st1 = (r2, st2)" by fastforce
  have ok2: "users_ok st2" using ustmt_users_ok [OF _ ok1 2(2)] insert_user_ok by blast
  obtain r3 st3 where 3: "ustmt (insert_default_accounts uid) st2 = (r3, st3)" by fastforce
  have ok3: "users_ok st3" using ustmt_users_ok [OF _ ok2 3] insert_default_accounts_ok by blast
  show ?thesis using 1 2 3 ok1 ok2 ok3 by (auto simp: RegisterUser_def split: sum.splits)
qed

lemma set_status_ok: "users_ok st \<Longrightarrow> users_ok (snd (set_status_stmt uid status st))"
  by (simp add: set_status_stmt_def update_user_ok)

lemma user_UpdateStatus_users_ok:
  assumes "users_ok st" shows "users_ok (snd (user_UpdateStatus uid status st))"
proof -
  obtain r st1 where 1: "ustmt (set_status_stmt uid status) st = (r, st1)" by fastforce
  have "users_ok st1" using ustmt_users_ok [OF _ assms 1] set_status_ok by blast
  with 1 show ?thesis by (simp add: user_UpdateStatus_def split: sum.split)
qed

lemma unique_email:
  assumes "users_ok st" "u \<in> set (us_rows st)"
  shows "filter (\<lambda>v. su_Email v = su_Email u) (us_rows st) = [u]"
proof -
  have d: "distinct (map su_Email rows) \<Longrightarrow> u \<in> set rows \<Longrightarrow> filter (\<lambda>v. su_Email v = su_Email u) rows = [u]" for rows
  proof (induction rows)
    case (Cons v rows)
    show ?case
    proof (cases "v = u")
      case True
      with Cons.prems(1) have "su_Email u \<notin> su_Email ` set rows" by simp
      then have "filter (\<lambda>v. su_Email v = su_Email u) rows = []"
        unfolding filter_empty_conv by (metis imageI)
      with True show ?thesis by simp
    next
      case False
      with Cons.prems have "su_Email v \<noteq> su_Email u" by force
      with Cons False show ?thesis by simp
    qed
  qed simp
  with assms show ?thesis by (simp add: users_ok_def)
qed

subsection \<open>Registration and login\<close>

text \<open>The documented behaviour of bcrypt: a hash it made compares equal with its password.\<close>

definition bcrypt_law :: "(string \<Rightarrow> nat \<Rightarrow> error + string) \<Rightarrow> (string \<Rightarrow> string \<Rightarrow> error option) \<Rightarrow> bool" where
  "bcrypt_law gen bcrypt_cmp \<longleftrightarrow> (\<forall>pw n h. gen pw n = Inr h \<longrightarrow> bcrypt_cmp h pw = None)"

lemma insert_user_Inr:
  "insert_user uid email hash st = (Inr n, st') \<Longrightarrow>
     uid \<notin> su_ID ` set (us_rows st) \<and> email \<notin> su_Email ` set (us_rows st) \<and>
     us_rows st' = us_rows st @ [\<lparr>su_ID = uid, su_Email = email, su_PasswordHash = hash,
       su_KYCLevel = 0, su_TwoFAEnabled = False, su_Status = UserStatusActive\<rparr>] \<and>
     us_db st' = (us_db st)\<lparr>db_users := db_users (us_db st) @ [uid]\<rparr>"
  by (auto simp: insert_user_def split: if_splits)

lemma insert_default_accounts_Inr:
  "insert_default_accounts uid st = (Inr n, st') \<Longrightarrow> us_rows st' = us_rows st \<and>
     db_accounts (us_db st') = (db_accounts (us_db st))((uid, ''USDT'') \<mapsto> default_account 1000000,
       (uid, ''ETH'') \<mapsto> default_account 100)"
  by (auto simp: insert_default_accounts_def Let_def split: if_splits)

lemma RegisterUser_Inr:
  assumes "RegisterUser gen s uid email password st = (Inr u, st')"
  shows "u = new_user uid email \<and> email \<notin> su_Email ` set (us_rows st) \<and> uid \<notin> su_ID ` set (us_rows st) \<and>
    (\<exists>h. gen password 12 = Inr h \<and> us_rows st' = us_rows st @ [u\<lparr>su_PasswordHash := h\<rparr>]) \<and>
    db_accounts (us_db st') = (if usv_productionMode s then db_accounts (us_db st)
      else (db_accounts (us_db st))((uid, ''USDT'') \<mapsto> default_account 1000000,
        (uid, ''ETH'') \<mapsto> default_account 100))"
proof -
  obtain r1 st1 where 1: "ustmt (email_exists email) st = (r1, st1)" by fastforce
  from 1 have s1: "us_rows st1 = us_rows st" "db_accounts (us_db st1) = db_accounts (us_db st)"
    by (cases rule: ustmt_cases; auto simp: email_exists_def)+
  from assms 1 obtain h r2 st2 where h: "gen password 12 = Inr h"
    and 2: "ustmt (insert_user uid email h) st1 = (r2, st2)" and r2: "\<not> isl r2" and u: "u = new_user uid email"
    and 3: "if usv_productionMode s then st' = st2
      else \<exists>n. ustmt (insert_default_accounts uid) st2 = (Inr n, st')"
    by (cases "gen password 12")
      (auto simp: RegisterUser_def HashPassword_def split: sum.splits prod.splits if_splits)
  from 2 r2 have s2: "uid \<notin> su_ID ` set (us_rows st) \<and> email \<notin> su_Email ` set (us_rows st) \<and>
     us_rows st2 = us_rows st @ [u\<lparr>su_PasswordHash := h\<rparr>] \<and>
     db_accounts (us_db st2) = db_accounts (us_db st)"
  proof (cases rule: ustmt_cases)
    case (run fs)
    obtain n where "r2 = Inr n" using r2 by (cases r2) auto
    with run have "insert_user uid email h (set_faults fs st1) = (Inr n, st2)" by simp
    from insert_user_Inr [OF this] s1 u show ?thesis by (simp add: new_user_def)
  qed auto
  show ?thesis
  proof (cases "usv_productionMode s")
    case True
    with 3 s2 h u show ?thesis by auto
  next
    case False
    with 3 obtain n where n: "ustmt (insert_default_accounts uid) st2 = (Inr n, st')" by auto
    then have "us_rows st' = us_rows st2 \<and> db_accounts (us_db st') = (db_accounts (us_db st2))
      ((uid, ''USDT'') \<mapsto> default_account 1000000, (uid, ''ETH'') \<mapsto> default_account 100)"
    proof (cases rule: ustmt_cases)
      case (run fs)
      from insert_default_accounts_Inr [OF this] show ?thesis by simp
    qed auto
    with s2 h u False show ?thesis by auto
  qed
qed

text \<open>Logging in as a stored user, when no statement fails.\<close>

lemma Login_stored:
  assumes "users_ok st" "u \<in> set (us_rows st)" "db_faults (us_db st) = []"
  shows "Login bcrypt_cmp sign now now' s (su_Email u) password st =
    (if su_Status u \<noteq> UserStatusActive then (Inl ErrUserSuspended, st)
     else if \<not> VerifyPassword bcrypt_cmp (su_PasswordHash u) password then (Inl (Errorf ''invalid password''), st)
     else (GenerateJWT sign now now' (su_ID u) (usv_auth s), st))"
  using unique_email [OF assms(1,2)] assms(3)
  by (simp add: Login_def ustmt_no_faults select_user_def)


text \<open>Registration is not atomic: when the default accounts cannot be created, \<open>RegisterUser\<close>
  reports an error although the user is stored; a further attempt is refused because the email is
  registered, the password logs in, and no account of the user exists.\<close>

theorem failed_registration_stays:
  assumes ok: "users_ok st"
    and reg: "RegisterUser gen s uid email password st = (Inl (WrapBefore ''create accounts: '' e), st')"
    and nf: "db_faults (us_db st') = []" and bc: "bcrypt_law gen bcrypt_cmp"
  shows "\<not> usv_productionMode s \<and> uid \<in> su_ID ` set (us_rows st') \<and>
    db_accounts (us_db st') = db_accounts (us_db st) \<and>
    (\<forall>uid2 pw2. RegisterUser gen s uid2 email pw2 st' = (Inl (Errorf ''email already registered''), st')) \<and>
    Login bcrypt_cmp sign now now' s email password st' = (GenerateJWT sign now now' uid (usv_auth s), st')"
proof -
  obtain r1 st1 where 1: "ustmt (email_exists email) st = (r1, st1)" by fastforce
  from 1 have s1: "us_rows st1 = us_rows st" "db_accounts (us_db st1) = db_accounts (us_db st)"
    by (cases rule: ustmt_cases; auto simp: email_exists_def)+
  from reg 1 obtain h n st2 where h: "gen password 12 = Inr h"
    and 2: "ustmt (insert_user uid email h) st1 = (Inr n, st2)" and p: "\<not> usv_productionMode s"
    and 3: "ustmt (insert_default_accounts uid) st2 = (Inl e, st')"
    by (cases "gen password 12")
      (auto simp: RegisterUser_def HashPassword_def split: sum.splits prod.splits if_splits)
  define u where "u = (new_user uid email)\<lparr>su_PasswordHash := h\<rparr>"
  from 2 have s2: "us_rows st2 = us_rows st @ [u] \<and> db_accounts (us_db st2) = db_accounts (us_db st)"
  proof (cases rule: ustmt_cases)
    case (run fs)
    from insert_user_Inr [OF this] s1 show ?thesis by (simp add: u_def new_user_def)
  qed auto
  from 3 have s3: "us_rows st' = us_rows st2 \<and> db_accounts (us_db st') = db_accounts (us_db st2)"
    by (cases rule: ustmt_cases) (auto simp: insert_default_accounts_def Let_def split: if_splits)
  have rows: "us_rows st' = us_rows st @ [u]" "u \<in> set (us_rows st')" "su_Email u = email" "su_ID u = uid"
    "su_PasswordHash u = h" "su_Status u = UserStatusActive"
    using s2 s3 by (simp_all add: u_def new_user_def)
  have ok': "users_ok st'" using RegisterUser_users_ok [OF ok, of gen s uid email password] reg by simp
  have "bcrypt_cmp h password = None" using bc h unfolding bcrypt_law_def by blast
  then have "Login bcrypt_cmp sign now now' s email password st' = (GenerateJWT sign now now' uid (usv_auth s), st')"
    using Login_stored [OF ok' rows(2) nf] rows by (simp add: VerifyPassword_def)
  moreover have "RegisterUser gen s uid2 email pw2 st' = (Inl (Errorf ''email already registered''), st')" for uid2 pw2
    using rows(1,3) nf by (simp add: RegisterUser_def ustmt_no_faults email_exists_def)
  ultimately show ?thesis using p rows s2 s3 by simp
qed

text \<open>The status gates the login, whatever the password: after \<open>UpdateStatus\<close> has set another
  status than active, every login of the user is refused with \<open>ErrUserSuspended\<close>, the other users
  are as they were, and setting the status to active again undoes exactly that.\<close>

theorem status_gates_login:
  assumes ok: "users_ok st" and u: "u \<in> set (us_rows st)" and nf: "db_faults (us_db st) = []"
    and upd: "user_UpdateStatus (su_ID u) status st = (None, st')" and na: "status \<noteq> UserStatusActive"
  shows "Login bcrypt_cmp sign now now' s (su_Email u) password st' = (Inl ErrUserSuspended, st') \<and>
    (\<forall>v. v \<in> set (us_rows st) \<and> su_ID v \<noteq> su_ID u \<longrightarrow> v \<in> set (us_rows st')) \<and> us_db st' = us_db st \<and>
    (su_Status u = UserStatusActive \<longrightarrow> user_UpdateStatus (su_ID u) UserStatusActive st' = (None, st))"
proof -
  let ?f = "\<lambda>x st v. if su_ID v = su_ID u then v\<lparr>su_Status := x\<rparr> else (v :: StoredUser)"
  have st': "st' = st\<lparr>us_rows := map (?f status st) (us_rows st)\<rparr>"
    using upd nf by (auto simp: user_UpdateStatus_def ustmt_no_faults set_status_stmt_def update_user_def split: if_splits)
  have ok': "users_ok st'" using user_UpdateStatus_users_ok [OF ok, of "su_ID u" status] upd by simp
  have mem: "u\<lparr>su_Status := status\<rparr> \<in> set (us_rows st')" using u by (force simp: st')
  have "Login bcrypt_cmp sign now now' s (su_Email u) password st' = (Inl ErrUserSuspended, st')"
    using Login_stored [OF ok' mem] nf na by (simp add: st')
  moreover have "\<forall>v. v \<in> set (us_rows st) \<and> su_ID v \<noteq> su_ID u \<longrightarrow> v \<in> set (us_rows st')"
    by (force simp: st')
  moreover have "user_UpdateStatus (su_ID u) UserStatusActive st' = (None, st)"
    if a: "su_Status u = UserStatusActive"
  proof -
    have "v = u" if "v \<in> set (us_rows st)" "su_ID v = su_ID u" for v
      using ok u that unfolding users_ok_def distinct_map inj_on_def by blast
    moreover have "u\<lparr>su_Status := UserStatusActive\<rparr> = u" using a by (cases u) simp
    ultimately have "map (?f UserStatusActive st \<circ> ?f status st) (us_rows st) = us_rows st"
      by (intro map_idI) auto
    then show ?thesis using nf
      by (simp add: user_UpdateStatus_def ustmt_no_faults set_status_stmt_def update_user_def st' varchar_ok_def
          char_count_def)
  qed
  ultimately show ?thesis by (simp add: st')
qed

subsection \<open>Examples\<close>

definition toy_gen :: "string \<Rightarrow> nat \<Rightarrow> error + string" where
  "toy_gen pw n = Inr (''h'' @ pw)"

definition toy_cmp :: "string \<Rightarrow> string \<Rightarrow> error option" where
  "toy_cmp h pw = (if h = ''h'' @ pw then None else Some (Errorf ''mismatch''))"

definition dev_users :: user_service where
  "dev_users = user_NewService one_service False"

definition no_users :: "error option list \<Rightarrow> user_store" where
  "no_users fs = \<lparr>us_rows = [], us_kyc = [], us_db = (empty_db [])\<lparr>db_faults := fs\<rparr>\<rparr>"

definition one_user :: StoredUser where
  "one_user = (new_user ''u1'' ''a@x'')\<lparr>su_PasswordHash := ''hpw''\<rparr>"

definition one_store :: user_store where
  "one_store = \<lparr>us_rows = [one_user], us_kyc = [], us_db = empty_db [''u1'']\<rparr>"

lemma toy_law: "bcrypt_law toy_gen toy_cmp"
  by (auto simp: bcrypt_law_def toy_gen_def toy_cmp_def)

lemma no_users_ok: "users_ok (no_users fs)"
  by (simp add: users_ok_def no_users_def empty_db_def)

lemma one_store_ok: "users_ok one_store" "one_user \<in> set (us_rows one_store)" "db_faults (us_db one_store) = []"
  by (simp_all add: users_ok_def one_store_def one_user_def new_user_def empty_db_def)

lemma one_conf: "key_configured (usv_auth dev_users)"
  by (simp add: key_configured_def one_service_def NewAuthServiceWithSecrets_def dev_users_def user_NewService_def)

lemmas user_runs = RegisterUser_def HashPassword_def ustmt_def set_faults_def email_exists_def insert_user_def
  insert_default_accounts_def no_users_def toy_gen_def dev_users_def user_NewService_def empty_db_def
  varchar_ok_def char_count_def

lemma sample_registration:
  "\<exists>st'. RegisterUser toy_gen dev_users ''u1'' ''a@x'' ''pw'' (no_users []) = (Inr (new_user ''u1'' ''a@x''), st') \<and>
     db_faults (us_db st') = []"
  by (simp add: user_runs Let_def)


theorem failed_registration_stays_witness:
  "\<exists>st'. RegisterUser toy_gen dev_users ''u1'' ''a@x'' ''pw'' (no_users [None, None, Some (Errorf ''timeout'')]) =
       (Inl (WrapBefore ''create accounts: '' (Errorf ''timeout'')), st') \<and>
     RegisterUser toy_gen dev_users ''u2'' ''a@x'' ''pw'' st' = (Inl (Errorf ''email already registered''), st')"
proof -
  obtain st' where r: "RegisterUser toy_gen dev_users ''u1'' ''a@x'' ''pw''
      (no_users [None, None, Some (Errorf ''timeout'')]) =
      (Inl (WrapBefore ''create accounts: '' (Errorf ''timeout'')), st')" "db_faults (us_db st') = []"
    by (simp add: user_runs Let_def)
  from failed_registration_stays [OF no_users_ok r toy_law] r(1) show ?thesis by blast
qed

theorem status_gates_login_witness:
  "\<exists>st'. user_UpdateStatus ''u1'' ''suspended'' one_store = (None, st') \<and>
     Login toy_cmp one_sign 0 0 dev_users ''a@x'' ''pw'' st' = (Inl ErrUserSuspended, st') \<and>
     user_UpdateStatus ''u1'' UserStatusActive st' = (None, one_store)"
proof -
  have u: "su_ID one_user = ''u1''" "su_Email one_user = ''a@x''" "su_Status one_user = UserStatusActive"
    by (simp_all add: one_user_def new_user_def)
  obtain st' where r: "user_UpdateStatus (su_ID one_user) ''suspended'' one_store = (None, st')"
    by (simp add: user_UpdateStatus_def ustmt_no_faults one_store_ok set_status_stmt_def varchar_ok_def
        char_count_def update_user_def)
  from status_gates_login [OF one_store_ok r] u r show ?thesis by auto
qed

end
