(* ===== verification/Kyc.thy ===== *)
theory Kyc
  imports User_Service
begin

section \<open>Identity verification and screening (internal/kyc)\<close>

text \<open>
  The verification requests of users (one row per user) and the list of sanctioned addresses. A
  NULL column is \<^term>\<open>None\<close>: scanning it into a Go \<open>string\<close> is an error of pgx, into
  a \<open>*time.Time\<close> it is nil. INT columns hold 32 bits.
\<close>

type_synonym KycStatus = string

abbreviation StatusNone :: KycStatus where "StatusNone \<equiv> ''none''"

abbreviation StatusPending :: KycStatus where "StatusPending \<equiv> ''pending''"

abbreviation StatusApproved :: KycStatus where "StatusApproved \<equiv> ''approved''"

abbreviation StatusRejected :: KycStatus where "StatusRejected \<equiv> ''rejected''"

record Verification =
  vf_UserID :: string
  vf_Status :: KycStatus
  vf_Level :: int
  vf_FullName :: string
  vf_DocType :: string
  vf_DocNumber :: string
  vf_DocImageURL :: string
  vf_ReviewNotes :: string
  vf_ReviewedBy :: string
  vf_SubmittedAt :: int
  vf_ReviewedAt :: "int option"

subsection \<open>Statements\<close>

definition kyc_fits :: "Verification \<Rightarrow> bool" where
  "kyc_fits v \<longleftrightarrow> varchar_ok 20 (vf_Status v) \<and> varchar_ok 255 (vf_FullName v) \<and> varchar_ok 50 (vf_DocType v) \<and>
     varchar_ok 100 (vf_DocNumber v) \<and> - (2 ^ 31) \<le> vf_Level v \<and> vf_Level v < 2 ^ 31"

text \<open>The columns the statement sets; on a conflict the reviewer stays.\<close>

definition kyc_row_of :: "Verification \<Rightarrow> string option \<Rightarrow> kyc_row" where
  "kyc_row_of v reviewer = \<lparr>kr_user_id = vf_UserID v, kr_status = vf_Status v, kr_level = vf_Level v,
     kr_full_name = vf_FullName v, kr_doc_type = vf_DocType v, kr_doc_number = vf_DocNumber v,
     kr_doc_image_url = vf_DocImageURL v, kr_review_notes = None, kr_reviewed_by = reviewer,
     kr_submitted_at = vf_SubmittedAt v, kr_reviewed_at = None\<rparr>"

definition upsert_kyc :: "Verification \<Rightarrow> int usql" where
  "upsert_kyc v st =
     (if \<not> kyc_fits v then (Inl (pg_error ''value out of range''), st)
      else if vf_UserID v \<in> kr_user_id ` set (us_kyc st) then
        (Inr 1, st\<lparr>us_kyc := map (\<lambda>r. if kr_user_id r = vf_UserID v then kyc_row_of v (kr_reviewed_by r) else r)
           (us_kyc st)\<rparr>)
      else if vf_UserID v \<notin> set (db_users (us_db st)) then
        (Inl (pg_error ''violates foreign key constraint''), st)
      else (Inr 1, st\<lparr>us_kyc := us_kyc st @ [kyc_row_of v None]\<rparr>))"

definition review_kyc :: "string \<Rightarrow> string \<Rightarrow> string \<Rightarrow> int \<Rightarrow> string \<Rightarrow> int usql" where
  "review_kyc status notes reviewer now uid st =
     (let n = int (length (filter (\<lambda>r. kr_user_id r = uid) (us_kyc st))) in
      if n \<noteq> 0 \<and> reviewer \<notin> set (db_users (us_db st)) then
        (Inl (pg_error ''violates foreign key constraint''), st)
      else
        (Inr n, st\<lparr>us_kyc := map (\<lambda>r. if kr_user_id r = uid then r\<lparr>kr_status := status,
           kr_review_notes := Some notes, kr_reviewed_by := Some reviewer, kr_reviewed_at := Some now\<rparr> else r)
           (us_kyc st)\<rparr>))"

definition select_kyc :: "string \<Rightarrow> Verification usql" where
  "select_kyc uid st =
     (case filter (\<lambda>r. kr_user_id r = uid) (us_kyc st) of
        [] \<Rightarrow> (Inl (Errorf ''no rows in result set''), st)
      | r # _ \<Rightarrow>
          (case (kr_review_notes r, kr_reviewed_by r) of
             (Some notes, Some reviewer) \<Rightarrow>
               (Inr \<lparr>vf_UserID = kr_user_id r, vf_Status = kr_status r, vf_Level = kr_level r,
                  vf_FullName = kr_full_name r, vf_DocType = kr_doc_type r, vf_DocNumber = kr_doc_number r,
                  vf_DocImageURL = kr_doc_image_url r, vf_ReviewNotes = notes, vf_ReviewedBy = reviewer,
                  vf_SubmittedAt = kr_submitted_at r, vf_ReviewedAt = kr_reviewed_at r\<rparr>, st)
           | _ \<Rightarrow> (Inl (Errorf ''cannot scan NULL into *string''), st)))"

subsection \<open>Operations\<close>

definition Submit :: "int \<Rightarrow> Verification \<Rightarrow> user_store \<Rightarrow> error option \<times> user_store" where
  "Submit now v0 st =
     (let v = v0\<lparr>vf_Status := StatusPending, vf_SubmittedAt := now\<rparr> in
      case ustmt (upsert_kyc v) st of
        (Inl e, st1) \<Rightarrow> (Some (WrapBefore ''submit kyc: '' e), st1)
      | (Inr _, st1) \<Rightarrow> (None, st1))"

definition GetStatus :: "string \<Rightarrow> Verification usql" where
  "GetStatus uid = ustmt (select_kyc uid)"

definition Approve :: "int \<Rightarrow> string \<Rightarrow> string \<Rightarrow> string \<Rightarrow> user_store \<Rightarrow> error option \<times> user_store" where
  "Approve now uid reviewer notes st =
     (case ustmt (review_kyc StatusApproved notes reviewer now uid) st of
        (Inl e, st1) \<Rightarrow> (Some (WrapBefore ''approve kyc: '' e), st1)
      | (Inr _, st1) \<Rightarrow> (None, snd (ustmt (update_user uid (\<lambda>u. u\<lparr>su_KYCLevel := 1\<rparr>)) st1)))"

definition Reject :: "int \<Rightarrow> string \<Rightarrow> string \<Rightarrow> string \<Rightarrow> user_store \<Rightarrow> error option \<times> user_store" where
  "Reject now uid reviewer notes st =
     (case ustmt (review_kyc StatusRejected notes reviewer now uid) st of
        (Inl e, st1) \<Rightarrow> (Some (WrapBefore ''reject kyc: '' e), st1)
      | (Inr _, st1) \<Rightarrow> (None, st1))"

subsection \<open>Screening\<close>

definition SanctionedAddresses :: "string list" where
  "SanctionedAddresses = [''0x0000000000000000000000000000000000000001'',
     ''0x0000000000000000000000000000000000000002'']"

text \<open>The Go map from lower-cased address to \<open>true\<close> is the set of its keys. \<open>ToLower\<close> is the
  one of theory \<open>Events\<close>, on ASCII addresses.\<close>

definition NewAMLChecker :: "string list \<Rightarrow> string set" where
  "NewAMLChecker addresses = set (map ToLower addresses)"

definition IsSanctioned :: "string set \<Rightarrow> string \<Rightarrow> bool" where
  "IsSanctioned c address \<longleftrightarrow> ToLower address \<in> c"

definition SanctionListSize :: "string set \<Rightarrow> nat" where
  "SanctionListSize c = card c"

subsection \<open>Properties\<close>

lemma select_kyc_store [simp]: "snd (select_kyc uid st) = st"
  by (simp add: select_kyc_def split: list.split option.split)

text \<open>A verification cannot be read back before it is reviewed: after a first successful
  \<open>Submit\<close> for a user, \<open>GetStatus\<close> fails (its nullable columns are scanned into plain
  strings) until \<open>Approve\<close> or \<open>Reject\<close> has filled them, and from then on it returns the submitted
  data with that status, the notes and the reviewer.\<close>

theorem pending_status_unreadable:
  assumes sub: "Submit now v st = (None, st1)" and new: "vf_UserID v \<notin> kr_user_id ` set (us_kyc st)"
    and nf: "db_faults (us_db st1) = []" and rev: "reviewer \<in> set (db_users (us_db st1))"
  shows "GetStatus (vf_UserID v) st1 = (Inl (Errorf ''cannot scan NULL into *string''), st1) \<and>
    (\<forall>st2. Approve now2 (vf_UserID v) reviewer notes st1 = (None, st2) \<longrightarrow>
       GetStatus (vf_UserID v) st2 = (Inr (v\<lparr>vf_Status := StatusApproved, vf_SubmittedAt := now,
         vf_ReviewNotes := notes, vf_ReviewedBy := reviewer, vf_ReviewedAt := Some now2\<rparr>), st2)) \<and>
    (\<forall>st2. Reject now2 (vf_UserID v) reviewer notes st1 = (None, st2) \<longrightarrow>
       GetStatus (vf_UserID v) st2 = (Inr (v\<lparr>vf_Status := StatusRejected, vf_SubmittedAt := now,
         vf_ReviewNotes := notes, vf_ReviewedBy := reviewer, vf_ReviewedAt := Some now2\<rparr>), st2))"
proof -
  let ?v = "v\<lparr>vf_Status := StatusPending, vf_SubmittedAt := now\<rparr>"
  have "us_kyc st1 = us_kyc st @ [kyc_row_of ?v None]"
  proof -
    from sub obtain n where "ustmt (upsert_kyc ?v) st = (Inr n, st1)"
      by (auto simp: Submit_def Let_def split: sum.splits prod.splits)
    then show ?thesis
    proof (cases rule: ustmt_cases)
      case (run fs)
      with new show ?thesis by (auto simp: upsert_kyc_def split: if_splits)
    qed simp
  qed
  then have k: "filter (\<lambda>r. kr_user_id r = vf_UserID v) (us_kyc st1) = [kyc_row_of ?v None]"
    using new by (force simp: filter_empty_conv kyc_row_of_def)
  have upd: "filter (\<lambda>r. kr_user_id r = vf_UserID v)
      (map (\<lambda>r. if kr_user_id r = vf_UserID v then r\<lparr>kr_status := x, kr_review_notes := Some notes,
         kr_reviewed_by := Some reviewer, kr_reviewed_at := Some now2\<rparr> else r) (us_kyc st1)) =
      [(kyc_row_of ?v None)\<lparr>kr_status := x, kr_review_notes := Some notes,
         kr_reviewed_by := Some reviewer, kr_reviewed_at := Some now2\<rparr>]" for x
  proof -
    have "filter P (map (\<lambda>r. if P r then f r else r) rows) = map f (filter P rows)"
      if "\<And>r. P r \<Longrightarrow> P (f r)" for P :: "kyc_row \<Rightarrow> bool" and f rows
      using that by (induction rows) auto
    from this [of "\<lambda>r. kr_user_id r = vf_UserID v"] k show ?thesis by simp
  qed
  have "GetStatus (vf_UserID v) st1 = (Inl (Errorf ''cannot scan NULL into *string''), st1)"
    using k nf by (simp add: GetStatus_def ustmt_no_faults select_kyc_def kyc_row_of_def)
  moreover have "Approve now2 (vf_UserID v) reviewer notes st1 = (None, st2) \<longrightarrow>
       GetStatus (vf_UserID v) st2 = (Inr (v\<lparr>vf_Status := StatusApproved, vf_SubmittedAt := now,
         vf_ReviewNotes := notes, vf_ReviewedBy := reviewer, vf_ReviewedAt := Some now2\<rparr>), st2)" for st2
    using k nf rev upd [of StatusApproved]
    by (auto simp: Approve_def ustmt_no_faults review_kyc_def update_user_def GetStatus_def select_kyc_def
        kyc_row_of_def)
  moreover have "Reject now2 (vf_UserID v) reviewer notes st1 = (None, st2) \<longrightarrow>
       GetStatus (vf_UserID v) st2 = (Inr (v\<lparr>vf_Status := StatusRejected, vf_SubmittedAt := now,
         vf_ReviewNotes := notes, vf_ReviewedBy := reviewer, vf_ReviewedAt := Some now2\<rparr>), st2)" for st2
    using k nf rev upd [of StatusRejected]
    by (auto simp: Reject_def ustmt_no_faults review_kyc_def GetStatus_def select_kyc_def kyc_row_of_def)
  ultimately show ?thesis by blast
qed

text \<open>Approval needs no submission, and nothing takes the level back: \<open>Approve\<close> for a user who
  never submitted anything reports success and raises the user's KYC level to 1; a later
  \<open>Submit\<close> or \<open>Reject\<close> leaves every user row, and so the level, as it is.\<close>

theorem approval_without_submission:
  assumes nf: "db_faults (us_db st) = []" and none: "uid \<notin> kr_user_id ` set (us_kyc st)"
    and u: "u \<in> set (us_rows st)" "su_ID u = uid"
  shows "\<exists>st'. Approve now uid reviewer notes st = (None, st') \<and> us_kyc st' = us_kyc st \<and>
    u\<lparr>su_KYCLevel := 1\<rparr> \<in> set (us_rows st') \<and> us_db st' = us_db st \<and>
    (\<forall>v. us_rows (snd (Submit now' v st')) = us_rows st') \<and>
    us_rows (snd (Reject now' uid reviewer' notes' st')) = us_rows st'"
proof -
  have rows: "us_rows (snd (ustmt (upsert_kyc v) s)) = us_rows s"
    "us_rows (snd (ustmt (review_kyc x n r t i) s)) = us_rows s" for v s x n r t i
    by (rule ustmt_keeps [where P = "\<lambda>s'. us_rows s' = us_rows s"];
        simp add: upsert_kyc_def review_kyc_def Let_def)+
  have "filter (\<lambda>r. kr_user_id r = uid) (us_kyc st) = []"
    using none unfolding filter_empty_conv by (metis imageI)
  moreover have "map (\<lambda>r. if kr_user_id r = uid then f r else r) (us_kyc st) = us_kyc st" for f
    using none by (intro map_idI) force
  ultimately have a: "Approve now uid reviewer notes st =
      (None, st\<lparr>us_rows := map (\<lambda>u. if su_ID u = uid then u\<lparr>su_KYCLevel := 1\<rparr> else u) (us_rows st)\<rparr>)"
    using nf by (simp add: Approve_def ustmt_no_faults review_kyc_def update_user_def)
  have "u\<lparr>su_KYCLevel := 1\<rparr> \<in> set (map (\<lambda>u. if su_ID u = uid then u\<lparr>su_KYCLevel := 1\<rparr> else u) (us_rows st))"
    using u by force
  moreover have "us_rows (snd (Submit now' v s)) = us_rows s" for v s
    using rows(1) [of "v\<lparr>vf_Status := StatusPending, vf_SubmittedAt := now'\<rparr>" s]
    by (auto simp: Submit_def Let_def split: sum.split prod.split)
  moreover have "us_rows (snd (Reject now' uid reviewer' notes' s)) = us_rows s" for s
    using rows(2) [of StatusRejected notes' reviewer' now' uid s]
    by (auto simp: Reject_def split: sum.split prod.split)
  ultimately show ?thesis unfolding a by simp
qed

definition sample_verification :: Verification where
  "sample_verification = \<lparr>vf_UserID = ''u1'', vf_Status = '''', vf_Level = 1, vf_FullName = ''A'',
     vf_DocType = ''id'', vf_DocNumber = ''7'', vf_DocImageURL = '''', vf_ReviewNotes = '''',
     vf_ReviewedBy = '''', vf_SubmittedAt = 0, vf_ReviewedAt = None\<rparr>"

theorem pending_status_unreadable_witness:
  "\<exists>st1. Submit 5 sample_verification one_store = (None, st1) \<and>
     GetStatus ''u1'' st1 = (Inl (Errorf ''cannot scan NULL into *string''), st1)"
proof -
  obtain st1 where s: "Submit 5 sample_verification one_store = (None, st1)"
    "db_faults (us_db st1) = []" "''u1'' \<in> set (db_users (us_db st1))"
    by (simp add: Submit_def ustmt_def one_store_def empty_db_def upsert_kyc_def kyc_fits_def varchar_ok_def
        char_count_def sample_verification_def)
  have "vf_UserID sample_verification \<notin> kr_user_id ` set (us_kyc one_store)"
    by (simp add: one_store_def)
  from pending_status_unreadable [OF s(1) this s(2,3)] s(1) show ?thesis
    by (auto simp: sample_verification_def)
qed

theorem approval_without_submission_witness:
  "\<exists>st'. Approve 5 ''u1'' ''nobody'' ''ok'' one_store = (None, st') \<and>
     one_user\<lparr>su_KYCLevel := 1\<rparr> \<in> set (us_rows st')"
proof -
  have "''u1'' \<notin> kr_user_id ` set (us_kyc one_store)" "su_ID one_user = ''u1''"
    by (simp_all add: one_store_def one_user_def new_user_def)
  from approval_without_submission [OF one_store_ok(3) this(1) one_store_ok(2) this(2)] show ?thesis by blast
qed

end
