(* ===== verification/Grpc_Servers.thy ===== *)
theory Grpc_Servers
  imports Gateway Kyc
begin

section \<open>The gRPC servers (internal/grpc)\<close>

text \<open>
  The remote procedures over the services, on the decoded protobuf messages (generated code, wire
  format and transport are grpc's). Every message names its user itself; the servers check nobody.
  \<open>int32\<close> fields hold 32 bits. Creation times are left out, as in the services.
\<close>

definition to_int32 :: "int \<Rightarrow> int" where
  "to_int32 i = sint (word_of_int i :: 32 word)"

subsection \<open>Orders (order_server.go)\<close>

record pb_PlaceOrderRequest =
  pb_UserId :: string
  pb_order :: order_body

record pb_PlaceOrderResponse =
  pb_OrderId :: string
  pb_ClientOrderId :: string
  pb_Status :: string
  pb_FilledQty :: string

record pb_GetOrderResponse =
  go_OrderId :: string
  go_UserId :: string
  go_Symbol :: string
  go_Side :: string
  go_Type :: string
  go_Price :: string
  go_Quantity :: string
  go_FilledQty :: string
  go_Status :: string

definition rpc_PlaceOrder ::
  "OrderService \<Rightarrow> string \<Rightarrow> int \<Rightarrow> (Order \<Rightarrow> MatchResult list \<times> Order option \<times> error option) \<Rightarrow>
     pb_PlaceOrderRequest \<Rightarrow> db \<Rightarrow> panic + (error + pb_PlaceOrderResponse) \<times> db" where
  "rpc_PlaceOrder s oid now eng req d =
     (let b = pb_order req in
      case NewFromString (bo_Price b) of
        Inl e \<Rightarrow> Inr (Inl e, d)
      | Inr prc \<Rightarrow>
          (case NewFromString (bo_Quantity b) of
             Inl e \<Rightarrow> Inr (Inl e, d)
           | Inr quantity \<Rightarrow>
               (case PlaceOrder s oid now eng
                   \<lparr>req_UserID = pb_UserId req, req_Symbol = bo_Symbol b, req_Side = bo_Side b,
                    req_Type = bo_Type b, req_TimeInForce = bo_TimeInForce b, req_Price = prc,
                    req_StopPrice = decimalMust (bo_StopPrice b), req_Quantity = quantity,
                    req_ClientOrderID = bo_ClientOrderID b\<rparr> d of
                  Inl p \<Rightarrow> Inl p
                | Inr (Inl e, d') \<Rightarrow> Inr (Inl e, d')
                | Inr (Inr resp, d') \<Rightarrow>
                    Inr (Inr \<lparr>pb_OrderId = pr_OrderID resp, pb_ClientOrderId = pr_ClientOrderID resp,
                           pb_Status = pr_Status resp, pb_FilledQty = String (pr_FilledQty resp)\<rparr>, d'))))"

definition rpc_CancelOrder ::
  "OrderService \<Rightarrow> (Symbol \<Rightarrow> string \<Rightarrow> error + Order) \<Rightarrow> string \<Rightarrow> Symbol \<Rightarrow> string \<Rightarrow> db \<Rightarrow>
     (error + string) \<times> db" where
  "rpc_CancelOrder s engc uid symb oid d =
     (case service_CancelOrder s engc uid symb oid d of
        (Some e, d') \<Rightarrow> (Inl e, d')
      | (None, d') \<Rightarrow> (Inr ''cancelled'', d'))"

definition order_response :: "StoredOrder \<Rightarrow> pb_GetOrderResponse" where
  "order_response o' =
     \<lparr>go_OrderId = so_OrderID o', go_UserId = so_UserID o', go_Symbol = so_Symbol o', go_Side = so_Side o',
      go_Type = so_Type o', go_Price = so_Price o', go_Quantity = so_Quantity o',
      go_FilledQty = so_FilledQty o', go_Status = so_Status o'\<rparr>"

definition rpc_GetOrder :: "OrderService \<Rightarrow> string \<Rightarrow> pb_GetOrderResponse sql" where
  "rpc_GetOrder s oid d = map_prod (map_sum id order_response) id (service_GetOrder s oid d)"

definition rpc_GetOpenOrders :: "OrderService \<Rightarrow> string \<Rightarrow> string \<Rightarrow> (pb_GetOrderResponse list) sql" where
  "rpc_GetOpenOrders s uid symb d = map_prod (map_sum id (map order_response)) id (service_GetOpenOrders s uid symb d)"

subsection \<open>Users (user_server.go)\<close>

record pb_GetUserResponse =
  gu_UserId :: string
  gu_Email :: string
  gu_KycLevel :: int
  gu_TwoFaEnabled :: bool
  gu_Status :: string

definition rpc_Register ::
  "(string \<Rightarrow> nat \<Rightarrow> error + string) \<Rightarrow> user_service \<Rightarrow> string \<Rightarrow> string \<Rightarrow> string \<Rightarrow> (string \<times> string) usql" where
  "rpc_Register gen s uid email password st =
     map_prod (map_sum id (\<lambda>u. (su_ID u, su_Email u))) id (RegisterUser gen s uid email password st)"

text \<open>The response holds the token and the user that the server's own check of the token names.\<close>

definition rpc_Login ::
  "(string \<Rightarrow> string \<Rightarrow> error option) \<Rightarrow> (jwt_method \<Rightarrow> jwt_key \<Rightarrow> jwt_claims \<Rightarrow> error + string) \<Rightarrow>
     ((jwt_method \<Rightarrow> error + jwt_key) \<Rightarrow> string \<Rightarrow> error + jwt_claims) \<Rightarrow> int \<Rightarrow> int \<Rightarrow> user_service \<Rightarrow>
     AuthService \<Rightarrow> string \<Rightarrow> string \<Rightarrow> (string \<times> string) usql" where
  "rpc_Login bcrypt_cmp sign parse now now' s authSvc email password st =
     map_prod (map_sum id (\<lambda>token. (token, case VerifyJWT parse token authSvc of Inl _ \<Rightarrow> '''' | Inr u \<Rightarrow> u))) id
       (Login bcrypt_cmp sign now now' s email password st)"

definition rpc_GetUser :: "string \<Rightarrow> pb_GetUserResponse usql" where
  "rpc_GetUser uid st =
     map_prod (map_sum id (\<lambda>u. \<lparr>gu_UserId = su_ID u, gu_Email = su_Email u, gu_KycLevel = to_int32 (su_KYCLevel u),
       gu_TwoFaEnabled = su_TwoFAEnabled u, gu_Status = su_Status u\<rparr>)) id (GetUser uid st)"

definition rpc_UpdateKYC :: "string \<Rightarrow> string usql" where
  "rpc_UpdateKYC uid st =
     (case user_UpdateStatus uid UserStatusActive st of
        (Some e, st') \<Rightarrow> (Inl e, st')
      | (None, st') \<Rightarrow> (Inr ''updated'', st'))"

subsection \<open>Wallet (wallet_server.go)\<close>

definition rpc_GetDepositAddress ::
  "crypto \<Rightarrow> string \<Rightarrow> wallet_service \<Rightarrow> string \<Rightarrow> Currency \<Rightarrow> string \<Rightarrow> db \<Rightarrow>
     (error + string \<times> string) \<times> wallet_service \<times> db" where
  "rpc_GetDepositAddress cr rnd s uid cur chain d =
     map_prod (map_sum id (\<lambda>addr. (addr, chain))) id (GenerateDepositAddress cr rnd s uid cur chain d)"

record pb_WithdrawalRequest =
  pw_UserId :: string
  pw_Currency :: string
  pw_Chain :: string
  pw_ToAddress :: string
  pw_Amount :: string
  pw_Fee :: string

definition rpc_RequestWithdrawal ::
  "wallet_service \<Rightarrow> string \<Rightarrow> pb_WithdrawalRequest \<Rightarrow> (string \<times> string) sql" where
  "rpc_RequestWithdrawal s wid req d =
     (case NewFromString (pw_Amount req) of
        Inl e \<Rightarrow> (Inl e, d)
      | Inr amount \<Rightarrow>
          (case NewFromString (pw_Fee req) of
             Inl e \<Rightarrow> (Inl e, d)
           | Inr fee \<Rightarrow>
               map_prod (map_sum id (\<lambda>res. (wres_WithdrawalID res, wres_Status res))) id
                 (RequestWithdrawal s wid
                    \<lparr>wr_UserID = pw_UserId req, wr_Currency = pw_Currency req, wr_Chain = pw_Chain req,
                     wr_ToAddress = pw_ToAddress req, wr_Amount = amount, wr_Fee = fee\<rparr> d)))"

text \<open>The balances are constants.\<close>

definition rpc_GetBalances :: "(string \<times> string \<times> string) list" where
  "rpc_GetBalances = [(''ETH'', ''0'', ''0''), (''USDT'', ''0'', ''0'')]"

subsection \<open>Market data (market_server.go)\<close>

record pb_DepthResponse =
  pd_Symbol :: string
  pd_Bids :: "PriceLevelSnapshot list"
  pd_Asks :: "PriceLevelSnapshot list"

definition pb_level :: "PriceLevelSnapshot \<Rightarrow> PriceLevelSnapshot" where
  "pb_level l = l\<lparr>ps_Orders := to_int32 (ps_Orders l)\<rparr>"

definition rpc_GetDepth :: "Engine \<Rightarrow> Symbol \<Rightarrow> 32 word \<Rightarrow> error + pb_DepthResponse" where
  "rpc_GetDepth e symb limit =
     map_sum id (\<lambda>snap. \<lparr>pd_Symbol = bs_Symbol snap, pd_Bids = map pb_level (bs_Bids snap),
       pd_Asks = map pb_level (bs_Asks snap)\<rparr>) (market_GetOrderBook e symb (scast limit))"

text \<open>\<open>Trade.Time\<close> is in milliseconds.\<close>

definition rpc_GetTrades :: "Symbol \<Rightarrow> 32 word \<Rightarrow> redis \<Rightarrow> (error + TradeItem list) \<times> redis" where
  "rpc_GetTrades symb limit r =
     map_prod (map_sum id (map (\<lambda>t. t\<lparr>ti_Time := ti_Time t div 1000000\<rparr>))) id
       (GetRecentTrades symb (scast limit) r)"

text \<open>The response has no count.\<close>

definition rpc_GetTicker :: "Symbol \<Rightarrow> redis \<Rightarrow> (error + Ticker) \<times> redis" where
  "rpc_GetTicker symb r = map_prod (map_sum id (\<lambda>t. t\<lparr>tk_Count := ''''\<rparr>)) id (GetTicker symb r)"

definition rpc_GetKlines :: "Symbol \<Rightarrow> string \<Rightarrow> 32 word \<Rightarrow> error + Candlestick list" where
  "rpc_GetKlines symb interval limit = GetKlines symb interval (scast limit)"

subsection \<open>Properties\<close>

text \<open>C30. HTTP and gRPC place the same order: for one user and one order body the gRPC method and the
  HTTP handler succeed together, report the same identifiers, status and fill, and leave the same
  tables; an error of the one is a response 400 of the other (a price or quantity that does not parse
  is refused by both before the service is asked, an empty one counts as zero in both), a panic is a
  response 500.\<close>

theorem http_grpc_place_same_order:
  assumes user: "GetUserID r = uid" "uid \<noteq> ''''" and body: "decode_body i order_body_of r = Inr b"
  shows "case rpc_PlaceOrder (gw_orders gw) (in_orderID i) (in_now i) (in_eng i) \<lparr>pb_UserId = uid, pb_order = b\<rparr> (wd_db w) of
      Inl p \<Rightarrow> rs_Status (fst (handle_PlaceOrder gw i r w)) = 500 \<and> snd (handle_PlaceOrder gw i r w) = w
    | Inr (Inl e, d) \<Rightarrow> rs_Status (fst (handle_PlaceOrder gw i r w)) = 400 \<and> snd (handle_PlaceOrder gw i r w) = w\<lparr>wd_db := d\<rparr>
    | Inr (Inr resp, d) \<Rightarrow> handle_PlaceOrder gw i r w =
        (WriteJSON 200 (FieldsBody [(''orderId'', JStr (pb_OrderId resp)), (''clientOrderId'', JStr (pb_ClientOrderId resp)),
           (''status'', JStr (pb_Status resp)), (''filledQty'', JStr (pb_FilledQty resp))]), w\<lparr>wd_db := d\<rparr>)"
proof (cases "NewFromString (bo_Price b)")
  case (Inl e)
  then have "bo_Price b \<noteq> ''''" by (auto simp: NewFromString_def TrimSpace_def Let_def)
  with Inl user body show ?thesis by (simp add: handle_PlaceOrder_def for_user_def rpc_PlaceOrder_def)
next
  case (Inr prc)
  show ?thesis
  proof (cases "NewFromString (bo_Quantity b)")
    case (Inl e)
    with Inr user body show ?thesis by (simp add: handle_PlaceOrder_def for_user_def rpc_PlaceOrder_def)
  next
    case q: (Inr q)
    have "place_request uid b q =
        \<lparr>req_UserID = uid, req_Symbol = bo_Symbol b, req_Side = bo_Side b, req_Type = bo_Type b,
         req_TimeInForce = bo_TimeInForce b, req_Price = prc, req_StopPrice = decimalMust (bo_StopPrice b),
         req_Quantity = q, req_ClientOrderID = bo_ClientOrderID b\<rparr>"
      using Inr by (simp add: place_request_def decimalMust_def)
    then show ?thesis using Inr q user body
      by (auto simp: handle_PlaceOrder_def for_user_def rpc_PlaceOrder_def split: sum.split prod.split)
  qed
qed

text \<open>\<open>UpdateKYC\<close> lifts a suspension: the call, which carries no level and no proof, sets the
  status of the user it names to active, so a suspended user who knows the password can log in
  afterwards; the KYC level stays as it was.\<close>

theorem update_kyc_reactivates:
  assumes ok: "users_ok st" and u: "u \<in> set (us_rows st)" and nf: "db_faults (us_db st) = []"
    and pw: "VerifyPassword bcrypt_cmp (su_PasswordHash u) password" and sus: "su_Status u \<noteq> UserStatusActive"
  shows "fst (Login bcrypt_cmp sign now now' s (su_Email u) password st) = Inl ErrUserSuspended \<and>
    (\<exists>st'. rpc_UpdateKYC (su_ID u) st = (Inr ''updated'', st') \<and>
       u\<lparr>su_Status := UserStatusActive\<rparr> \<in> set (us_rows st') \<and>
       Login bcrypt_cmp sign now now' s (su_Email u) password st' = (GenerateJWT sign now now' (su_ID u) (usv_auth s), st'))"
proof -
  let ?st = "st\<lparr>us_rows := map (\<lambda>v. if su_ID v = su_ID u then v\<lparr>su_Status := UserStatusActive\<rparr> else v) (us_rows st)\<rparr>"
  have upd: "user_UpdateStatus (su_ID u) UserStatusActive st = (None, ?st)"
    using nf by (simp add: user_UpdateStatus_def ustmt_no_faults set_status_stmt_def update_user_def varchar_ok_def
        char_count_def)
  have ok': "users_ok ?st" using user_UpdateStatus_users_ok [OF ok, of "su_ID u" UserStatusActive] upd by simp
  have mem: "u\<lparr>su_Status := UserStatusActive\<rparr> \<in> set (us_rows ?st)" using u by force
  have "Login bcrypt_cmp sign now now' s (su_Email u) password ?st = (GenerateJWT sign now now' (su_ID u) (usv_auth s), ?st)"
    using Login_stored [OF ok' mem, of bcrypt_cmp sign now now' s password] nf pw by (simp add: VerifyPassword_def)
  moreover have "fst (Login bcrypt_cmp sign now now' s (su_Email u) password st) = Inl ErrUserSuspended"
    using Login_stored [OF ok u nf] sus by simp
  ultimately show ?thesis using upd mem by (auto simp: rpc_UpdateKYC_def)
qed

definition sample_place_request :: request where
  "sample_place_request = sample_withdraw\<lparr>rq_UserIDKey := Some ''u1''\<rparr>"

definition empty_order :: order_body where
  "empty_order = \<lparr>bo_Symbol = '''', bo_Side = '''', bo_Type = '''', bo_TimeInForce = '''', bo_Price = '''',
     bo_StopPrice = '''', bo_Quantity = '''', bo_ClientOrderID = ''''\<rparr>"

theorem http_grpc_place_same_order_witness:
  "rs_Status (fst (handle_PlaceOrder sample_gateway sample_inputs sample_place_request sample_world)) = 400"
proof -
  have b: "decode_body sample_inputs order_body_of sample_place_request = Inr empty_order"
    by (simp add: decode_body_def sample_inputs_def order_body_of_def json_string_def ToLower_def to_lower_def
        empty_order_def)
  have u: "GetUserID sample_place_request = ''u1''"
    by (simp add: GetUserID_def sample_place_request_def)
  have "NewFromString '''' = Inr Zero" by (simp add: NewFromString_def TrimSpace_def Let_def)
  then have "rpc_PlaceOrder (gw_orders sample_gateway) (in_orderID sample_inputs) (in_now sample_inputs)
      (in_eng sample_inputs) \<lparr>pb_UserId = ''u1'', pb_order = empty_order\<rparr> (wd_db sample_world) =
      Inr (Inl (WrapBefore ''order validation: '' ErrMarketNotAvailable), wd_db sample_world)"
    by (simp add: rpc_PlaceOrder_def empty_order_def sample_gateway_def default_service_def default_validator_def
        PlaceOrder_def Validate_def NewValidator_def default_market_def)
  with http_grpc_place_same_order [OF u _ b, of sample_gateway sample_world] show ?thesis by simp
qed

definition suspended_user :: StoredUser where
  "suspended_user = one_user\<lparr>su_Status := ''suspended''\<rparr>"

theorem update_kyc_reactivates_witness:
  "\<exists>st'. rpc_UpdateKYC ''u1'' (one_store\<lparr>us_rows := [suspended_user]\<rparr>) = (Inr ''updated'', st') \<and>
     Login toy_cmp one_sign 0 0 dev_users ''a@x'' ''pw'' st' = (Inr ''tok'', st')"
proof -
  let ?st = "one_store\<lparr>us_rows := [suspended_user]\<rparr>"
  have ok: "users_ok ?st" "suspended_user \<in> set (us_rows ?st)" "db_faults (us_db ?st) = []"
    by (simp_all add: users_ok_def one_store_def suspended_user_def one_user_def new_user_def empty_db_def)
  have u: "su_ID suspended_user = ''u1''" "su_Email suspended_user = ''a@x''" "su_Status suspended_user \<noteq> UserStatusActive"
    "VerifyPassword toy_cmp (su_PasswordHash suspended_user) ''pw''"
    by (simp_all add: suspended_user_def one_user_def new_user_def VerifyPassword_def toy_cmp_def)
  have g: "GenerateJWT one_sign 0 0 ''u1'' (usv_auth dev_users) = Inr ''tok''"
    by (simp add: GenerateJWT_def one_service_def NewAuthServiceWithSecrets_def one_sign_def
        one_claims_def unix_def jwtExpiry_def dev_users_def user_NewService_def)
  from update_kyc_reactivates [OF ok u(4,3), of one_sign 0 0 dev_users] u(1,2) g show ?thesis by auto
qed

end
