(* ===== verification/Chain_Scanner.thy ===== *)
theory Chain_Scanner
  imports Wallet
begin

section \<open>Scanning the chain for deposits (blockchain/ethereum, cmd/blockchain-monitor)\<close>

text \<open>
  The block scanner, the events the monitor publishes for its deposits, and the handler of the
  wallet service that receives them. The Ethereum node is a parameter: its height and its blocks.
  \<open>Address.Hex\<close> of go-ethereum is the parameter \<open>hex\<close>: the EIP-55 text, hexadecimal digits whose
  case is a checksum. A sender is the text of the recovered address or none. Block numbers are
  natural numbers (they stay far below the bounds of their 64-bit types).
\<close>

record chain_tx =
  tx_Hash :: string
  tx_To :: "string option"
  tx_Value :: nat
  tx_Sender :: "string option"

record chain_block =
  bk_Number :: nat
  bk_Transactions :: "chain_tx list"

record node =
  nd_BlockNumber :: "error + nat"
  nd_BlockByNumber :: "nat \<Rightarrow> error + chain_block"

record scanned_deposit =
  sd_TxHash :: string
  sd_Currency :: string
  sd_Chain :: string
  sd_FromAddress :: string
  sd_ToAddress :: string
  sd_Amount :: string
  sd_BlockNumber :: nat
  sd_Confirmations :: nat
  sd_RequiredConfirmations :: nat

record Scanner =
  sc_lastBlock :: nat
  sc_confirmations :: nat
  sc_watchedAddrs :: "string \<rightharpoonup> string"

definition NewScanner :: "nat \<Rightarrow> Scanner" where
  "NewScanner confirmations =
     \<lparr>sc_lastBlock = 0, sc_confirmations = confirmations, sc_watchedAddrs = Map.empty\<rparr>"

definition WatchAddress :: "string \<Rightarrow> string \<Rightarrow> Scanner \<Rightarrow> Scanner" where
  "WatchAddress address uid s = s\<lparr>sc_watchedAddrs := (sc_watchedAddrs s)(address \<mapsto> uid)\<rparr>"

subsection \<open>math/big.Float: the text of an amount in ether\<close>

text \<open>
  \<open>Quo\<close> rounds to the larger precision of its operands (at least 64 bits), to nearest even;
  \<open>String\<close> is \<open>Text('g', 10)\<close>: ten significant digits, to nearest even, without trailing
  zeros, with an exponent below -4 or from the number of digits on.
\<close>

definition round_even :: "nat \<Rightarrow> nat \<Rightarrow> nat" where
  "round_even a b =
     (let q = a div b; r = a mod b in
      if 2 * r < b then q else if b < 2 * r then q + 1 else if even q then q else q + 1)"

fun bit_len :: "nat \<Rightarrow> nat" where
  "bit_len n = (if n = 0 then 0 else Suc (bit_len (n div 2)))"

declare bit_len.simps [simp del]

definition first_from :: "nat \<Rightarrow> (nat \<Rightarrow> bool) \<Rightarrow> nat" where
  "first_from bound P = (case find P [0 ..< bound] of None \<Rightarrow> bound | Some k \<Rightarrow> k)"

text \<open>The quotient \<open>n / d\<close> as mantissa and negated binary exponent; 130 places are enough for a
  divisor below $2^{60}$.\<close>

definition float_quo :: "nat \<Rightarrow> nat \<Rightarrow> nat \<times> nat" where
  "float_quo n d =
     (let p = max 64 (bit_len n); e = first_from 130 (\<lambda>e. d * 2 ^ (p - 1) \<le> n * 2 ^ e) in
      (round_even (n * 2 ^ e) d, e))"

text \<open>Ten significant digits of \<open>m / 2^e\<close>: the digits and the decimal exponent of the first one.\<close>

definition ten_digits :: "nat \<Rightarrow> nat \<Rightarrow> nat \<times> int" where
  "ten_digits m e =
     (let ip = m div 2 ^ e;
          x = (if ip > 0 then int (length (show_nat ip)) - 1
               else - int (first_from 40 (\<lambda>k. 2 ^ e \<le> m * 10 ^ k)));
          D = (if x \<le> 9 then round_even (m * 10 ^ nat (9 - x)) (2 ^ e)
               else round_even m (2 ^ e * 10 ^ nat (x - 9)))
      in if D = 10 ^ 10 then (10 ^ 9, x + 1) else (D, x))"

definition show_exp :: "int \<Rightarrow> string" where
  "show_exp x = (if x < 0 then ''-'' else ''+'') @
     (let s = show_nat (nat \<bar>x\<bar>) in if length s < 2 then CHR ''0'' # s else s)"

definition digit_at :: "string \<Rightarrow> int \<Rightarrow> char" where
  "digit_at s i = (if 0 \<le> i \<and> i < int (length s) then s ! nat i else CHR ''0'')"

definition float_text :: "nat \<times> int \<Rightarrow> string" where
  "float_text Dx =
     (case Dx of (D, x) \<Rightarrow>
        (let mant = TrimRight (CHR ''0'') (show_nat D); nd = int (length mant); dexp = x + 1;
             eprec = (if 10 > nd \<and> nd \<ge> dexp then nd else 10)
         in if x < - 4 \<or> eprec \<le> x then
              [hd mant] @ (if nd > 1 then CHR ''.'' # tl mant else []) @ ''e'' @ show_exp x
            else
              (let prec = nat (max ((if 10 > dexp then nd else 10) - dexp) 0) in
               (if dexp > 0 then map (\<lambda>i. digit_at mant (int i)) [0 ..< nat dexp] else ''0'') @
               (if prec > 0 then CHR ''.'' # map (\<lambda>i. digit_at mant (dexp + int i)) [0 ..< prec] else []))))"

definition weiToEther :: "nat \<Rightarrow> string" where
  "weiToEther wei = (if wei = 0 then ''0'' else float_text (case float_quo wei (10 ^ 18) of (m, e) \<Rightarrow> ten_digits m e))"

subsection \<open>Scanning\<close>

definition buildDepositEvent :: "chain_tx \<Rightarrow> chain_block \<Rightarrow> string \<Rightarrow> string \<Rightarrow> nat \<Rightarrow> Scanner \<Rightarrow> scanned_deposit" where
  "buildDepositEvent tx block toAddr uid confirmations s =
     \<lparr>sd_TxHash = tx_Hash tx, sd_Currency = ''ETH'', sd_Chain = ''ethereum'',
      sd_FromAddress = (case tx_Sender tx of None \<Rightarrow> '''' | Some a \<Rightarrow> a), sd_ToAddress = toAddr,
      sd_Amount = weiToEther (tx_Value tx), sd_BlockNumber = bk_Number block, sd_Confirmations = confirmations,
      sd_RequiredConfirmations = sc_confirmations s\<rparr>"

text \<open>One transaction: reported if its recipient is watched, and once more if it carries a value.\<close>

definition scan_tx :: "(string \<Rightarrow> string) \<Rightarrow> Scanner \<Rightarrow> nat \<Rightarrow> nat \<Rightarrow> chain_block \<Rightarrow> chain_tx \<Rightarrow> scanned_deposit list" where
  "scan_tx hex s currentBlock blockNum block tx =
     (case tx_To tx of
        None \<Rightarrow> []
      | Some to \<Rightarrow>
          (case sc_watchedAddrs s (hex to) of
             None \<Rightarrow> []
           | Some uid \<Rightarrow>
               (let dep = buildDepositEvent tx block (hex to) uid (currentBlock - blockNum + 1) s in
                [dep] @ (if tx_Value tx > 0 then [dep] else []))))"

text \<open>A block that the node does not deliver is skipped.\<close>

definition scan_block :: "(string \<Rightarrow> string) \<Rightarrow> node \<Rightarrow> Scanner \<Rightarrow> nat \<Rightarrow> nat \<Rightarrow> scanned_deposit list" where
  "scan_block hex n s currentBlock blockNum =
     (case nd_BlockByNumber n blockNum of
        Inl _ \<Rightarrow> []
      | Inr block \<Rightarrow> concat (map (scan_tx hex s currentBlock blockNum block) (bk_Transactions block)))"

definition ScanNewBlocks :: "(string \<Rightarrow> string) \<Rightarrow> node \<Rightarrow> Scanner \<Rightarrow> (error + scanned_deposit list) \<times> Scanner" where
  "ScanNewBlocks hex n s =
     (case nd_BlockNumber n of
        Inl e \<Rightarrow> (Inl e, s)
      | Inr currentBlock \<Rightarrow>
          if sc_lastBlock s = 0 then (Inr [], s\<lparr>sc_lastBlock := currentBlock\<rparr>)
          else
            (Inr (concat (map (scan_block hex n s currentBlock) [sc_lastBlock s + 1 ..< currentBlock + 1])),
             s\<lparr>sc_lastBlock := currentBlock\<rparr>))"

subsection \<open>From the monitor to the wallet service\<close>

text \<open>The payload that the monitor publishes; the user is not filled in.\<close>

definition deposit_payload :: "scanned_deposit \<Rightarrow> json_object" where
  "deposit_payload d = marshal_DepositDetected
     \<lparr>ddp_TxHash = sd_TxHash d, ddp_Currency = sd_Currency d, ddp_Chain = sd_Chain d,
      ddp_FromAddress = sd_FromAddress d, ddp_ToAddress = sd_ToAddress d, ddp_Amount = sd_Amount d,
      ddp_BlockNumber = int (sd_BlockNumber d), ddp_Confirmations = int (sd_Confirmations d),
      ddp_RequiredConfirmations = int (sd_RequiredConfirmations d), ddp_UserID = ''''\<rparr>"

text \<open>\<open>GetPayload\<close> into the wallet's \<open>DepositEvent\<close>, whose fields have no tags: members match by the
  Go names. \<open>Decimal\<close> is a struct without exported fields and without an unmarshaller, so only an
  object can be decoded into it (and leaves it zero).\<close>

definition json_uint64 :: "string \<Rightarrow> json_object \<Rightarrow> error + 64 word" where
  "json_uint64 k ms =
     (case json_member k ms of
        None \<Rightarrow> Inr 0
      | Some (JInt i) \<Rightarrow> if 0 \<le> i \<and> i < 2 ^ 64 then Inr (word_of_int i)
          else Inl (Errorf (''json: cannot unmarshal number into Go struct field '' @ k))
      | Some _ \<Rightarrow> Inl (Errorf (''json: cannot unmarshal into Go struct field '' @ k)))"

definition json_decimal :: "string \<Rightarrow> json_object \<Rightarrow> error + decimal" where
  "json_decimal k ms =
     (case json_member k ms of
        None \<Rightarrow> Inr NilDecimal
      | Some (JObj _) \<Rightarrow> Inr NilDecimal
      | Some _ \<Rightarrow> Inl (Errorf (''json: cannot unmarshal string into Go struct field '' @ k)))"

definition unmarshal_DepositEvent :: "json_object \<Rightarrow> error + DepositEvent" where
  "unmarshal_DepositEvent ms =
     bind_sum (json_string ''TxHash'' ms) (\<lambda>tx.
     bind_sum (json_string ''Currency'' ms) (\<lambda>cur.
     bind_sum (json_string ''Chain'' ms) (\<lambda>chain.
     bind_sum (json_string ''FromAddress'' ms) (\<lambda>fro.
     bind_sum (json_string ''ToAddress'' ms) (\<lambda>to.
     bind_sum (json_decimal ''Amount'' ms) (\<lambda>amt.
     bind_sum (json_uint64 ''BlockNumber'' ms) (\<lambda>bn.
     bind_sum (json_uint64 ''Confirmations'' ms) (\<lambda>cf.
     bind_sum (json_uint64 ''RequiredConfirmations'' ms) (\<lambda>rc.
     Inr \<lparr>de_TxHash = tx, de_Currency = cur, de_Chain = chain, de_FromAddress = fro, de_ToAddress = to,
       de_Amount = amt, de_BlockNumber = bn, de_Confirmations = cf, de_RequiredConfirmations = rc\<rparr>)))))))))"

definition deposit_handler ::
  "bool \<Rightarrow> json_object \<Rightarrow> db \<Rightarrow> error option \<times> db \<times> (string \<times> EventType \<times> json_object) list" where
  "deposit_handler bus ev d =
     (case unmarshal_DepositEvent ev of
        Inl e \<Rightarrow> (Some e, d, [])
      | Inr dep \<Rightarrow> ProcessDeposit bus dep d)"

text \<open>What the monitor does in one tick, and the delivery of its events.\<close>

definition monitor_tick :: "(string \<Rightarrow> string) \<Rightarrow> node \<Rightarrow> Scanner \<Rightarrow> json_object list \<times> Scanner" where
  "monitor_tick hex n s =
     (case ScanNewBlocks hex n s of
        (Inl _, s') \<Rightarrow> ([], s')
      | (Inr deps, s') \<Rightarrow> (map deposit_payload deps, s'))"

definition deliver_deposits :: "bool \<Rightarrow> json_object list \<Rightarrow> db \<Rightarrow> db" where
  "deliver_deposits bus evs d = foldl (\<lambda>d ev. fst (snd (deposit_handler bus ev d))) d evs"

subsection \<open>Properties\<close>

lemma lower_letters:
  "char_of (97 :: nat) = CHR ''a''" "char_of (99 :: nat) = CHR ''c''" "char_of (102 :: nat) = CHR ''f''"
  "char_of (104 :: nat) = CHR ''h''" "char_of (116 :: nat) = CHR ''t''"
  by code_simp+

lemma deposit_payload_refused: "\<exists>e. unmarshal_DepositEvent (deposit_payload d) = Inl e"
  by (simp add: unmarshal_DepositEvent_def deposit_payload_def marshal_DepositDetected_def json_string_def
      json_decimal_def ToLower_def to_lower_def lower_letters)

text \<open>C37. No deposit that the monitor reports is ever credited: whatever the chain, the watched
  addresses and the tables, the wallet service's handler refuses every event the monitor publishes
  (the amount is a JSON string, which does not decode into a \<open>Decimal\<close>), so all tables stay as they
  are.\<close>

theorem scanned_deposits_never_credited:
  "(\<forall>ev\<in>set (fst (monitor_tick hex n s)). \<exists>e. deposit_handler bus ev d = (Some e, d, [])) \<and>
   deliver_deposits bus (fst (monitor_tick hex n s)) d = d"
proof -
  have h: "\<exists>e. deposit_handler bus (deposit_payload dep) d = (Some e, d, [])" for dep d
    using deposit_payload_refused [of dep] by (auto simp: deposit_handler_def)
  obtain deps where evs: "fst (monitor_tick hex n s) = map deposit_payload deps"
  proof (cases "ScanNewBlocks hex n s")
    case (Pair r s')
    then show thesis
      by (cases r) (auto simp: monitor_tick_def intro: that [of "[]"] that)
  qed
  have "deliver_deposits bus (map deposit_payload deps) d = d"
  proof (induction deps)
    case (Cons dep deps)
    obtain e where "deposit_handler bus (deposit_payload dep) d = (Some e, d, [])" using h by blast
    with Cons show ?case by (simp add: deliver_deposits_def)
  qed (simp add: deliver_deposits_def)
  with h evs show ?thesis by auto
qed

lemma to_lower_hex_digit: "d < 16 \<Longrightarrow> to_lower (hex_digit d) = hex_digit d"
  by (auto simp: to_lower_def hex_digit_def)

lemma ToLower_hex_encode: "ToLower (hex_encode bs) = hex_encode bs"
proof (induction bs)
  case (Cons c bs)
  have "byte c < 16 * 16" using nat_of_char_less_256 [of c] by simp
  then have "byte c div 16 < 16" by (rule less_mult_imp_div_less)
  with Cons show ?case by (simp add: hex_encode_def ToLower_def to_lower_hex_digit)
qed (simp add: hex_encode_def ToLower_def)

lemma ToLower_PublicAddress: "ToLower (PublicAddress cr key) = PublicAddress cr key"
proof -
  have "ToLower (''0x'' @ x) = ''0x'' @ ToLower x" for x by (simp add: ToLower_def to_lower_def)
  then show ?thesis by (simp only: PublicAddress_def ToLower_hex_encode)
qed

text \<open>The scanner misses deposits to generated addresses: the wallet stores addresses in lower
  case and the monitor watches what is stored, while a recipient is looked up by its checksummed text;
  so if every watched address comes from \<open>PublicAddress\<close>, a transaction to an address whose checksum
  has an upper-case letter is never reported, even when that very address is watched.\<close>

theorem checksummed_recipient_missed:
  assumes "\<forall>k\<in>dom (sc_watchedAddrs s). \<exists>key. k = PublicAddress cr key" "tx_To tx = Some a"
    "ToLower (hex a) \<noteq> hex a" "nd_BlockNumber n = Inr cur" "nd_BlockByNumber n b = Inr block"
    "bk_Transactions block = [tx]" "sc_lastBlock s + 1 = b" "b = cur"
  shows "fst (ScanNewBlocks hex n s) = Inr []"
proof -
  have "sc_watchedAddrs s (hex a) = None"
    using assms(1,3) ToLower_PublicAddress by (metis domIff)
  with assms show ?thesis
    by (simp add: ScanNewBlocks_def scan_block_def scan_tx_def)
qed

fun scan_all :: "(string \<Rightarrow> string) \<Rightarrow> node list \<Rightarrow> Scanner \<Rightarrow> scanned_deposit list" where
  "scan_all hex [] s = []"
| "scan_all hex (n # ns) s =
     (case ScanNewBlocks hex n s of
        (Inl _, s') \<Rightarrow> scan_all hex ns s'
      | (Inr deps, s') \<Rightarrow> deps @ scan_all hex ns s')"

definition node_ok :: "nat \<Rightarrow> node \<Rightarrow> bool" where
  "node_ok h n \<longleftrightarrow> (\<forall>c. nd_BlockNumber n = Inr c \<longrightarrow> h \<le> c) \<and>
     (\<forall>b blk. nd_BlockByNumber n b = Inr blk \<longrightarrow> bk_Number blk = b)"

lemma scan_tx_block:
  "d \<in> set (scan_tx hex s h b blk tx) \<Longrightarrow> sd_BlockNumber d = bk_Number blk"
  by (auto simp: scan_tx_def buildDepositEvent_def Let_def split: option.splits if_splits)

lemma scan_block_number:
  assumes "d \<in> set (scan_block hex n s h b)" "\<And>blk. nd_BlockByNumber n b = Inr blk \<Longrightarrow> bk_Number blk = b"
  shows "sd_BlockNumber d = b"
proof (cases "nd_BlockByNumber n b")
  case (Inr blk)
  with assms show ?thesis by (auto simp: scan_block_def dest: scan_tx_block)
qed (use assms in \<open>simp add: scan_block_def\<close>)

lemma ScanNewBlocks_above:
  assumes "ScanNewBlocks hex n s = (Inr deps, s')" "\<And>b blk. nd_BlockByNumber n b = Inr blk \<Longrightarrow> bk_Number blk = b"
    "d \<in> set deps"
  shows "sc_lastBlock s < sd_BlockNumber d"
proof -
  obtain cur where cur: "nd_BlockNumber n = Inr cur"
    using assms(1) by (cases "nd_BlockNumber n") (simp_all add: ScanNewBlocks_def)
  have "sc_lastBlock s \<noteq> 0"
  proof
    assume "sc_lastBlock s = 0"
    with assms(1,3) cur show False by (auto simp: ScanNewBlocks_def)
  qed
  with assms(1) cur have "deps = concat (map (scan_block hex n s cur) [sc_lastBlock s + 1 ..< cur + 1])"
    by (simp add: ScanNewBlocks_def)
  with assms(3) obtain b where "sc_lastBlock s + 1 \<le> b" "d \<in> set (scan_block hex n s cur b)" by auto
  moreover from this(2) assms(2) have "sd_BlockNumber d = b" by (rule scan_block_number)
  ultimately show ?thesis by simp
qed

lemma scan_all_above:
  assumes "\<forall>n\<in>set ns. node_ok h n" "h \<le> sc_lastBlock s" "d \<in> set (scan_all hex ns s)"
  shows "h < sd_BlockNumber d"
  using assms
proof (induction ns arbitrary: s)
  case (Cons n ns)
  obtain r s' where q: "ScanNewBlocks hex n s = (r, s')" by fastforce
  have n: "node_ok h n" using Cons.prems(1) by simp
  have s': "h \<le> sc_lastBlock s'"
  proof (cases "nd_BlockNumber n")
    case (Inl e)
    with q Cons.prems(2) show ?thesis by (auto simp: ScanNewBlocks_def)
  next
    case (Inr cur)
    with q have "sc_lastBlock s' = cur" by (auto simp: ScanNewBlocks_def split: if_splits)
    with n Inr show ?thesis by (simp add: node_ok_def)
  qed
  show ?case
  proof (cases r)
    case (Inl e)
    with q Cons s' show ?thesis by simp
  next
    case (Inr deps)
    with q Cons.prems(3) consider "d \<in> set deps" | "d \<in> set (scan_all hex ns s')" by auto
    then show ?thesis
    proof cases
      case 1
      have "sc_lastBlock s < sd_BlockNumber d"
        by (rule ScanNewBlocks_above [OF q [unfolded Inr] _ 1]) (use n in \<open>simp add: node_ok_def\<close>)
      with Cons.prems(2) show ?thesis by simp
    next
      case 2
      with Cons s' show ?thesis by simp
    qed
  qed
qed simp


definition sample_node :: "nat \<Rightarrow> node" where
  "sample_node h = \<lparr>nd_BlockNumber = Inr h, nd_BlockByNumber = (\<lambda>b. Inr \<lparr>bk_Number = b,
     bk_Transactions = [\<lparr>tx_Hash = ''0x1'', tx_To = Some ''A'', tx_Value = 0, tx_Sender = None\<rparr>]\<rparr>)\<rparr>"

theorem checksummed_recipient_missed_witness:
  "fst (ScanNewBlocks (\<lambda>_. ''0xA'') (sample_node 5)
     ((WatchAddress (PublicAddress sample_crypto 1) ''u1'' (NewScanner 12))\<lparr>sc_lastBlock := 4\<rparr>)) = Inr []"
proof -
  have "byte (to_lower (CHR ''A'')) = 97" by (simp add: to_lower_def)
  then have "to_lower (CHR ''A'') \<noteq> CHR ''A''" by auto
  then have "ToLower ''0xA'' \<noteq> ''0xA''" by (simp add: ToLower_def)
  then show ?thesis
    by (intro checksummed_recipient_missed [where cr = sample_crypto and b = 5 and cur = 5 and a = "''A''" and
        tx = "\<lparr>tx_Hash = ''0x1'', tx_To = Some ''A'', tx_Value = 0, tx_Sender = None\<rparr>" and
        block = "\<lparr>bk_Number = 5,
     bk_Transactions = [\<lparr>tx_Hash = ''0x1'', tx_To = Some ''A'', tx_Value = 0, tx_Sender = None\<rparr>]\<rparr>"])
      (auto simp: WatchAddress_def NewScanner_def sample_node_def)
qed


theorem scanned_deposits_never_credited_witness:
  "fst (monitor_tick (\<lambda>_. ''0xA'') (sample_node 5)
     ((WatchAddress ''0xA'' ''u1'' (NewScanner 12))\<lparr>sc_lastBlock := 4\<rparr>)) \<noteq> [] \<and>
   deliver_deposits True (fst (monitor_tick (\<lambda>_. ''0xA'') (sample_node 5)
     ((WatchAddress ''0xA'' ''u1'' (NewScanner 12))\<lparr>sc_lastBlock := 4\<rparr>))) wallet_db = wallet_db"
proof -
  have "fst (monitor_tick (\<lambda>_. ''0xA'') (sample_node 5)
     ((WatchAddress ''0xA'' ''u1'' (NewScanner 12))\<lparr>sc_lastBlock := 4\<rparr>)) \<noteq> []"
    by (simp add: monitor_tick_def ScanNewBlocks_def sample_node_def WatchAddress_def NewScanner_def
        scan_block_def scan_tx_def)
  with scanned_deposits_never_credited [THEN conjunct2] show ?thesis by blast
qed

end
