(* ===== verification/Telemetry.thy ===== *)
theory Telemetry
  imports Gateway "HOL-Library.Signed_Division"
begin

section \<open>Metrics and health (telemetry/metrics.go)\<close>

text \<open>
  The nine counters (64-bit, wrapping), their printing in the Prometheus text format with the
  hand-written \<open>itoa\<close>, and the health endpoint. A duration is given in nanoseconds. The text of a
  time is the parameter \<open>rfc3339\<close>.
\<close>

record Metrics =
  mt_RequestsTotal :: "64 word"
  mt_RequestDuration :: "64 word"
  mt_OrdersMatched :: "64 word"
  mt_MatchingDuration :: "64 word"
  mt_OrdersRejected :: "64 word"
  mt_TradesSettled :: "64 word"
  mt_SettlementErrors :: "64 word"
  mt_DepositsConfirmed :: "64 word"
  mt_WithdrawalsRequested :: "64 word"

definition no_metrics :: Metrics where
  "no_metrics = \<lparr>mt_RequestsTotal = 0, mt_RequestDuration = 0, mt_OrdersMatched = 0, mt_MatchingDuration = 0,
     mt_OrdersRejected = 0, mt_TradesSettled = 0, mt_SettlementErrors = 0, mt_DepositsConfirmed = 0,
     mt_WithdrawalsRequested = 0\<rparr>"

text \<open>\<open>Duration.Microseconds\<close> divides the nanoseconds by 1000, towards zero.\<close>

definition Microseconds :: "64 word \<Rightarrow> 64 word" where
  "Microseconds d = word_of_int (sint d sdiv 1000)"

definition RecordHTTP :: "64 word \<Rightarrow> Metrics \<Rightarrow> Metrics" where
  "RecordHTTP duration m = m\<lparr>mt_RequestsTotal := mt_RequestsTotal m + 1,
     mt_RequestDuration := mt_RequestDuration m + Microseconds duration\<rparr>"

definition RecordMatch :: "64 word \<Rightarrow> bool \<Rightarrow> Metrics \<Rightarrow> Metrics" where
  "RecordMatch duration rejected m =
     (let m' = (if rejected then m\<lparr>mt_OrdersRejected := mt_OrdersRejected m + 1\<rparr>
                else m\<lparr>mt_OrdersMatched := mt_OrdersMatched m + 1\<rparr>)
      in m'\<lparr>mt_MatchingDuration := mt_MatchingDuration m' + Microseconds duration\<rparr>)"

definition RecordSettlement :: "bool \<Rightarrow> Metrics \<Rightarrow> Metrics" where
  "RecordSettlement success m =
     (if success then m\<lparr>mt_TradesSettled := mt_TradesSettled m + 1\<rparr>
      else m\<lparr>mt_SettlementErrors := mt_SettlementErrors m + 1\<rparr>)"

definition RecordDeposit :: "Metrics \<Rightarrow> Metrics" where
  "RecordDeposit m = m\<lparr>mt_DepositsConfirmed := mt_DepositsConfirmed m + 1\<rparr>"

definition RecordWithdrawal :: "Metrics \<Rightarrow> Metrics" where
  "RecordWithdrawal m = m\<lparr>mt_WithdrawalsRequested := mt_WithdrawalsRequested m + 1\<rparr>"

lemma sint_quot_10: "0 \<le> sint (n :: 64 word) \<Longrightarrow> sint (word_of_int (sint n sdiv 10) :: 64 word) = sint n div 10"
proof -
  assume n: "0 \<le> sint n"
  then have "sint n sdiv 10 = sint n div 10" by (simp add: signed_divide_int_def sgn_if)
  moreover have "sint n < 2 ^ 63" using sint_lt [of n] by simp
  ultimately show ?thesis using n by (simp add: sint_sbintrunc' signed_take_bit_int_eq_self)
qed

text \<open>The loop of \<open>itoa\<close>, which runs while \<open>n > 0\<close> and puts each digit in front.\<close>

function itoa_loop :: "64 word \<Rightarrow> string \<Rightarrow> string" where
  "itoa_loop n b =
     (if sint n > 0 then
        itoa_loop (word_of_int (sint n sdiv 10)) (char_of (48 + nat (sint n smod 10)) # b)
      else b)"
  by auto

termination
  by (relation "measure (\<lambda>(n, b). nat (sint n))") (simp_all add: sint_quot_10)

declare itoa_loop.simps [simp del]

definition itoa :: "64 word \<Rightarrow> string" where
  "itoa n =
     (if n = 0 then ''0''
      else
        (let neg = sint n < 0; n' = (if neg then - n else n); b = itoa_loop n' [] in
         if neg then CHR ''-'' # b else b))"

definition writeMetric :: "string \<Rightarrow> string \<Rightarrow> string \<Rightarrow> 64 word \<Rightarrow> string" where
  "writeMetric name help typ v =
     ''# HELP '' @ name @ '' '' @ help @ [CHR 0x0A] @
     ''# TYPE '' @ name @ '' '' @ typ @ [CHR 0x0A] @
     name @ '' '' @ itoa v @ [CHR 0x0A]"

definition MetricsHandler :: "Metrics \<Rightarrow> response" where
  "MetricsHandler m = \<lparr>rs_Status = 200, rs_Header = [(''Content-Type'', ''text/plain; version=0.0.4'')],
     rs_Body = RawBody
       (writeMetric ''http_requests_total'' ''Total HTTP requests'' ''counter'' (mt_RequestsTotal m) @
        writeMetric ''http_request_duration_us'' ''Cumulative HTTP request duration in microseconds'' ''counter'' (mt_RequestDuration m) @
        writeMetric ''orders_matched_total'' ''Total matched orders'' ''counter'' (mt_OrdersMatched m) @
        writeMetric ''orders_rejected_total'' ''Total rejected orders'' ''counter'' (mt_OrdersRejected m) @
        writeMetric ''matching_duration_us'' ''Cumulative matching duration in microseconds'' ''counter'' (mt_MatchingDuration m) @
        writeMetric ''trades_settled_total'' ''Total settled trades'' ''counter'' (mt_TradesSettled m) @
        writeMetric ''settlement_errors_total'' ''Total settlement errors'' ''counter'' (mt_SettlementErrors m) @
        writeMetric ''deposits_confirmed_total'' ''Total confirmed deposits'' ''counter'' (mt_DepositsConfirmed m) @
        writeMetric ''withdrawals_requested_total'' ''Total withdrawal requests'' ''counter'' (mt_WithdrawalsRequested m))\<rparr>"

subsection \<open>Health\<close>

record HealthResponse =
  hr_Status :: string
  hr_Timestamp :: string
  hr_Services :: "(string \<times> string) list"

text \<open>The checks in the order the map is walked (JSON then sorts the names). A nil map has none.\<close>

definition run_check :: "string \<times> error option \<Rightarrow> HealthResponse \<Rightarrow> HealthResponse" where
  "run_check c resp =
     (case c of
        (name, Some e) \<Rightarrow> resp\<lparr>hr_Services := hr_Services resp @ [(name, ''unhealthy: '' @ error_text e)],
                              hr_Status := ''degraded''\<rparr>
      | (name, None) \<Rightarrow> resp\<lparr>hr_Services := hr_Services resp @ [(name, ''healthy'')]\<rparr>)"

definition HealthHandler :: "string \<Rightarrow> (string \<times> error option) list \<Rightarrow> nat \<times> HealthResponse" where
  "HealthHandler rfc3339 checks =
     (let resp = fold run_check checks \<lparr>hr_Status = ''ok'', hr_Timestamp = rfc3339, hr_Services = []\<rparr>
      in (if hr_Status resp \<noteq> ''ok'' then 503 else 200, resp))"

definition ReadyHandler :: response where
  "ReadyHandler = \<lparr>rs_Status = 200, rs_Header = [], rs_Body = RawBody ''{\"status\":\"ready\"}''\<rparr>"

subsection \<open>Properties\<close>

lemma itoa_loop_show: "0 < sint n \<Longrightarrow> itoa_loop n b = show_nat (nat (sint n)) @ b"
proof (induction n b rule: itoa_loop.induct)
  case (1 n b)
  have q: "sint (word_of_int (sint n sdiv 10) :: 64 word) = sint n div 10"
    using 1 by (simp add: sint_quot_10)
  have r: "char_of (48 + nat (sint n smod 10)) = digit_char (nat (sint n) mod 10)"
    using 1 by (simp add: signed_modulo_int_def digit_char_def nat_mod_distrib)
  show ?case
  proof (cases "sint n < 10")
    case True
    then have "itoa_loop (word_of_int (sint n sdiv 10)) c = c" for c
      by (subst itoa_loop.simps) (use q 1 in simp)
    moreover from True 1 have "nat (sint n) < 10" by simp
    ultimately show ?thesis using 1(2) r by (subst itoa_loop.simps, subst show_nat.simps) simp
  next
    case False
    have d: "nat (sint n) div 10 = nat (sint n div 10)" using 1 by (simp add: nat_div_distrib)
    have "itoa_loop n b = itoa_loop (word_of_int (sint n sdiv 10)) (digit_char (nat (sint n) mod 10) # b)"
      by (subst itoa_loop.simps) (use r 1 in simp)
    also have "\<dots> = show_nat (nat (sint n) div 10) @ digit_char (nat (sint n) mod 10) # b"
      using 1 False q r d by simp
    also have "\<dots> = show_nat (nat (sint n)) @ b"
      by (subst (2) show_nat.simps) (use False in simp)
    finally show ?thesis .
  qed
qed

text \<open>The hand-written \<open>itoa\<close> of the metrics endpoint terminates on every 64-bit integer and
  prints its decimal text, with one exception: the least one, whose negation overflows to itself,
  is printed as a lone minus sign. So every counter that has not wrapped around is printed as its
  value.\<close>

theorem itoa_decimal:
  "itoa n = (if sint n = - (2 ^ 63) then ''-'' else show_int (sint n)) \<and>
   writeMetric name help typ n =
     ''# HELP '' @ name @ '' '' @ help @ [CHR 0x0A] @ ''# TYPE '' @ name @ '' '' @ typ @ [CHR 0x0A] @
     name @ '' '' @ (if sint n = - (2 ^ 63) then ''-'' else show_int (sint n)) @ [CHR 0x0A]"
proof -
  have "itoa n = (if sint n = - (2 ^ 63) then ''-'' else show_int (sint n))"
  proof (cases "sint n < 0")
    case True
    then have nz: "n \<noteq> 0" by auto
    have ge: "- (2 ^ 63) \<le> sint n" using sint_ge [of n] by simp
    have neg: "sint (- n) = signed_take_bit 63 (- sint n)" by (simp add: sint_word_minus)
    show ?thesis
    proof (cases "sint n = - (2 ^ 63)")
      case least: True
      then have "sint (- n) = - (2 ^ 63)" using neg by (simp add: signed_take_bit_eq_take_bit_shift take_bit_eq_mod)
      then have "itoa_loop (- n) [] = []" by (subst itoa_loop.simps) simp
      with True nz least show ?thesis by (simp add: itoa_def Let_def)
    next
      case False
      with ge have "sint (- n) = - sint n"
        using neg True by (simp add: signed_take_bit_int_eq_self)
      with True nz False show ?thesis by (simp add: itoa_def Let_def itoa_loop_show show_int_def)
    qed
  next
    case False
    show ?thesis
    proof (cases "n = 0")
      case True
      have "show_nat 0 = ''0''" by code_simp
      with True show ?thesis by (simp add: itoa_def show_int_def)
    next
      case nz: False
      with False have "0 < sint n" by (metis linorder_cases sint_0 signed_word_eqI)
      with nz show ?thesis by (simp add: itoa_def Let_def itoa_loop_show show_int_def)
    qed
  qed
  then show ?thesis by (simp only: writeMetric_def)
qed

lemma fold_run_check:
  "fold run_check checks r =
     r\<lparr>hr_Services := hr_Services r @ map (\<lambda>(name, res). (name,
          case res of None \<Rightarrow> ''healthy'' | Some e \<Rightarrow> ''unhealthy: '' @ error_text e)) checks,
       hr_Status := if \<exists>c\<in>set checks. snd c \<noteq> None then ''degraded'' else hr_Status r\<rparr>"
  by (induction checks arbitrary: r) (auto simp: run_check_def split: prod.splits option.splits)

text \<open>The health endpoint answers 503 and \<open>degraded\<close> exactly when some check fails, and reports
  each check under its name with its error. A gateway that runs without a database has no checks, so
  it always reports itself healthy.\<close>

theorem health_reports_checks:
  "let (code, resp) = HealthHandler now checks in
     (code = 503 \<longleftrightarrow> (\<exists>c\<in>set checks. snd c \<noteq> None)) \<and> (code = 200 \<longleftrightarrow> hr_Status resp = ''ok'') \<and>
     hr_Services resp = map (\<lambda>(name, res). (name,
          case res of None \<Rightarrow> ''healthy'' | Some e \<Rightarrow> ''unhealthy: '' @ error_text e)) checks"
  by (simp add: HealthHandler_def fold_run_check)

subsection \<open>Logging (telemetry/logging.go)\<close>

text \<open>The set-up of the global logger, and the fields that a context gives its logger. A context is the
  list of its values, the newest first.\<close>

datatype log_level = DebugLevel | InfoLevel

record log_config =
  lc_console :: bool
  lc_caller :: bool
  lc_level :: log_level

definition InitLogger :: "string \<Rightarrow> log_config" where
  "InitLogger env =
     (let console = (env = ''development'' \<or> env = ''test'') in
      \<lparr>lc_console = console, lc_caller = \<not> console,
       lc_level = (if env = ''development'' then DebugLevel else InfoLevel)\<rparr>)"

datatype contextKey = traceIDKey | userIDKey

type_synonym log_context = "(contextKey \<times> string) list"

definition WithTraceID :: "log_context \<Rightarrow> string \<Rightarrow> log_context" where
  "WithTraceID ctx traceID = (traceIDKey, traceID) # ctx"

definition WithUserID :: "log_context \<Rightarrow> string \<Rightarrow> log_context" where
  "WithUserID ctx userID = (userIDKey, userID) # ctx"

definition Logger :: "log_context \<Rightarrow> (string \<times> string) list" where
  "Logger ctx =
     (case map_of ctx traceIDKey of Some traceID \<Rightarrow> [(''trace_id'', traceID)] | None \<Rightarrow> []) @
     (case map_of ctx userIDKey of Some userID \<Rightarrow> [(''user_id'', userID)] | None \<Rightarrow> [])"

text \<open>Each field shows the value set last, and setting one does not touch the other.\<close>

lemma logger_fields:
  "map_of (Logger (WithTraceID ctx t)) ''trace_id'' = Some t"
  "map_of (Logger (WithTraceID ctx t)) ''user_id'' = map_of (Logger ctx) ''user_id''"
  "map_of (Logger (WithUserID ctx u)) ''user_id'' = Some u"
  "map_of (Logger (WithUserID ctx u)) ''trace_id'' = map_of (Logger ctx) ''trace_id''"
  by (auto simp: Logger_def WithTraceID_def WithUserID_def split: option.splits)

end
