(* ===== verification/Startup.thy ===== *)
theory Startup
  imports Order_Service User_Service
begin

section \<open>Configuration and start of the services (config/config.go, cmd)\<close>

text \<open>
  The configuration read from the environment, the choice of the token keys and of the event bus at
  start, and the order service as the gateway builds it. \<open>env\<close> maps the name of a variable to its
  value, the empty string when it is not set (\<open>os.Getenv\<close>). \<open>log.Fatal\<close> ends the process: \<open>Inl\<close>
  with its message. Connections, listeners and signals are not modelled.
\<close>

subsection \<open>Configuration\<close>

record PostgresConfig =
  pg_Host :: string
  pg_Port :: "64 word"
  pg_User :: string
  pg_Password :: string
  pg_Database :: string
  pg_MaxConns :: "64 word"

record RedisConfig =
  rc_Host :: string
  rc_Port :: "64 word"
  rc_Password :: string
  rc_DB :: "64 word"

record KafkaSettings =
  ks_Brokers :: "string list"
  ks_GroupID :: string

record ServerConfig =
  sv_GRPCPort :: "64 word"
  sv_HTTPPort :: "64 word"
  sv_WSPort :: "64 word"
  sv_MetricsPort :: "64 word"
  sv_ReadTimeout :: int

record ChainConfig =
  cc_Name :: string
  cc_ChainID :: "64 word"
  cc_RPCURLs :: "string list"
  cc_ConfirmationDepth :: "64 word"
  cc_MaxReorgDepth :: "64 word"
  cc_PollInterval :: int

record Config =
  cf_Env :: string
  cf_Postgres :: PostgresConfig
  cf_Redis :: RedisConfig
  cf_Kafka :: KafkaSettings
  cf_Server :: ServerConfig
  cf_Chains :: "ChainConfig list"

definition envOrDefault :: "(string \<Rightarrow> string) \<Rightarrow> string \<Rightarrow> string \<Rightarrow> string" where
  "envOrDefault env key dflt = (if env key \<noteq> '''' then env key else dflt)"

text \<open>\<open>strconv.Atoi\<close>: a sign and decimal digits within the range of a 64-bit integer.\<close>

definition Atoi :: "string \<Rightarrow> 64 word option" where
  "Atoi s =
     (case big_SetString s of
        None \<Rightarrow> None
      | Some i \<Rightarrow> if - (2 ^ 63) \<le> i \<and> i < 2 ^ 63 then Some (word_of_int i) else None)"

definition envIntOrDefault :: "(string \<Rightarrow> string) \<Rightarrow> string \<Rightarrow> 64 word \<Rightarrow> 64 word" where
  "envIntOrDefault env key dflt =
     (if env key \<noteq> '''' then (case Atoi (env key) of Some n \<Rightarrow> n | None \<Rightarrow> dflt) else dflt)"

definition DSN :: "PostgresConfig \<Rightarrow> string" where
  "DSN c = ''postgres://'' @ pg_User c @ '':'' @ pg_Password c @ ''@'' @ pg_Host c @ '':'' @
     show_int (sint (pg_Port c)) @ ''/'' @ pg_Database c @ ''?sslmode=disable''"

definition Addr :: "RedisConfig \<Rightarrow> string" where
  "Addr c = rc_Host c @ '':'' @ show_int (sint (rc_Port c))"

definition Load :: "(string \<Rightarrow> string) \<Rightarrow> Config" where
  "Load env =
     \<lparr>cf_Env = envOrDefault env ''ENV'' ''development'',
      cf_Postgres =
        \<lparr>pg_Host = envOrDefault env ''PG_HOST'' ''localhost'',
         pg_Port = envIntOrDefault env ''PG_PORT'' 5432,
         pg_User = envOrDefault env ''PG_USER'' ''exchange'',
         pg_Password = envOrDefault env ''PG_PASSWORD'' ''exchange_dev'',
         pg_Database = envOrDefault env ''PG_DATABASE'' ''exchange'',
         pg_MaxConns = envIntOrDefault env ''PG_MAX_CONNS'' 50\<rparr>,
      cf_Redis =
        \<lparr>rc_Host = envOrDefault env ''REDIS_HOST'' ''localhost'',
         rc_Port = envIntOrDefault env ''REDIS_PORT'' 6379,
         rc_Password = envOrDefault env ''REDIS_PASSWORD'' '''',
         rc_DB = envIntOrDefault env ''REDIS_DB'' 0\<rparr>,
      cf_Kafka =
        \<lparr>ks_Brokers = [envOrDefault env ''KAFKA_BROKERS'' ''localhost:9092''],
         ks_GroupID = envOrDefault env ''KAFKA_GROUP_ID'' ''exchange''\<rparr>,
      cf_Server =
        \<lparr>sv_GRPCPort = envIntOrDefault env ''GRPC_PORT'' 50051,
         sv_HTTPPort = envIntOrDefault env ''HTTP_PORT'' 8080,
         sv_WSPort = envIntOrDefault env ''WS_PORT'' 8081,
         sv_MetricsPort = envIntOrDefault env ''METRICS_PORT'' 9090,
         sv_ReadTimeout = 30 * 1000000000\<rparr>,
      cf_Chains =
        [\<lparr>cc_Name = ''ethereum'', cc_ChainID = 1,
          cc_RPCURLs = [envOrDefault env ''ETH_RPC_URL'' ''http://localhost:8545''],
          cc_ConfirmationDepth = 12, cc_MaxReorgDepth = 12, cc_PollInterval = 5 * 1000000000\<rparr>]\<rparr>"

subsection \<open>The event bus of a service\<close>

datatype bus_choice = KafkaBus "string list" string | RedisBus

definition createEventBus :: "Config \<Rightarrow> string \<Rightarrow> bus_choice" where
  "createEventBus cfg groupID =
     (case ks_Brokers (cf_Kafka cfg) of
        [] \<Rightarrow> RedisBus
      | b # _ \<Rightarrow> if b \<noteq> '''' then KafkaBus (ks_Brokers (cf_Kafka cfg)) groupID else RedisBus)"

text \<open>The blockchain monitor takes Redis, whatever the configuration says.\<close>

definition monitor_bus :: bus_choice where "monitor_bus = RedisBus"

subsection \<open>Token keys\<close>

text \<open>The same decision stands in the gateway's \<open>main\<close> and in \<open>loadAuthService\<close> of the user
  service; the messages differ. \<open>load\<close> is \<open>LoadRSAKeyPair\<close> over the file system.\<close>

definition loadAuthService ::
  "(string \<Rightarrow> string \<Rightarrow> error + nat \<times> nat) \<Rightarrow> (string \<Rightarrow> string) \<Rightarrow> Config \<Rightarrow> string + AuthService" where
  "loadAuthService load env cfg =
     (let accessSecret = env ''JWT_ACCESS_SECRET''; refreshSecret = env ''JWT_REFRESH_SECRET'';
          privKeyPath = env ''JWT_PRIVATE_KEY_PATH'' in
      if privKeyPath \<noteq> '''' then
        (let pubKeyPath = env ''JWT_PUBLIC_KEY_PATH'' in
         if pubKeyPath = '''' then Inl ''JWT_PUBLIC_KEY_PATH required''
         else
           (case load privKeyPath pubKeyPath of
              Inl e \<Rightarrow> Inl ''load RSA keys''
            | Inr (priv, pub) \<Rightarrow> Inr (NewAuthService (Some priv) (Some pub))))
      else if accessSecret \<noteq> '''' then Inr (NewAuthServiceWithSecrets accessSecret refreshSecret)
      else if cf_Env cfg = ''production'' then Inl ''JWT keys required in production''
      else Inr (NewAuthServiceWithSecrets ''dev-access-secret'' ''dev-refresh-secret''))"

definition gateway_authService ::
  "(string \<Rightarrow> string \<Rightarrow> error + nat \<times> nat) \<Rightarrow> (string \<Rightarrow> string) \<Rightarrow> Config \<Rightarrow> string + AuthService" where
  "gateway_authService load env cfg =
     (let accessSecret = env ''JWT_ACCESS_SECRET''; refreshSecret = env ''JWT_REFRESH_SECRET'';
          privKeyPath = env ''JWT_PRIVATE_KEY_PATH'' in
      if privKeyPath \<noteq> '''' then
        (let pubKeyPath = env ''JWT_PUBLIC_KEY_PATH'' in
         if pubKeyPath = '''' then
           Inl ''JWT_PUBLIC_KEY_PATH must be set when JWT_PRIVATE_KEY_PATH is set''
         else
           (case load privKeyPath pubKeyPath of
              Inl e \<Rightarrow> Inl ''failed to load RSA keys''
            | Inr (privKey, pubKey) \<Rightarrow> Inr (NewAuthService (Some privKey) (Some pubKey))))
      else if accessSecret \<noteq> '''' then Inr (NewAuthServiceWithSecrets accessSecret refreshSecret)
      else if cf_Env cfg = ''production'' then
        Inl ''JWT_PRIVATE_KEY_PATH or JWT_ACCESS_SECRET must be set in production''
      else Inr (NewAuthServiceWithSecrets ''dev-access-secret'' ''dev-refresh-secret''))"

text \<open>The user service of its process.\<close>

definition start_user_service ::
  "(string \<Rightarrow> string \<Rightarrow> error + nat \<times> nat) \<Rightarrow> (string \<Rightarrow> string) \<Rightarrow> string + user_service" where
  "start_user_service load env =
     (let cfg = Load env in
      case loadAuthService load env cfg of
        Inl msg \<Rightarrow> Inl msg
      | Inr authSvc \<Rightarrow> Inr (user_NewService authSvc (cf_Env cfg = ''production'')))"

subsection \<open>The gateway's order service\<close>

definition defaultMarkets :: "MarketConfig list" where
  "defaultMarkets =
     [\<lparr>mc_Symbol = ''ETH-USDT'', mc_BaseCurrency = ''ETH'', mc_QuoteCurrency = ''USDT'',
       mc_PriceTick = decimalMust ''0.01'', mc_QtyStep = decimalMust ''0.0001'',
       mc_MinOrderQty = decimalMust ''0.001'', mc_MaxOrderQty = decimalMust ''100'',
       mc_MinNotional = decimalMust ''10'', mc_Status = ''active''\<rparr>]"

text \<open>With a connection to Postgres and without one.\<close>

definition gateway_orderService :: "bool \<Rightarrow> OrderService" where
  "gateway_orderService pool =
     (if pool then order_NewService (NewValidator defaultMarkets True None) True
      else order_NewService (NewValidator [] False None) False)"

subsection \<open>Properties\<close>

lemma loads_same:
  "(\<exists>msg. loadAuthService load env cfg = Inl msg) = (\<exists>msg. gateway_authService load env cfg = Inl msg) \<and>
   (\<forall>a. loadAuthService load env cfg = Inr a \<longleftrightarrow> gateway_authService load env cfg = Inr a)"
  by (auto simp: loadAuthService_def gateway_authService_def Let_def split: sum.splits)

text \<open>A gateway and a user service started in the same environment agree on the token keys: if
  one starts, so does the other, and a token that the user service issues (with RSA keys only if the
  two files hold one key pair) is accepted by the gateway as that user for fifteen minutes.\<close>

theorem gateway_accepts_issued_tokens:
  assumes laws: "jwt_laws meth sign parse t"
    and u: "start_user_service load env = Inr us" and conf: "key_configured (usv_auth us)"
    and tok: "GenerateJWT sign now now' uid (usv_auth us) = Inr tok" "t < unix (now' + jwtExpiry)"
  shows "\<exists>a. gateway_authService load env (Load env) = Inr a \<and> VerifyJWT parse tok a = Inr uid"
proof -
  obtain a where a: "loadAuthService load env (Load env) = Inr a" "usv_auth us = a"
    using u by (auto simp: start_user_service_def user_NewService_def Let_def split: sum.splits)
  then have "gateway_authService load env (Load env) = Inr a" using loads_same by blast
  moreover have "VerifyJWT parse tok a = Inr uid"
    using issued_token_verifies [OF laws conf tok] a by simp
  ultimately show ?thesis by blast
qed

text \<open>C39. Only the literal value \<open>production\<close> of \<open>ENV\<close> protects the token keys: in any other
  environment without JWT variables the gateway starts with a secret that stands in the source, and
  whoever signs with it is accepted as any user they like, with any life time.\<close>

theorem default_secret_forges_tokens:
  assumes laws: "jwt_laws meth sign parse t" and env: "env ''ENV'' \<noteq> ''production''"
    "env ''JWT_PRIVATE_KEY_PATH'' = ''''" "env ''JWT_ACCESS_SECRET'' = ''''"
    and forged: "sign (MethodHMAC alg) (SecretKey ''dev-access-secret'')
      \<lparr>cl_sub = Some uid, cl_iat = i, cl_exp = Some e\<rparr> = Inr tok" "t < e"
  shows "\<exists>a. gateway_authService load env (Load env) = Inr a \<and> VerifyJWT parse tok a = Inr uid"
proof -
  let ?a = "NewAuthServiceWithSecrets ''dev-access-secret'' ''dev-refresh-secret''"
  let ?c = "\<lparr>cl_sub = Some uid, cl_iat = i, cl_exp = Some e\<rparr>"
  have "cf_Env (Load env) \<noteq> ''production''" using env(1) by (simp add: Load_def envOrDefault_def)
  then have a: "gateway_authService load env (Load env) = Inr ?a"
    using env by (simp add: gateway_authService_def)
  have m: "meth tok = MethodHMAC alg" using laws forged(1) by (rule jwt_laws_meth)
  have "keyFunc ?a (MethodHMAC alg) = Inr (SecretKey ''dev-access-secret'')"
    by (simp add: keyFunc_def NewAuthServiceWithSecrets_def)
  moreover have "key_pair (SecretKey ''dev-access-secret'') (SecretKey ''dev-access-secret'')"
    by (simp add: key_pair_def)
  moreover have "unexpired t ?c" using forged(2) by (simp add: unexpired_def)
  ultimately have "parse (keyFunc ?a) tok = Inr ?c"
    using forged(1) m unfolding jwt_laws_parse [OF laws] by metis
  with a show ?thesis by (intro exI [of _ ?a]) (simp add: VerifyJWT_def)
qed

text \<open>A gateway that starts without its database refuses every order, at the first check and
  without touching engine or tables; with the database it trades the one market \<open>ETH-USDT\<close>, and an
  order for any other symbol is refused in the same way.\<close>

theorem orders_need_database:
  "PlaceOrder (gateway_orderService False) oid now eng req d =
     Inr (Inl (WrapBefore ''order validation: '' ErrMarketNotAvailable), d) \<and>
   (req_Symbol req \<noteq> ''ETH-USDT'' \<longrightarrow>
     PlaceOrder (gateway_orderService True) oid now eng req d =
       Inr (Inl (WrapBefore ''order validation: '' ErrMarketNotAvailable), d))"
  by (simp add: PlaceOrder_def Validate_def gateway_orderService_def order_NewService_def NewValidator_def defaultMarkets_def)

theorem orders_need_database_witness:
  "PlaceOrder (gateway_orderService True) ''ord_1'' 5 (\<lambda>_. ([], None, None))
     ((sample_request ''u1'' SideBuy OrderTypeLimit 1 1)\<lparr>req_Symbol := ''BTC-USDT''\<rparr>) sample_db =
     Inr (Inl (WrapBefore ''order validation: '' ErrMarketNotAvailable), sample_db)"
  using orders_need_database [of "''ord_1''" 5 "\<lambda>_. ([], None, None)"
      "(sample_request ''u1'' SideBuy OrderTypeLimit 1 1)\<lparr>req_Symbol := ''BTC-USDT''\<rparr>" sample_db] by simp

definition secret_env :: "string \<Rightarrow> string" where
  "secret_env k = (if k = ''JWT_ACCESS_SECRET'' then ''s3cret'' else if k = ''JWT_REFRESH_SECRET'' then ''r'' else '''')"

theorem gateway_accepts_issued_tokens_witness:
  "\<exists>a. gateway_authService (\<lambda>_ _. Inl (Errorf ''no'')) secret_env (Load secret_env) = Inr a \<and>
     VerifyJWT one_parse ''tok'' a = Inr ''u1''"
proof (rule gateway_accepts_issued_tokens [OF one_laws])
  show "start_user_service (\<lambda>_ _. Inl (Errorf ''no'')) secret_env = Inr (user_NewService one_service False)"
    by (simp add: start_user_service_def loadAuthService_def secret_env_def Load_def envOrDefault_def
        one_service_def)
  show "key_configured (usv_auth (user_NewService one_service False))"
    by (simp add: user_NewService_def key_configured_def one_service_def NewAuthServiceWithSecrets_def)
  show "GenerateJWT one_sign 0 0 ''u1'' (usv_auth (user_NewService one_service False)) = Inr ''tok''"
    by (simp add: user_NewService_def GenerateJWT_def one_service_def NewAuthServiceWithSecrets_def
        one_sign_def one_claims_def unix_def jwtExpiry_def)
  show "(10::int) < unix (0 + jwtExpiry)" by (simp add: unix_def jwtExpiry_def)
qed

definition dev_env :: "string \<Rightarrow> string" where
  "dev_env k = (if k = ''ENV'' then ''staging'' else '''')"

definition dev_sign :: "jwt_method \<Rightarrow> jwt_key \<Rightarrow> jwt_claims \<Rightarrow> error + string" where
  "dev_sign m k c =
     (if m = MethodHMAC ''HS256'' \<and> k = SecretKey ''dev-access-secret'' \<and> c = one_claims then Inr ''tok''
      else Inl (Errorf ''no''))"

definition dev_parse :: "(jwt_method \<Rightarrow> error + jwt_key) \<Rightarrow> string \<Rightarrow> error + jwt_claims" where
  "dev_parse kf tok =
     (case kf (MethodHMAC ''HS256'') of
        Inl e \<Rightarrow> Inl e
      | Inr vk \<Rightarrow> if tok = ''tok'' \<and> vk = SecretKey ''dev-access-secret'' then Inr one_claims else Inl (Errorf ''no''))"

theorem default_secret_forges_tokens_witness:
  "\<exists>a. gateway_authService (\<lambda>_ _. Inl (Errorf ''no'')) dev_env (Load dev_env) = Inr a \<and>
     VerifyJWT dev_parse ''tok'' a = Inr ''u1''"
proof (rule default_secret_forges_tokens [where alg = "''HS256''" and i = 0 and e = 900 and t = 10])
  show "jwt_laws (\<lambda>_. MethodHMAC ''HS256'') dev_sign dev_parse 10"
    by (auto simp: jwt_laws_def dev_sign_def dev_parse_def key_pair_def unexpired_def one_claims_def
        split: sum.splits if_splits jwt_key.splits)
qed (simp_all add: dev_env_def dev_sign_def one_claims_def)

end
