(* ===== verification/Event_Transport.thy ===== *)
theory Event_Transport
  imports Events "HOL-Library.Multiset"
begin

section \<open>The Kafka and Redis event buses (events/kafka\_bus.go, redis\_bus.go)\<close>

text \<open>
  What the two buses do around their clients. JSON encoding and decoding of an event, the clients'
  answers and what they deliver are parameters: a list of what \<open>FetchMessage\<close> returns, one entry
  per round of the consumer loop until its context is cancelled, or the payloads the channel yields
  until it is closed. A handler acts on the state \<open>'s\<close> of its process, as for \<open>MemoryEventBus\<close>.
\<close>

subsection \<open>Kafka\<close>

record KafkaConfig =
  kc_Brokers :: "string list"
  kc_GroupID :: string

record kafka_message =
  km_Topic :: string
  km_Key :: string
  km_Value :: string

record KafkaEventBus =
  kb_config :: KafkaConfig
  kb_consumers :: "(string \<times> string) list"
  kb_closed :: bool

definition NewKafkaEventBus :: "KafkaConfig \<Rightarrow> KafkaEventBus" where
  "NewKafkaEventBus cfg = \<lparr>kb_config = cfg, kb_consumers = [], kb_closed = False\<rparr>"

text \<open>All events are encoded before anything is written.\<close>

fun kafka_messages :: "(Event \<Rightarrow> error + string) \<Rightarrow> string \<Rightarrow> Event list \<Rightarrow> error + kafka_message list" where
  "kafka_messages marshal topic [] = Inr []"
| "kafka_messages marshal topic (e # es) =
     (case marshal e of
        Inl err \<Rightarrow> Inl (WrapBefore ''marshal event: '' err)
      | Inr v \<Rightarrow>
          (case kafka_messages marshal topic es of
             Inl err \<Rightarrow> Inl err
           | Inr ms \<Rightarrow> Inr (\<lparr>km_Topic = ''events.'' @ topic, km_Key = e_ID e, km_Value = v\<rparr> # ms)))"

definition kafka_Publish ::
  "(Event \<Rightarrow> error + string) \<Rightarrow> (kafka_message list \<Rightarrow> 'w \<Rightarrow> error option \<times> 'w) \<Rightarrow> string \<Rightarrow> Event list \<Rightarrow> 'w \<Rightarrow>
     error option \<times> 'w" where
  "kafka_Publish marshal write topic es w =
     (case kafka_messages marshal topic es of
        Inl err \<Rightarrow> (Some err, w)
      | Inr ms \<Rightarrow> write ms w)"

text \<open>Topic and consumer group of a subscription. \<open>Subscribe\<close> always returns nil.\<close>

definition kafka_Subscribe :: "KafkaEventBus \<Rightarrow> string \<Rightarrow> string \<Rightarrow> error option \<times> KafkaEventBus" where
  "kafka_Subscribe b topic grp =
     (let groupID = (if grp \<noteq> '''' then kc_GroupID (kb_config b) @ ''-'' @ grp else kc_GroupID (kb_config b))
      in (None, b\<lparr>kb_consumers := kb_consumers b @ [(''events.'' @ topic, groupID)]\<rparr>))"

datatype kafka_fetch = FetchError | Fetched string

text \<open>The goroutine of \<open>Subscribe\<close>: the state of the process and the values whose messages were
  committed, in order. Failures of the handler and of the commit are logged; a commit is tried all
  the same. \<open>commit\<close> tells whether it succeeds.\<close>

fun kafka_consume ::
  "(string \<Rightarrow> error + Event) \<Rightarrow> (string \<Rightarrow> bool) \<Rightarrow> 's EventHandler \<Rightarrow> kafka_fetch list \<Rightarrow> 's \<Rightarrow> 's \<times> string list" where
  "kafka_consume unmarshal commit h [] s = (s, [])"
| "kafka_consume unmarshal commit h (FetchError # fs) s = kafka_consume unmarshal commit h fs s"
| "kafka_consume unmarshal commit h (Fetched v # fs) s =
     (let s' = (case unmarshal v of Inl _ \<Rightarrow> s | Inr evt \<Rightarrow> snd (h evt s));
          (s'', cs) = kafka_consume unmarshal commit h fs s'
      in (s'', (if commit v then [v] else []) @ cs))"

definition kafka_Close :: "KafkaEventBus \<Rightarrow> KafkaEventBus" where
  "kafka_Close b = b\<lparr>kb_closed := True, kb_consumers := []\<rparr>"

subsection \<open>Redis\<close>

record RedisEventBus =
  rb_pubSubs :: "string list"
  rb_closed :: bool

definition NewRedisEventBus :: RedisEventBus where
  "NewRedisEventBus = \<lparr>rb_pubSubs = [], rb_closed = False\<rparr>"

text \<open>The events are sent one by one; the first failure ends the call.\<close>

fun redis_Publish ::
  "(Event \<Rightarrow> error + string) \<Rightarrow> (string \<Rightarrow> string \<Rightarrow> 'w \<Rightarrow> error option \<times> 'w) \<Rightarrow> string \<Rightarrow> Event list \<Rightarrow> 'w \<Rightarrow>
     error option \<times> 'w" where
  "redis_Publish marshal pub topic [] w = (None, w)"
| "redis_Publish marshal pub topic (e # es) w =
     (case marshal e of
        Inl err \<Rightarrow> (Some (WrapBefore ''marshal event: '' err), w)
      | Inr v \<Rightarrow>
          (case pub (''events:'' @ topic) v w of
             (Some err, w') \<Rightarrow> (Some (WrapBefore ''redis publish: '' err), w')
           | (None, w') \<Rightarrow> redis_Publish marshal pub topic es w'))"

text \<open>The group is not used: every subscription of a channel gets every message.\<close>

definition redis_Subscribe :: "RedisEventBus \<Rightarrow> string \<Rightarrow> string \<Rightarrow> error option \<times> RedisEventBus" where
  "redis_Subscribe b topic grp = (None, b\<lparr>rb_pubSubs := rb_pubSubs b @ [''events:'' @ topic]\<rparr>)"

fun redis_consume :: "(string \<Rightarrow> error + Event) \<Rightarrow> 's EventHandler \<Rightarrow> string list \<Rightarrow> 's \<Rightarrow> 's" where
  "redis_consume unmarshal h [] s = s"
| "redis_consume unmarshal h (v # vs) s =
     redis_consume unmarshal h vs (case unmarshal v of Inl _ \<Rightarrow> s | Inr evt \<Rightarrow> snd (h evt s))"

text \<open>When its channel closes or its context ends, a subscription takes itself off the list (here the
  first entry of its channel; the code compares pointers).\<close>

definition redis_unsubscribe :: "string \<Rightarrow> RedisEventBus \<Rightarrow> RedisEventBus" where
  "redis_unsubscribe topic b = b\<lparr>rb_pubSubs := remove1 (''events:'' @ topic) (rb_pubSubs b)\<rparr>"

text \<open>A whole subscription: the payloads \<open>vs\<close> arrive before its end.\<close>

definition redis_session ::
  "(string \<Rightarrow> error + Event) \<Rightarrow> string \<Rightarrow> string \<Rightarrow> 's EventHandler \<Rightarrow> string list \<Rightarrow> RedisEventBus \<times> 's \<Rightarrow> RedisEventBus \<times> 's" where
  "redis_session unmarshal topic grp h vs st =
     (case redis_Subscribe (fst st) topic grp of
        (err, b) \<Rightarrow> (redis_unsubscribe topic b, redis_consume unmarshal h vs (snd st)))"

definition redis_Close :: "RedisEventBus \<Rightarrow> RedisEventBus" where
  "redis_Close b = b\<lparr>rb_closed := True, rb_pubSubs := []\<rparr>"

subsection \<open>Properties\<close>

text \<open>A subscription that ended leaves the bus with the open subscriptions it had.\<close>

lemma redis_session_closes:
  "mset (rb_pubSubs (fst (redis_session unmarshal topic grp h vs (b, s)))) = mset (rb_pubSubs b)"
  by (simp add: redis_session_def redis_Subscribe_def redis_unsubscribe_def)

lemma kafka_messages_Inr:
  "kafka_messages marshal topic es = Inr ms \<Longrightarrow>
     map km_Key ms = map e_ID es \<and> list_all2 (\<lambda>e m. marshal e = Inr (km_Value m)) es ms"
  by (induction es arbitrary: ms) (auto split: sum.splits)

lemma kafka_consume_all:
  assumes "list_all2 (\<lambda>e m. marshal e = Inr (km_Value m)) es ms" "\<And>e v. marshal e = Inr v \<Longrightarrow> unmarshal v = Inr e"
  shows "kafka_consume unmarshal (\<lambda>_. True) h (map (Fetched \<circ> km_Value) ms) s =
    (publish_all [\<lparr>he_handler = h, he_group = g\<rparr>] es s, map km_Value ms)"
  using assms(1) by (induction es ms arbitrary: s rule: list_all2_induct) (simp_all add: assms(2))

lemma redis_Publish_log:
  assumes "\<And>e. e \<in> set es \<Longrightarrow> \<exists>v. marshal e = Inr v"
    "\<And>e v. marshal e = Inr v \<Longrightarrow> unmarshal v = Inr e"
  shows "\<exists>vs. redis_Publish marshal (\<lambda>c v w. (None, w @ [v])) topic es w = (None, w @ vs) \<and>
    redis_consume unmarshal h vs s = publish_all [\<lparr>he_handler = h, he_group = g\<rparr>] es s"
  using assms(1)
proof (induction es arbitrary: w s)
  case (Cons e es)
  then obtain v where v: "marshal e = Inr v" by (meson list.set_intros(1))
  obtain vs where "redis_Publish marshal (\<lambda>c v w. (None, w @ [v])) topic es (w @ [v]) = (None, (w @ [v]) @ vs)"
    "redis_consume unmarshal h vs (snd (h e s)) = publish_all [\<lparr>he_handler = h, he_group = g\<rparr>] es (snd (h e s))"
    using Cons.IH [of "w @ [v]" "snd (h e s)"] Cons.prems by (meson list.set_intros(2))
  with v show ?case by (intro exI [of _ "v # vs"]) (simp add: assms(2))
qed simp


definition one_event :: Event where
  "one_event = \<lparr>e_ID = ''e1'', e_Type = EventTradeExecuted, e_Payload = [], e_Timestamp = 0, e_Version = 1\<rparr>"


end
