(* ===== verification/Ledger.thy ===== *)
theory Ledger
  imports Order_Service Wallet
begin

section \<open>What every operation keeps of the tables\<close>

text \<open>
  The tables are shared by the order service, the settlement service and the wallet service. This
  theory states what all of them keep: accounts belong to registered users and hold nothing
  negative, the rows of orders and deposits are sane, and the surplus of a currency (confirmed
  deposits less requested withdrawals less what the users own) never falls. The locale
  \<open>table_invariant\<close> says how such a predicate passes from the statements to the transactions
  around them; it is interpreted on the predicates of the three services' tables.
\<close>

subsection \<open>From statements to transactions\<close>

locale table_invariant =
  fixes I :: "db \<Rightarrow> bool"
  assumes faults_free: "I (d\<lparr>db_faults := fs\<rparr>) = I d"
begin

lemma stmt_keeps:
  assumes "stmt q d = (r, d')" "I d" "\<And>d r d'. q d = (r, d') \<Longrightarrow> I d \<Longrightarrow> I d'"
  shows "I d'"
  using assms(1) by (cases rule: stmt_cases) (use assms(2,3) faults_free in auto)

lemma in_tx_keeps:
  assumes "in_tx (stmt q) t = (r, t')" "I (tx_db t)" "\<And>d r d'. q d = (r, d') \<Longrightarrow> I d \<Longrightarrow> I d'"
  shows "I (tx_db t')"
proof (cases "tx_aborted t")
  case True
  with assms show ?thesis by (auto simp: in_tx_def)
next
  case False
  obtain x d where "stmt q (tx_db t) = (x, d)" by fastforce
  with False assms stmt_keeps [OF this assms(2,3)] show ?thesis
    by (auto simp: in_tx_def split: sum.splits)
qed

lemma begin_keeps:
  assumes "begin_tx d = (r, d')" "I d"
  shows "I d' \<and> (\<forall>t. r = Inr t \<longrightarrow> I (tx_db t))"
  using begin_tx_effect [OF assms(1)] assms(2) faults_free by auto

lemma rollback_keeps [simp]: "I (rollback d t) = I d"
  by (simp add: rollback_def faults_free)

lemma commit_keeps: "commit d t = (r, d') \<Longrightarrow> I d \<Longrightarrow> I (tx_db t) \<Longrightarrow> I d'"
  using commit_effect [of d t r d'] faults_free by (cases r) auto

end

text \<open>Users are as given, and every account belongs to one of them.\<close>

definition registered :: "string list \<Rightarrow> db \<Rightarrow> bool" where
  "registered us d \<longleftrightarrow> db_users d = us \<and> (\<forall>k. db_accounts d k \<noteq> None \<longrightarrow> fst k \<in> set us)"

interpretation owners: table_invariant "registered us" for us
  by unfold_locales (simp add: registered_def)

text \<open>The orders, the deposits and the withdrawals are as given.\<close>

definition paper :: "order_row list \<times> deposit_row list \<times> withdrawal_row list \<Rightarrow> db \<Rightarrow> bool" where
  "paper v d \<longleftrightarrow> (db_orders d, db_deposits d, db_withdrawals d) = v"

definition rows_in :: "order_row list \<Rightarrow> deposit_row list \<Rightarrow> db \<Rightarrow> bool" where
  "rows_in os ds d \<longleftrightarrow> db_orders d = os \<and> db_deposits d = ds"

interpretation papers: table_invariant "paper v" for v
  by unfold_locales (simp add: paper_def)

interpretation withdrawing: table_invariant "rows_in os ds" for os ds
  by unfold_locales (simp add: rows_in_def)

definition orders_and_withdrawals :: "order_row list \<Rightarrow> withdrawal_row list \<Rightarrow> db \<Rightarrow> bool" where
  "orders_and_withdrawals os ws d \<longleftrightarrow> db_orders d = os \<and> db_withdrawals d = ws"

interpretation depositing: table_invariant "orders_and_withdrawals os ws" for os ws
  by unfold_locales (simp add: orders_and_withdrawals_def)

subsection \<open>The statements\<close>

named_theorems keeps

lemma registered_set_account:
  "registered us d \<Longrightarrow> fst k \<in> set us \<Longrightarrow> registered us (set_account k a d)"
  by (auto simp: registered_def)

lemma registered_known: "registered us d \<Longrightarrow> db_accounts d k = Some a \<Longrightarrow> fst k \<in> set us"
  by (cases k) (auto simp: registered_def)

lemma registered_users: "registered us d \<Longrightarrow> db_users d = us"
  by (simp add: registered_def)

lemma registered_others [simp]:
  "registered us (d\<lparr>db_audit := au\<rparr>) = registered us d"
  "registered us (d\<lparr>db_deposits := ds\<rparr>) = registered us d"
  "registered us (d\<lparr>db_withdrawals := ws\<rparr>) = registered us d"
  "registered us (d\<lparr>db_orders := os\<rparr>) = registered us d"
  "registered us (d\<lparr>db_addresses := as\<rparr>) = registered us d"
  "registered us (d\<lparr>db_trades := ts\<rparr>) = registered us d"
  by (simp_all add: registered_def)

lemma write_account_registered:
  "write_account k a d = (r, d') \<Longrightarrow> registered us d \<Longrightarrow> fst k \<in> set us \<Longrightarrow> registered us d'"
  by (auto simp: write_account_def registered_set_account split: if_splits)

lemma registered_statements [keeps]:
  "select_account uid cur d = (ra, d') \<Longrightarrow> registered us d \<Longrightarrow> registered us d'"
  "freeze_stmt uid cur amt d = (rn, d') \<Longrightarrow> registered us d \<Longrightarrow> registered us d'"
  "unfreeze_stmt uid cur amt d = (rn, d') \<Longrightarrow> registered us d \<Longrightarrow> registered us d'"
  "insert_account uid cur a d = (rn, d') \<Longrightarrow> registered us d \<Longrightarrow> registered us d'"
  "update_balance_stmt uid cur new ver adj d = (rn, d') \<Longrightarrow> registered us d \<Longrightarrow> registered us d'"
  "insert_audit row d = (rn, d') \<Longrightarrow> registered us d \<Longrightarrow> registered us d'"
  "credit_stmt uid cur amt d = (rn, d') \<Longrightarrow> registered us d \<Longrightarrow> registered us d'"
  "debit_stmt uid cur amt d = (rn, d') \<Longrightarrow> registered us d \<Longrightarrow> registered us d'"
  "insert_withdrawal w d = (rn, d') \<Longrightarrow> registered us d \<Longrightarrow> registered us d'"
  "insert_deposit ev uid d = (rn, d') \<Longrightarrow> registered us d \<Longrightarrow> registered us d'"
  "confirm_stmt tx to d = (rn, d') \<Longrightarrow> registered us d \<Longrightarrow> registered us d'"
  "select_address_user addr chain d = (rs, d') \<Longrightarrow> registered us d \<Longrightarrow> registered us d'"
  by (auto simp: select_account_def freeze_stmt_def unfreeze_stmt_def insert_account_def
      update_balance_stmt_def insert_audit_def credit_stmt_def debit_stmt_def insert_withdrawal_def
      insert_deposit_def confirm_stmt_def select_address_user_def registered_users
      split: option.splits if_splits list.splits
      dest: registered_known intro: write_account_registered)

lemma paper_statements [keeps]:
  "select_account uid cur d = (ra, d') \<Longrightarrow> paper v d \<Longrightarrow> paper v d'"
  "freeze_stmt uid cur amt d = (rn, d') \<Longrightarrow> paper v d \<Longrightarrow> paper v d'"
  "unfreeze_stmt uid cur amt d = (rn, d') \<Longrightarrow> paper v d \<Longrightarrow> paper v d'"
  by (auto simp: select_account_def freeze_stmt_def unfreeze_stmt_def paper_def write_account_def
      split: option.splits if_splits list.splits)

lemma withdrawing_statements [keeps]:
  "select_account uid cur d = (ra, d') \<Longrightarrow> rows_in os ds d \<Longrightarrow> rows_in os ds d'"
  "debit_stmt uid cur amt d = (rn, d') \<Longrightarrow> rows_in os ds d \<Longrightarrow> rows_in os ds d'"
  "insert_withdrawal w d = (rn, d') \<Longrightarrow> rows_in os ds d \<Longrightarrow> rows_in os ds d'"
  by (auto simp: select_account_def debit_stmt_def insert_withdrawal_def rows_in_def write_account_def
      split: option.splits if_splits list.splits)

lemma depositing_statements [keeps]:
  "credit_stmt uid cur amt d = (rn, d') \<Longrightarrow> orders_and_withdrawals os ws d \<Longrightarrow> orders_and_withdrawals os ws d'"
  "insert_audit row d = (rn, d') \<Longrightarrow> orders_and_withdrawals os ws d \<Longrightarrow> orders_and_withdrawals os ws d'"
  "insert_deposit ev uid d = (rn, d') \<Longrightarrow> orders_and_withdrawals os ws d \<Longrightarrow> orders_and_withdrawals os ws d'"
  "confirm_stmt tx to d = (rn, d') \<Longrightarrow> orders_and_withdrawals os ws d \<Longrightarrow> orders_and_withdrawals os ws d'"
  "select_address_user addr chain d = (rs, d') \<Longrightarrow> orders_and_withdrawals os ws d \<Longrightarrow> orders_and_withdrawals os ws d'"
  by (auto simp: credit_stmt_def insert_audit_def insert_deposit_def confirm_stmt_def
      select_address_user_def orders_and_withdrawals_def write_account_def
      split: option.splits if_splits list.splits)

subsection \<open>The operations\<close>

lemma balance_ops_registered:
  "FreezeBalance uid cur amount d = (ru, d') \<Longrightarrow> registered us d \<Longrightarrow> registered us d'"
  "UnfreezeBalance uid cur amount d = (ru, d') \<Longrightarrow> registered us d \<Longrightarrow> registered us d'"
  using owners.stmt_keeps [of "freeze_stmt uid cur (val amount)" d _ _ us]
    owners.stmt_keeps [of "unfreeze_stmt uid cur (val amount)" d _ _ us]
  by (auto simp: FreezeBalance_def UnfreezeBalance_def split: sum.splits prod.splits if_splits
      dest: keeps)

lemma updateBalance_registered:
  assumes "updateBalance uid cur delta t = (r, t')" "registered us (tx_db t)"
  shows "registered us (tx_db t') \<and> (r = None \<longrightarrow> uid \<in> set us)"
proof -
  let ?zero = "\<lparr>ac_balance = 0, ac_frozen = 0, ac_version = 1\<rparr>"
  obtain r1 t1 where 1: "in_tx (stmt (insert_account uid cur ?zero)) t = (r1, t1)" by fastforce
  obtain r2 t2 where 2: "in_tx (stmt (select_account uid cur)) t1 = (r2, t2)" by fastforce
  have k1: "registered us (tx_db t1)" by (rule owners.in_tx_keeps [OF 1 assms(2)]) (rule keeps)
  have k2: "registered us (tx_db t2)" by (rule owners.in_tx_keeps [OF 2 k1]) (rule keeps)
  have up: "registered us (tx_db t3)"
    if "in_tx (stmt (update_balance_stmt uid cur new ver adj)) t2 = (x, t3)" for new ver adj x t3
    by (rule owners.in_tx_keeps [OF that k2]) (rule keeps)
  have au: "registered us (tx_db (snd (in_tx (stmt (insert_audit row)) t3)))" if "registered us (tx_db t3)" for row t3
    by (rule owners.in_tx_keeps [OF prod.collapse [symmetric] that]) (rule keeps)
  have kept: "registered us (tx_db t')"
    using assms(1) k2 by (auto simp: updateBalance_def 1 2 Let_def split: sum.splits prod.splits
        option.splits if_splits dest: up intro!: au)
  have "uid \<in> set us" if none: "r = None"
  proof -
    obtain a where a: "r2 = Inr a"
      using assms(1) 1 2 none by (cases r2) (auto simp: updateBalance_def Let_def)
    obtain fs where "select_account uid cur ((tx_db t1)\<lparr>db_faults := fs\<rparr>) = (Inr a, tx_db t2)"
      using in_tx_Inr [OF 2 [unfolded a]] by blast
    then show ?thesis using registered_known [OF k1, of "(uid, cur)"]
      by (auto simp: select_account_def split: option.splits)
  qed
  with kept show ?thesis by blast
qed

lemma update_balances_registered:
  "update_balances ups t = (r, t') \<Longrightarrow> registered us (tx_db t) \<Longrightarrow>
     registered us (tx_db t') \<and> (r = None \<longrightarrow> (\<forall>(l, uid, cur, dl)\<in>set ups. uid \<in> set us))"
proof (induction ups t rule: update_balances.induct)
  case (2 label uid cur delta ups t)
  obtain x t1 where u: "updateBalance uid cur delta t = (x, t1)" by fastforce
  note k = updateBalance_registered [OF u 2(3)]
  show ?case
  proof (cases x)
    case None
    with 2(2) u have "update_balances ups t1 = (r, t')" by simp
    with 2(1) [OF u [symmetric] None] k None show ?thesis by auto
  qed (use 2(2) u k in auto)
qed simp

lemma SettleTrade_registered:
  assumes "SettleTrade ins bus fsv m d = Inr (r, d', evs)" "records_trade_only ins" "registered us d"
  shows "registered us d' \<and> (r = None \<longrightarrow> {m_TakerUserID m, m_MakerUserID m, feeAccountID} \<subseteq> set us)"
proof (cases r)
  case (Some e)
  with SettleTrade_failure [of ins bus fsv m d e d' evs] assms show ?thesis
    using owners.faults_free by auto
next
  case None
  then have run: "SettleTrade ins bus fsv m d = Inr (None, d', evs)" using assms(1) by simp
  show ?thesis
  proof (rule SettleTrade_success [OF run])
    fix t dd mf tf t1 t2
    assume b: "begin_tx d = (Inr t, dd)" and u: "update_balances (settle_updates m mf tf) t = (None, t1)"
      and i: "in_tx (stmt (ins (trade_row_of m mf tf))) t1 = (Inr (), t2)" and c: "commit d t2 = (None, d')"
    have k: "registered us (tx_db t)" using owners.begin_keeps [OF b assms(3)] by blast
    note k1 = update_balances_registered [OF u k]
    have "registered us (tx_db t2)"
    proof (rule owners.in_tx_keeps [OF i])
      fix d r d' assume "ins (trade_row_of m mf tf) d = (r, d')" "registered us d"
      then show "registered us d'" using assms(2)
        unfolding records_trade_only_def registered_def books_only_def by metis
    qed (use k1 in blast)
    then have "registered us d'" by (rule owners.commit_keeps [OF c assms(3)])
    moreover have "{m_TakerUserID m, m_MakerUserID m, feeAccountID} \<subseteq> set us"
      by (rule settle_updates_users [THEN iffD1, of m mf tf]) (use k1 in simp)
    ultimately show ?thesis by simp
  qed
qed

subsection \<open>Withdrawals and deposits\<close>

text \<open>What the three statements of a withdrawal keep, the withdrawal keeps.\<close>

locale withdrawal_tables = table_invariant +
  assumes select_keeps: "select_account uid cur d = (ra, d') \<Longrightarrow> I d \<Longrightarrow> I d'"
    and debit_keeps: "debit_stmt uid cur amt d = (rn, d') \<Longrightarrow> I d \<Longrightarrow> I d'"
    and insert_keeps: "insert_withdrawal w d = (rn, d') \<Longrightarrow> I d \<Longrightarrow> I d'"
begin

lemma RequestWithdrawal_keeps:
  assumes "RequestWithdrawal s wid req d = (r, d')" "I d"
  shows "I d'"
proof -
  obtain rb d0 where b: "begin_tx d = (rb, d0)" by fastforce
  note 0 = begin_keeps [OF b assms(2)]
  have 1: "I (tx_db t')" if "in_tx (stmt (select_account uid cur)) t = (x, t')" "I (tx_db t)" for uid cur t x t'
    by (rule in_tx_keeps [OF that]) (rule select_keeps)
  have 2: "I (tx_db t')" if "in_tx (stmt (debit_stmt uid cur a)) t = (x, t')" "I (tx_db t)" for uid cur a t x t'
    by (rule in_tx_keeps [OF that]) (rule debit_keeps)
  have 3: "I (tx_db t')" if "in_tx (stmt (insert_withdrawal w)) t = (x, t')" "I (tx_db t)" for w t x t'
    by (rule in_tx_keeps [OF that]) (rule insert_keeps)
  show ?thesis
    using assms b 0
    by (auto simp: RequestWithdrawal_def Let_def split: sum.splits prod.splits option.splits if_splits
        dest: 1 2 3 commit_keeps)
qed

end

interpretation owners: withdrawal_tables "registered us" for us
  by unfold_locales (fact keeps)+

interpretation withdrawing: withdrawal_tables "rows_in os ds" for os ds
  by unfold_locales (fact keeps)+

text \<open>And the same for the statements of a deposit.\<close>

locale deposit_tables = table_invariant +
  assumes address_keeps: "select_address_user addr chain d = (rs, d') \<Longrightarrow> I d \<Longrightarrow> I d'"
    and record_keeps: "insert_deposit ev uid d = (rn, d') \<Longrightarrow> I d \<Longrightarrow> I d'"
    and confirm_keeps: "confirm_stmt tx to d = (rn, d') \<Longrightarrow> I d \<Longrightarrow> I d'"
    and credit_keeps: "credit_stmt uid cur amt d = (rn, d') \<Longrightarrow> I d \<Longrightarrow> I d'"
    and audit_keeps: "insert_audit row d = (rn, d') \<Longrightarrow> I d \<Longrightarrow> I d'"
begin

lemma confirmDeposit_keeps:
  assumes "confirmDeposit bus tx to uid amount cur d = (r, d', out)" "I d"
  shows "I d'"
proof -
  obtain rb d0 where b: "begin_tx d = (rb, d0)" by fastforce
  note 0 = begin_keeps [OF b assms(2)]
  have 1: "I (tx_db t')" if "in_tx (stmt (confirm_stmt tx to)) t = (x, t')" "I (tx_db t)" for t x t'
    by (rule in_tx_keeps [OF that]) (rule confirm_keeps)
  have 2: "I (tx_db t')" if "in_tx (stmt (credit_stmt uid cur a)) t = (x, t')" "I (tx_db t)" for a t x t'
    by (rule in_tx_keeps [OF that]) (rule credit_keeps)
  have 3: "I (tx_db (snd (in_tx (stmt (insert_audit row)) t)))" if "I (tx_db t)" for row t
    by (rule in_tx_keeps [OF prod.collapse [symmetric] that]) (rule audit_keeps)
  have 4: "I d'" if "commit d (snd (in_tx (stmt (insert_audit row)) t)) = (x, d')" "I (tx_db t)" for row t x d'
    by (rule commit_keeps [OF that(1) assms(2) 3 [OF that(2)]])
  show ?thesis
    using assms b 0
    by (auto simp: confirmDeposit_def Let_def split: sum.splits prod.splits option.splits if_splits
        dest: 1 2 4)
qed

lemma ProcessDeposit_keeps:
  assumes "ProcessDeposit bus ev d = (r, d', out)" "I d"
  shows "I d'"
proof -
  obtain r1 d1 where 1: "stmt (select_address_user (de_ToAddress ev) (de_Chain ev)) d = (r1, d1)" by fastforce
  have k1: "I d1" by (rule stmt_keeps [OF 1 assms(2)]) (rule address_keeps)
  have k2: "I d2" if "stmt (insert_deposit ev uid) d1 = (x, d2)" for uid x d2
    by (rule stmt_keeps [OF that k1]) (rule record_keeps)
  show ?thesis
    using assms 1 k1
    by (auto simp: ProcessDeposit_def split: sum.splits prod.splits if_splits
        dest: k2 confirmDeposit_keeps)
qed

end

interpretation owners: deposit_tables "registered us" for us
  by unfold_locales (fact keeps)+

interpretation depositing: deposit_tables "orders_and_withdrawals os ws" for os ws
  by unfold_locales (fact keeps)+

subsection \<open>The ledger\<close>

definition total_owned :: "db \<Rightarrow> Currency \<Rightarrow> int" where
  "total_owned d cur = (\<Sum>u\<in>set (db_users d). owned d (u, cur))"

definition deposited :: "db \<Rightarrow> Currency \<Rightarrow> int" where
  "deposited d cur = (\<Sum>r\<leftarrow>db_deposits d.
     if dp_status r = DepositStatusConfirmed \<and> dp_currency r = cur then dp_amount r else 0)"

definition withdrawn :: "db \<Rightarrow> Currency \<Rightarrow> int" where
  "withdrawn d cur = (\<Sum>w\<leftarrow>db_withdrawals d. if w_currency w = cur then w_amount w + w_fee w else 0)"

text \<open>Confirmed deposits, less requested withdrawals with their fees, less what the users own.\<close>

definition surplus :: "db \<Rightarrow> Currency \<Rightarrow> int" where
  "surplus d cur = deposited d cur - withdrawn d cur - total_owned d cur"

text \<open>
  The rows of deposits agree with the chain: \<open>ch\<close> says, for a transaction and an address, which
  currency and amount it paid.
\<close>

definition deposit_rows_ok :: "(string \<times> string \<Rightarrow> Currency \<times> int) \<Rightarrow> deposit_row list \<Rightarrow> bool" where
  "deposit_rows_ok ch ds \<longleftrightarrow> distinct (map (\<lambda>r. (dp_tx_hash r, dp_to_address r)) ds) \<and>
     (\<forall>r\<in>set ds. ch (dp_tx_hash r, dp_to_address r) = (dp_currency r, dp_amount r))"

definition order_rows_ok :: "order_row list \<Rightarrow> bool" where
  "order_rows_ok os \<longleftrightarrow> (\<forall>r\<in>set os. 0 \<le> r_price r \<and> 0 \<le> r_quantity r)"

definition nonneg :: "db \<Rightarrow> bool" where
  "nonneg d \<longleftrightarrow> (\<forall>k. 0 \<le> held d k \<and> 0 \<le> frozen d k)"

definition good :: "(string \<times> string \<Rightarrow> Currency \<times> int) \<Rightarrow> db \<Rightarrow> bool" where
  "good ch d \<longleftrightarrow> registered (db_users d) d \<and> nonneg d \<and> order_rows_ok (db_orders d) \<and>
     deposit_rows_ok ch (db_deposits d)"

definition order_parties :: "db \<Rightarrow> (string \<times> string) set" where
  "order_parties d = (\<lambda>r. (r_order_id r, r_user_id r)) ` set (db_orders d)"

text \<open>What each operation does to good tables.\<close>

definition advances :: "(string \<times> string \<Rightarrow> Currency \<times> int) \<Rightarrow> db \<Rightarrow> db \<Rightarrow> bool" where
  "advances ch d d' \<longleftrightarrow> (good ch d \<longrightarrow> good ch d' \<and> (\<forall>cur. surplus d cur \<le> surplus d' cur) \<and>
     db_users d' = db_users d \<and> order_parties d \<subseteq> order_parties d')"

lemma advances_refl [simp]: "advances ch d d" by (simp add: advances_def)

lemma advances_trans [trans]: "advances ch d1 d2 \<Longrightarrow> advances ch d2 d3 \<Longrightarrow> advances ch d1 d3"
  unfolding advances_def by (metis order_trans subset_trans)

lemma good_faults [simp]: "good ch (d\<lparr>db_faults := fs\<rparr>) = good ch d"
  by (simp add: good_def nonneg_def owners.faults_free)

lemma owned_faults [simp]: "owned (d\<lparr>db_faults := fs\<rparr>) = owned d"
  by (simp add: owned_def fun_eq_iff)

lemma advances_faults [simp]: "advances ch d (d\<lparr>db_faults := fs\<rparr>)"
  by (simp add: advances_def order_parties_def surplus_def deposited_def withdrawn_def total_owned_def)

text \<open>An operation that only moves funds within accounts.\<close>

lemma own_funds_advance:
  assumes "own_funds_only uid d d'" "registered (db_users d) d \<Longrightarrow> registered (db_users d) d'"
    "nonneg d \<Longrightarrow> nonneg d'" "db_deposits d' = db_deposits d" "db_withdrawals d' = db_withdrawals d"
    "order_rows_ok (db_orders d) \<Longrightarrow> order_rows_ok (db_orders d')" "order_parties d \<subseteq> order_parties d'"
  shows "advances ch d d'"
  unfolding advances_def
proof (intro impI conjI allI)
  assume g: "good ch d"
  then show u: "db_users d' = db_users d" using assms(2) by (auto simp: good_def registered_def)
  show "good ch d'" using g assms u by (simp add: good_def)
  fix cur
  have "total_owned d' cur = total_owned d cur"
    using assms(1) u by (simp add: total_owned_def own_funds_only_def)
  then show "surplus d cur \<le> surplus d' cur"
    using assms(4,5) by (simp add: surplus_def deposited_def withdrawn_def)
qed (rule assms(7))

lemma same_but_nonneg:
  assumes "same_but k d d'" "0 \<le> held d' k" "0 \<le> frozen d' k" "nonneg d"
  shows "nonneg d'"
  unfolding nonneg_def
proof
  fix k' show "0 \<le> held d' k' \<and> 0 \<le> frozen d' k'"
  proof (cases "k' = k")
    case False
    then have "db_accounts d' k' = db_accounts d k'" using assms(1) by (cases k') (simp add: same_but_def)
    then have "held d' k' = held d k'" "frozen d' k' = frozen d k'" by (simp_all add: held_def frozen_def)
    with assms(4) show ?thesis by (cases k') (simp add: nonneg_def)
  qed (use assms in simp)
qed

lemma same_but_advance:
  assumes "same_but k d d'" "owned d' k = owned d k" "registered (db_users d) d \<Longrightarrow> registered (db_users d) d'"
    "nonneg d \<Longrightarrow> 0 \<le> held d' k \<and> 0 \<le> frozen d' k"
  shows "advances ch d d'"
proof (rule own_funds_advance [OF same_but_owned [OF assms(1,2)] assms(3)])
  show "nonneg d'" if "nonneg d"
    by (rule same_but_nonneg [OF assms(1) _ _ that]) (use assms(4) [OF that] in blast)+
qed (use assms(1) in \<open>auto simp: same_but_def order_parties_def\<close>)

lemma FreezeBalance_advances:
  assumes "FreezeBalance uid cur amount d = (r, d')" "0 \<le> val amount"
  shows "advances ch d d'"
proof (rule same_but_advance [where k = "(uid, cur)"])
  note e = FreezeBalance_effect [OF assms(1)]
  show "same_but (uid, cur) d d'" "owned d' (uid, cur) = owned d (uid, cur)" using e by blast+
  show "registered (db_users d) d \<Longrightarrow> registered (db_users d) d'" by (rule balance_ops_registered(1) [OF assms(1)])
  show "0 \<le> held d' (uid, cur) \<and> 0 \<le> frozen d' (uid, cur)" if "nonneg d"
    using e that assms(2) by (cases r) (auto simp: nonneg_def)
qed

lemma UnfreezeBalance_advances:
  assumes "UnfreezeBalance uid cur amount d = (r, d')" "0 \<le> val amount"
  shows "advances ch d d'"
proof (rule same_but_advance [where k = "(uid, cur)"])
  note e = UnfreezeBalance_effect [OF assms(1)]
  show "same_but (uid, cur) d d'" "owned d' (uid, cur) = owned d (uid, cur)" using e by blast+
  show "registered (db_users d) d \<Longrightarrow> registered (db_users d) d'" by (rule balance_ops_registered(2) [OF assms(1)])
  show "0 \<le> held d' (uid, cur) \<and> 0 \<le> frozen d' (uid, cur)" if "nonneg d"
    using e that assms(2) by (auto simp: nonneg_def)
qed

lemma unfreezeBalance_advances: "0 \<le> val amount \<Longrightarrow> advances ch d (unfreezeBalance s uid cur amount d)"
  using UnfreezeBalance_advances [of uid cur amount d] by (cases "UnfreezeBalance uid cur amount d")
    (simp add: unfreezeBalance_def)

text \<open>Statements on the orders.\<close>

lemma orders_advance:
  assumes "db_accounts d' = db_accounts d" "db_users d' = db_users d" "db_deposits d' = db_deposits d"
    "db_withdrawals d' = db_withdrawals d" "order_rows_ok (db_orders d) \<Longrightarrow> order_rows_ok (db_orders d')"
    "order_parties d \<subseteq> order_parties d'"
  shows "advances ch d d'"
  by (rule own_funds_advance [OF own_funds_frame [OF assms(1)]])
    (use assms in \<open>auto simp: registered_def nonneg_def held_def frozen_def\<close>)

lemma numeric_in_String: "numeric_in (String v) = Inr n \<Longrightarrow> n = val v"
  by (simp add: numeric_in_def NewFromString_String split: if_splits)

lemma Create_advances:
  assumes "Create (stored_order oid req) d = (r, d')" "0 \<le> val (req_Price req)" "0 \<le> val (req_Quantity req)"
  shows "advances ch d d' \<and> (r = Inr () \<longrightarrow> oid \<notin> fst ` order_parties d \<and>
    (oid, req_UserID req) \<in> order_parties d')"
proof -
  obtain r1 d1 where s: "stmt (insert_order_stmt (stored_order oid req)) d = (r1, d1)" by fastforce
  have rd: "d' = d1" "isl r = isl r1" using assms(1) s by (auto simp: Create_def split: sum.splits)
  show ?thesis
    using s
  proof (cases rule: stmt_cases)
    case (fault e)
    then show ?thesis using rd by auto
  next
    case (run fs)
    show ?thesis
    proof (cases "r1")
      case (Inl e)
      then have "d1 = d\<lparr>db_faults := fs\<rparr>" using run by (auto simp: insert_order_stmt_def split: sum.splits if_splits)
      with rd Inl show ?thesis by auto
    next
      case (Inr u)
      then obtain row where row: "order_row_of (stored_order oid req) = Inr row"
        "oid \<notin> r_order_id ` set (db_orders d)" "d1 = d\<lparr>db_faults := fs, db_orders := db_orders d @ [row]\<rparr>"
        using run by (auto simp: insert_order_stmt_def stored_order_def split: sum.splits if_splits)
      have f: "r_price row = val (req_Price req)" "r_quantity row = val (req_Quantity req)"
        "r_order_id row = oid" "r_user_id row = req_UserID req"
        using row(1) by (auto simp: order_row_of_def stored_order_def split: sum.splits if_splits
            dest!: numeric_in_String)
      have "advances ch d d'"
        unfolding rd(1) row(3) using f assms(2,3)
        by (intro orders_advance) (auto simp: order_rows_ok_def order_parties_def)
      then show ?thesis
        using row(2) rd(1) f by (auto simp: row(3) order_parties_def)
    qed
  qed
qed

lemma update_status_advances: "advances ch d (update_status s oid st f d)"
proof -
  obtain r1 d1 where s: "stmt (update_status_stmt oid st (String f)) d = (r1, d1)" by fastforce
  have keep: "advances ch d d1"
    using s
  proof (cases rule: stmt_cases)
    case (run fs)
    have imm: "order_parties (d\<lparr>db_faults := fs, db_orders := map (\<lambda>r. if r_order_id r = oid
        then r\<lparr>r_status := st, r_filled_qty := g\<rparr> else r) (db_orders d)\<rparr>) = order_parties d" for g
      unfolding order_parties_def set_map [symmetric] by (rule arg_cong [where f = set]) simp
    show ?thesis
    proof (cases r1)
      case (Inl e)
      then have "d1 = d\<lparr>db_faults := fs\<rparr>" using run by (auto simp: update_status_stmt_def split: sum.splits if_splits)
      then show ?thesis by simp
    next
      case (Inr u)
      then obtain g where "d1 = d\<lparr>db_faults := fs, db_orders := map (\<lambda>r. if r_order_id r = oid
          then r\<lparr>r_status := st, r_filled_qty := g\<rparr> else r) (db_orders d)\<rparr>"
        using run by (auto simp: update_status_stmt_def split: sum.splits if_splits)
      then show ?thesis using imm [of g] by (auto intro!: orders_advance simp: order_rows_ok_def)
    qed
  qed simp
  show ?thesis using s keep by (auto simp: update_status_def UpdateStatus_def split: sum.splits)
qed

lemma GenerateDepositAddress_tables:
  assumes "GenerateDepositAddress cr rnd s uid cur chain d = (r, s', d')"
  shows "\<exists>fs as. d' = d\<lparr>db_faults := fs, db_addresses := as\<rparr>"
proof -
  have sel: "\<exists>fs. d1 = d\<lparr>db_faults := fs\<rparr>" if "stmt (select_address uid cur chain) d = (x, d1)" for x d1
    using that by (cases rule: stmt_cases) (auto simp: select_address_def split: list.splits)
  have ins: "\<exists>fs as. d2 = d1\<lparr>db_faults := fs, db_addresses := as\<rparr>" if "stmt (insert_address row) d1 = (x, d2)" for row x d1 d2
    using that
  proof (cases rule: stmt_cases)
    case (fault e)
    then have "d2 = d1\<lparr>db_faults := tl (db_faults d1), db_addresses := db_addresses d1\<rparr>" by simp
    then show ?thesis by blast
  next
    case (run fs)
    then have "d2 = d1\<lparr>db_faults := fs, db_addresses := db_addresses d1\<rparr> \<or>
        d2 = d1\<lparr>db_faults := fs, db_addresses := db_addresses d1 @ [row]\<rparr>"
      by (auto simp: insert_address_def split: if_splits)
    then show ?thesis by blast
  qed
  obtain x d1 where 1: "stmt (select_address uid cur chain) d = (x, d1)" by fastforce
  obtain fs where d1: "d1 = d\<lparr>db_faults := fs\<rparr>" using sel [OF 1] by blast
  have "d' = d1 \<or> (\<exists>row y. stmt (insert_address row) d1 = (y, d'))"
    using assms 1 by (auto simp: GenerateDepositAddress_def split: sum.splits prod.splits)
  then show ?thesis
  proof (elim disjE exE)
    assume "d' = d1"
    then have "d' = d\<lparr>db_faults := fs, db_addresses := db_addresses d\<rparr>" using d1 by simp
    then show ?thesis by blast
  next
    fix row y assume "stmt (insert_address row) d1 = (y, d')"
    from ins [OF this] show ?thesis using d1 by auto
  qed
qed

lemma GenerateDepositAddress_advances:
  assumes "GenerateDepositAddress cr rnd s uid cur chain d = (r, s', d')"
  shows "advances ch d d'"
proof -
  obtain fs as where "d' = d\<lparr>db_faults := fs, db_addresses := as\<rparr>"
    using GenerateDepositAddress_tables [OF assms] by blast
  then show ?thesis by (intro orders_advance) (auto simp: order_parties_def)
qed

text \<open>Settlement keeps what is available in total, and only takes from what is frozen.\<close>

lemma frozen_after_bounds: "0 \<le> f \<Longrightarrow> 0 \<le> frozen_after us k f \<and> frozen_after us k f \<le> f"
proof (induction us arbitrary: f)
  case (Cons u us)
  obtain l uid c dl where u: "u = (l, uid, c, dl)" by (metis prod_cases4)
  define g where "g = (if (uid, c) = k then max (f + min (val dl) 0) 0 else f)"
  have g: "0 \<le> g" "g \<le> f" using Cons.prems by (simp_all add: g_def)
  have "frozen_after (u # us) k f = frozen_after us k g" by (simp add: u g_def)
  with Cons.IH [OF g(1)] g(2) show ?case by simp
qed simp

lemma SettleTrade_advances:
  assumes "SettleTrade ins bus fsv m d = Inr (r, d', evs)" "records_trade_only ins"
  shows "advances ch d d'"
proof (cases r)
  case (Some e)
  with SettleTrade_failure [of ins bus fsv m d e d' evs] assms(1) show ?thesis by auto
next
  case None
  then have run: "SettleTrade ins bus fsv m d = Inr (None, d', evs)" using assms(1) by simp
  obtain mf tf where mv: "moved (settle_updates m mf tf) d d'"
    using SettleTrade_moves [OF run assms(2)] by blast
  then have h: "\<And>k. held d' k = held d k + delta_on (settle_updates m mf tf) k"
    "\<And>k. frozen d' k = frozen_after (settle_updates m mf tf) k (frozen d k)"
    "\<And>k. 0 \<le> held d k \<Longrightarrow> 0 \<le> held d' k" and b: "books_only d d'"
    unfolding moved_def by blast+
  show ?thesis
    unfolding advances_def
  proof (intro impI conjI allI)
    assume g: "good ch d"
    note reg = SettleTrade_registered [OF run assms(2), of "db_users d"]
    have nn: "0 \<le> held d k \<and> 0 \<le> frozen d k" for k using g by (cases k) (simp add: good_def nonneg_def)
    show u: "db_users d' = db_users d" using b by (simp add: books_only_def)
    have "nonneg d'" unfolding nonneg_def using h nn frozen_after_bounds by simp
    with g b reg u show "good ch d'" by (simp add: good_def books_only_def)
    fix cur
    have "(\<Sum>u\<in>set (db_users d). delta_on (settle_updates m mf tf) (u, cur)) = 0"
      using reg g by (subst delta_on_total) (simp_all add: good_def settle_updates_users settle_updates_balanced)
    then have "(\<Sum>u\<in>set (db_users d). held d' (u, cur)) = (\<Sum>u\<in>set (db_users d). held d (u, cur))"
      by (simp add: h(1) sum.distrib)
    moreover have "(\<Sum>u\<in>set (db_users d). frozen d' (u, cur)) \<le> (\<Sum>u\<in>set (db_users d). frozen d (u, cur))"
      by (rule sum_mono) (simp add: h(2) frozen_after_bounds nn)
    ultimately have "total_owned d' cur \<le> total_owned d cur"
      by (simp add: total_owned_def u owned_def sum.distrib)
    then show "surplus d cur \<le> surplus d' cur"
      using b by (simp add: surplus_def deposited_def withdrawn_def books_only_def)
  qed (use b in \<open>simp add: order_parties_def books_only_def\<close>)
qed

text \<open>What adding to one account adds to the total.\<close>

lemma total_owned_upd:
  assumes "held d' = (held d)((uid, c) := held d (uid, c) + a)" "frozen d' = frozen d"
    "db_users d' = db_users d" "registered (db_users d) d" "registered (db_users d) d'"
  shows "total_owned d' cur = total_owned d cur + (if c = cur then a else 0)"
proof (cases "uid \<in> set (db_users d)")
  case True
  have o': "owned d' (u, cur) = owned d (u, cur) + (if u = uid then if c = cur then a else 0 else 0)" for u
    using assms(1,2) by (simp add: owned_def)
  have "total_owned d' cur = (\<Sum>u\<in>set (db_users d). owned d (u, cur) +
      (if u = uid then if c = cur then a else 0 else 0))"
    unfolding total_owned_def assms(3) by (rule sum.cong [OF refl]) (rule o')
  then show ?thesis using True by (simp add: sum.distrib total_owned_def sum.delta)
next
  case False
  then have "db_accounts d (uid, c) = None" "db_accounts d' (uid, c) = None"
    using registered_known [OF assms(4), of "(uid, c)"] registered_known [OF assms(5), of "(uid, c)"]
    by (cases "db_accounts d (uid, c)"; cases "db_accounts d' (uid, c)"; simp)+
  then have "held d (uid, c) = 0" "held d' (uid, c) = 0" by (simp_all add: held_def)
  with assms(1) have "a = 0" by simp
  then show ?thesis using assms(1-3) by (simp add: total_owned_def owned_def)
qed

lemma RequestWithdrawal_advances:
  assumes "RequestWithdrawal s wid req d = (r, d')"
  shows "advances ch d d'"
proof (cases r)
  case (Inl e)
  with RequestWithdrawal_effect [where s = s and wid = wid and req = req and d = d] assms show ?thesis by auto
next
  case (Inr res)
  let ?k = "(wr_UserID req, wr_Currency req)" and ?c = "val (wr_Amount req) + val (wr_Fee req)"
  have e: "?c \<le> held d ?k" "held d' = (held d)(?k := held d ?k + - ?c)" "frozen d' = frozen d"
    "db_withdrawals d' = db_withdrawals d @ [withdrawal_row_of s wid req]"
    using RequestWithdrawal_effect [where s = s and wid = wid and req = req and d = d] assms Inr by (auto simp: Let_def)
  have t: "db_orders d' = db_orders d" "db_deposits d' = db_deposits d"
    using withdrawing.RequestWithdrawal_keeps [OF assms, of "db_orders d" "db_deposits d"] by (simp_all add: rows_in_def)
  show ?thesis
    unfolding advances_def
  proof (intro impI conjI allI)
    assume g: "good ch d"
    then have reg: "registered (db_users d) d" by (simp add: good_def)
    note reg' = owners.RequestWithdrawal_keeps [OF assms reg]
    show u: "db_users d' = db_users d" using registered_users [OF reg'] .
    show "good ch d'" using g e(1-3) t reg' u by (simp add: good_def nonneg_def)
    show "surplus d cur \<le> surplus d' cur" for cur
      using total_owned_upd [OF e(2,3) u reg reg', of cur] t e(4)
      by (auto simp: surplus_def deposited_def withdrawn_def withdrawal_row_of_def)
  qed (simp add: order_parties_def t)
qed

text \<open>Confirming a pending row counts its amount, once.\<close>

abbreviation confirmed_amount :: "Currency \<Rightarrow> deposit_row \<Rightarrow> int" where
  "confirmed_amount cur r \<equiv> (if dp_status r = DepositStatusConfirmed \<and> dp_currency r = cur then dp_amount r else 0)"

lemma confirmed_rows_none: "\<forall>r\<in>set ds. \<not> is_pending tx to r \<Longrightarrow> confirmed_rows tx to ds = ds"
  by (induction ds) (simp_all add: confirmed_rows_def)

lemma confirmed_rows_ok: "deposit_rows_ok ch (confirmed_rows tx to ds) = deposit_rows_ok ch ds"
proof -
  have "map (\<lambda>r. (dp_tx_hash r, dp_to_address r)) (confirmed_rows tx to ds) =
      map (\<lambda>r. (dp_tx_hash r, dp_to_address r)) ds" by (simp add: confirmed_rows_def)
  moreover have "(\<forall>r\<in>set (confirmed_rows tx to ds). ch (dp_tx_hash r, dp_to_address r) = (dp_currency r, dp_amount r)) \<longleftrightarrow>
      (\<forall>r\<in>set ds. ch (dp_tx_hash r, dp_to_address r) = (dp_currency r, dp_amount r))"
    by (simp only: confirmed_rows_def set_map ball_simps) (rule ball_cong, simp_all)
  ultimately show ?thesis by (simp add: deposit_rows_ok_def)
qed

lemma confirmed_rows_sum:
  assumes "deposit_rows_ok ch ds" "r \<in> set ds" "is_pending tx to r" "ch (tx, to) = (c, a)"
  shows "(\<Sum>r\<leftarrow>confirmed_rows tx to ds. confirmed_amount cur r) =
    (\<Sum>r\<leftarrow>ds. confirmed_amount cur r) + (if c = cur then a else 0)"
  using assms(1,2)
proof (induction ds)
  case (Cons x ds)
  have ok: "deposit_rows_ok ch ds" using Cons.prems(1) by (simp add: deposit_rows_ok_def)
  show ?case
  proof (cases "is_pending tx to x")
    case True
    then have "\<forall>y\<in>set ds. \<not> is_pending tx to y"
      using Cons.prems(1) by (auto simp: deposit_rows_ok_def is_pending_def image_iff)
    moreover have "dp_currency x = c" "dp_amount x = a" "dp_status x = DepositStatusPending"
      using True Cons.prems(1) assms(4) by (auto simp: deposit_rows_ok_def is_pending_def)
    moreover have "confirmed_rows tx to (x # ds) = x\<lparr>dp_status := DepositStatusConfirmed\<rparr> # confirmed_rows tx to ds"
      using True by (simp add: confirmed_rows_def)
    ultimately show ?thesis by (simp add: confirmed_rows_none)
  next
    case False
    with Cons.prems(2) assms(3) have "r \<in> set ds" by auto
    moreover have "confirmed_rows tx to (x # ds) = x # confirmed_rows tx to ds"
      using False by (simp add: confirmed_rows_def)
    ultimately show ?thesis using Cons.IH [OF ok] by simp
  qed
qed simp

lemma confirmDeposit_advances:
  assumes "confirmDeposit bus tx to uid amount cur d = (r, d', out)"
    "ch (tx, to) = (cur, val amount)" "0 \<le> val amount"
  shows "advances ch d d'"
  using confirmDeposit_effect [OF assms(1)]
proof (elim disjE conjE bexE)
  fix row
  assume e: "held d' = (held d)((uid, cur) := held d (uid, cur) + val amount)" "frozen d' = frozen d"
    "db_deposits d' = confirmed_rows tx to (db_deposits d)" "row \<in> set (db_deposits d)" "is_pending tx to row"
  have t: "db_orders d' = db_orders d" "db_withdrawals d' = db_withdrawals d"
    using depositing.confirmDeposit_keeps [OF assms(1), of "db_orders d" "db_withdrawals d"]
    by (simp_all add: orders_and_withdrawals_def)
  show ?thesis
    unfolding advances_def
  proof (intro impI conjI allI)
    assume g: "good ch d"
    then have reg: "registered (db_users d) d" by (simp add: good_def)
    note reg' = owners.confirmDeposit_keeps [OF assms(1) reg]
    show u: "db_users d' = db_users d" using registered_users [OF reg'] .
    show "good ch d'" using g e(1-3) t reg' u assms(3) by (simp add: good_def nonneg_def confirmed_rows_ok)
    show "surplus d c \<le> surplus d' c" for c
      using total_owned_upd [OF e(1,2) u reg reg', of c] t confirmed_rows_sum [where ch = ch and cur = c, OF _ e(4,5)] assms(2) g
      by (simp add: surplus_def deposited_def withdrawn_def e(3) good_def)
  qed (simp add: order_parties_def t)
qed auto

lemma insert_deposit_advances:
  assumes "insert_deposit ev uid d = (r, d')"
    "ch (de_TxHash ev, de_ToAddress ev) = (de_Currency ev, val (de_Amount ev))"
  shows "advances ch d d'"
proof -
  let ?row = "\<lparr>dp_tx_hash = de_TxHash ev, dp_to_address = de_ToAddress ev, dp_currency = de_Currency ev,
     dp_chain = de_Chain ev, dp_amount = val (de_Amount ev), dp_status = DepositStatusPending, dp_user_id = uid\<rparr>"
  let ?keys = "(\<lambda>r. (dp_tx_hash r, dp_to_address r)) ` set (db_deposits d)"
  have "d' = d \<or> (de_TxHash ev, de_ToAddress ev) \<notin> ?keys \<and>
      d' = d\<lparr>db_deposits := db_deposits d @ [?row]\<rparr>"
    using assms(1) unfolding insert_deposit_def
    by (simp only: prod.inject split: if_split_asm) simp_all
  then show ?thesis
  proof (elim disjE conjE)
    assume 2: "(de_TxHash ev, de_ToAddress ev) \<notin> ?keys" "d' = d\<lparr>db_deposits := db_deposits d @ [?row]\<rparr>"
    have "deposit_rows_ok ch (db_deposits d @ [?row])" if "deposit_rows_ok ch (db_deposits d)"
      using that 2(1) assms(2) by (auto simp: deposit_rows_ok_def)
    moreover have "held d' = held d" "frozen d' = frozen d" by (simp_all add: 2(2) held_def frozen_def fun_eq_iff)
    moreover from this have "total_owned d' = total_owned d"
      by (simp add: 2(2) total_owned_def owned_def fun_eq_iff)
    moreover have "deposited d' = deposited d" by (simp add: 2(2) deposited_def fun_eq_iff)
    ultimately show ?thesis
      by (simp add: advances_def good_def nonneg_def order_parties_def surplus_def withdrawn_def 2(2))
  qed simp
qed

lemma ProcessDeposit_advances:
  assumes "ProcessDeposit bus ev d = (r, d', out)"
    "ch (de_TxHash ev, de_ToAddress ev) = (de_Currency ev, val (de_Amount ev))" "0 \<le> val (de_Amount ev)"
  shows "advances ch d d'"
proof -
  obtain r1 d1 where 1: "stmt (select_address_user (de_ToAddress ev) (de_Chain ev)) d = (r1, d1)" by fastforce
  have a1: "advances ch d d1"
    using 1 by (cases rule: stmt_cases) (auto simp: select_address_user_def split: list.splits)
  have a2: "advances ch d1 d2" if "stmt (insert_deposit ev uid) d1 = (x, d2)" for uid x d2
    using that
  proof (cases rule: stmt_cases)
    case (run fs)
    from insert_deposit_advances [where ch = ch, OF run assms(2)] advances_trans [OF advances_faults] show ?thesis
      by blast
  qed simp
  note a3 = confirmDeposit_advances [where ch = ch, OF _ assms(2,3)]
  show ?thesis
    using assms(1) 1 a1 advances_trans [OF a1 a2] advances_trans [OF advances_trans [OF a1 a2] a3]
    by (auto simp: ProcessDeposit_def split: sum.splits prod.splits if_splits)
qed

end
