(* ===== verification/Engine_Trace.thy ===== *)
theory Engine_Trace
  imports Engine_Steps
begin

section \<open>Who trades with whom, and what is handed back (matching/engine.go)\<close>

text \<open>
  An invariant of the concurrent engine about what leaves it: every \<open>trade.executed\<close> event, in
  the log or still to be published, names two orders that callers placed, with their users; and an
  answer hands back at most the quantity that its order had left.
\<close>

subsection \<open>One message\<close>

definition party :: "Order \<Rightarrow> string \<times> string" where
  "party ord = (o_OrderID ord, o_UserID ord)"

definition trade_between :: "(string \<times> string) set \<Rightarrow> json_object \<Rightarrow> bool" where
  "trade_between P j \<longleftrightarrow> (\<exists>m. j = marshal_TradeExecuted (trade_payload m) \<and>
     (m_TakerOrderID m, m_TakerUserID m) \<in> P \<and> (m_MakerOrderID m, m_MakerUserID m) \<in> P)"

lemma trade_between_mono: "trade_between P j \<Longrightarrow> P \<subseteq> Q \<Longrightarrow> trade_between Q j"
  unfolding trade_between_def by blast

definition hands_back :: "int \<Rightarrow> shardResult \<Rightarrow> bool" where
  "hands_back q r = (case sr_remaining r of None \<Rightarrow> True | Some x \<Rightarrow> rem x \<le> q)"

lemma party_simps [simp]: "party (fill_by q ord) = party ord" "party (ord\<lparr>o_Status := st\<rparr>) = party ord"
  by (simp_all add: party_def)

lemma match_list_parties:
  "match_list ahead ts symb clk n ord mks = (ord', mks', tr) \<Longrightarrow>
     (\<forall>t \<in> set tr. (m_TakerOrderID t, m_TakerUserID t) = party ord \<and>
       (m_MakerOrderID t, m_MakerUserID t) \<in> party ` set mks) \<and> party ` set mks' \<subseteq> party ` set mks"
proof (induction rule: match_list_induct)
  case (partial n ord mk mks)
  then show ?case by (auto simp: party_def)
next
  case (full n ord mk mks ord' mks' tr)
  then show ?case by (auto simp: party_def)
qed simp_all

lemma match_raw_parties:
  assumes ok: "book_ok ob" and side: "valid_side ord" and pos: "0 < rem ord"
    and m: "match_raw clk ob ord = Inr (ob', ord', tr)"
  shows "(\<forall>t \<in> set tr. (m_TakerOrderID t, m_TakerUserID t) = party ord \<and>
      (m_MakerOrderID t, m_MakerUserID t) \<in> party ` set (resting ob)) \<and>
    party ` set (resting ob') \<subseteq> party ` set (resting ob) \<and> party ord' = party ord \<and> rem ord' \<le> rem ord"
proof -
  obtain ob2 ord2 tr2 where r: "match_raw clk ob ord = Inr (ob2, ord2, tr2)"
    "match_list (facing ord) (o_Side ord) (ob_symbol ob) clk 0 ord (makers ob ord)
       = (ord2, makers ob2 ord, tr2)"
    "(if o_Side ord = SideBuy then ob_bids ob2 = ob_bids ob else ob_asks ob2 = ob_asks ob)"
    using match_raw_ok [OF ok side] by blast
  have same: "ob' = ob2" "ord' = ord2" "tr = tr2" using m r(1) by auto
  have tk: "ord2 = ord\<lparr>o_FilledQty := o_FilledQty ord2\<rparr>" using match_list_taker [OF r(2)] .
  have p: "party ord2 = party ord" by (subst tk) (simp add: party_def)
  have "0 \<le> available ob ord"
    unfolding available_def by (intro total_rem_nonneg) (metis makers_positive ok less_imp_le set_takeWhileD)
  then have "rem ord2 \<le> rem ord" using match_raw_fill [OF ok side _ r(1)] pos by simp
  moreover have "party ` set (makers ob ord) \<subseteq> party ` set (resting ob)" using makers_resting by blast
  moreover have "party ` set (resting ob2) \<subseteq> party ` set (resting ob)"
    using r(3) match_list_parties [OF r(2)] by (auto simp: resting_def makers_def image_Un split: if_splits)
  ultimately show ?thesis using match_list_parties [OF r(2)] p unfolding same by blast
qed

lemma addToBook_party: "party (snd (addToBook ob ord)) = party ord \<and> rem (snd (addToBook ob ord)) = rem ord"
  by (simp add: addToBook_def addBid_def addAsk_def Let_def party_def rem_eq)

lemma processOrder_parties:
  assumes ok: "book_ok ob" and adm: "admissible ob ord" and p: "processOrder bus clk ob ord = Inr (ob', es)"
  shows "party ` set (resting ob') \<subseteq> party ` set (resting ob) \<union> (if o_Side ord = ''cancel'' then {} else {party ord}) \<and>
    (\<forall>j \<in> set (trade_events es). trade_between (insert (party ord) (party ` set (resting ob))) j \<and> o_Side ord \<noteq> ''cancel'') \<and>
    (\<forall>r \<in> set (replies es). hands_back (rem ord) r)"
proof (cases rule: processOrder_cases [OF ok adm, of bus clk])
  case 1
  then have "ob' = fst (CancelOrder ob (o_OrderID ord))" using p by simp
  then have "party ` set (resting ob') \<subseteq> party ` set (resting ob)"
    using set_CancelOrder [OF ok, of "o_OrderID ord"] by blast
  then show ?thesis using 1 p by (auto simp: hands_back_def empty_result_def split: option.splits)
next
  case 2
  with p show ?thesis
    by (auto simp: reject_order_def Let_def hands_back_def empty_result_def rem_eq)
next
  case (3 ob1 ord1 tr)
  have nc: "o_Side ord \<noteq> ''cancel''" using 3(1) by (auto simp: valid_side_def)
  then have pos: "0 < rem ord" and fresh: "o_OrderID ord \<notin> o_OrderID ` set (resting ob)"
    using adm by (auto simp: admissible_def)
  note mp = match_raw_parties [OF ok 3(1) pos 3(4)]
  have tk: "ord1 = ord\<lparr>o_FilledQty := o_FilledQty ord1\<rparr>"
    using match_raw_ok [OF ok 3(1), of clk] match_list_taker 3(4) by (metis Inr_inject Pair_inject)
  have v1: "valid_side ord1" by (subst tk) (use 3(1) in \<open>simp add: valid_side_def\<close>)
  have "o_OrderID ord1 = o_OrderID ord" by (subst tk) simp
  then have f1: "o_OrderID ord1 \<notin> o_OrderID ` set (resting ob1)"
    using resting_ids_after_match [OF ok 3(1,4)] fresh by auto
  have bk: "party ` set (resting (fst (addToBook ob1 ord1))) \<subseteq> insert (party ord) (party ` set (resting ob))"
    if "0 < rem ord1"
    using book_ok_addToBook(2) [OF 3(5) v1 that f1] mp by auto
  have tr: "trade_between (insert (party ord) (party ` set (resting ob))) (marshal_TradeExecuted (trade_payload t))"
    if "t \<in> set tr" for t
    unfolding trade_between_def using mp that by (intro exI [of _ t]) auto
  show ?thesis
    using p 3(2,3,4) nc mp bk tr addToBook_party [of ob1 ord1]
    by (auto simp: processOrder_def MatchOrder_raw rests_def Let_def hands_back_def empty_result_def
        rem_eq split: prod.splits if_splits)
qed

subsection \<open>The invariant\<close>

text \<open>The parties of the orders that were placed.\<close>

definition known :: "Engine \<Rightarrow> (string \<times> string) set" where
  "known e = {p. \<exists>c k. en_calls e c = Some k \<and> o_Side (c_order k) \<noteq> ''cancel'' \<and> p = party (c_order k)}"

definition answers_call :: "Engine \<Rightarrow> nat \<Rightarrow> shardResult \<Rightarrow> bool" where
  "answers_call e c r \<longleftrightarrow> (\<exists>k. en_calls e c = Some k \<and> hands_back (rem (c_order k)) r)"

definition shard_trace :: "Engine \<Rightarrow> shard \<Rightarrow> bool" where
  "shard_trace e s \<longleftrightarrow> party ` set (resting (sh_book s)) \<subseteq> known e \<and>
     (\<forall>j \<in> set (trade_events (sh_todo s)). trade_between (known e) j) \<and>
     (\<forall>r \<in> set (replies (sh_todo s)). answers_call e (sh_cur s) r)"

definition trace_inv :: "Engine \<Rightarrow> bool" where
  "trace_inv e \<longleftrightarrow> (\<forall>sid s. en_heap e sid = Some s \<longrightarrow> shard_trace e s) \<and>
     (\<forall>c r. en_answers e c = Some r \<longrightarrow> answers_call e c r) \<and>
     (\<forall>c k r. en_calls e c = Some k \<longrightarrow> c_phase k = Returned (Answer r) \<longrightarrow> answers_call e c r) \<and>
     (\<forall>ty j. (''trade.executed'', ty, j) \<in> set (en_log e) \<longrightarrow> trade_between (known e) j)"

text \<open>Calls are never forgotten and keep their order.\<close>

definition calls_grow :: "Engine \<Rightarrow> Engine \<Rightarrow> bool" where
  "calls_grow e e' \<longleftrightarrow> (\<forall>c k. en_calls e c = Some k \<longrightarrow>
     (\<exists>k'. en_calls e' c = Some k' \<and> c_order k' = c_order k))"

lemma known_grow: "calls_grow e e' \<Longrightarrow> known e \<subseteq> known e'"
  by (fastforce simp: known_def calls_grow_def)

lemma answers_grow: "calls_grow e e' \<Longrightarrow> answers_call e c r \<Longrightarrow> answers_call e' c r"
  by (fastforce simp: answers_call_def calls_grow_def)

lemma shard_trace_grow: "calls_grow e e' \<Longrightarrow> shard_trace e s \<Longrightarrow> shard_trace e' s"
  using known_grow [of e e'] trade_between_mono [of "known e" _ "known e'"] answers_grow [of e e' "sh_cur s"]
  unfolding shard_trace_def by auto

lemma trace_inv_frame:
  assumes "calls_grow e e'" "trace_inv e"
    "\<And>sid s. en_heap e' sid = Some s \<Longrightarrow> (\<exists>t. en_heap e sid = Some t \<and> sh_book s = sh_book t \<and>
       sh_todo s = sh_todo t \<and> sh_cur s = sh_cur t) \<or> shard_trace e' s"
    "\<And>c r. en_answers e' c = Some r \<Longrightarrow> en_answers e c = Some r \<or> answers_call e' c r"
    "\<And>c k r. en_calls e' c = Some k \<Longrightarrow> c_phase k = Returned (Answer r) \<Longrightarrow>
       (\<exists>k'. en_calls e c = Some k' \<and> c_phase k' = Returned (Answer r)) \<or> answers_call e' c r"
    "\<And>x. x \<in> set (en_log e') \<Longrightarrow> x \<in> set (en_log e) \<or>
       (\<forall>ty j. x = (''trade.executed'', ty, j) \<longrightarrow> trade_between (known e') j)"
  shows "trace_inv e'"
  unfolding trace_inv_def
proof (intro conjI allI impI)
  fix sid s assume s: "en_heap e' sid = Some s"
  show "shard_trace e' s"
  proof (rule disjE [OF assms(3) [OF s]])
    assume "\<exists>t. en_heap e sid = Some t \<and> sh_book s = sh_book t \<and> sh_todo s = sh_todo t \<and> sh_cur s = sh_cur t"
    then obtain t where t: "en_heap e sid = Some t" "sh_book s = sh_book t" "sh_todo s = sh_todo t" "sh_cur s = sh_cur t"
      by blast
    then have "shard_trace e t" using assms(2) by (simp add: trace_inv_def)
    then have "shard_trace e' t" by (rule shard_trace_grow [OF assms(1)])
    with t(2-4) show ?thesis by (simp add: shard_trace_def)
  qed
next
  fix c r assume "en_answers e' c = Some r"
  with assms(4) [of c r] assms(2) answers_grow [OF assms(1)] show "answers_call e' c r"
    unfolding trace_inv_def by blast
next
  fix c k r assume "en_calls e' c = Some k" "c_phase k = Returned (Answer r)"
  with assms(5) [of c k r] assms(2) answers_grow [OF assms(1)] show "answers_call e' c r"
    unfolding trace_inv_def by blast
next
  fix ty j assume "(''trade.executed'', ty, j) \<in> set (en_log e')"
  with assms(6) [of "(''trade.executed'', ty, j)"] assms(2) known_grow [OF assms(1)]
  show "trade_between (known e') j"
    unfolding trace_inv_def using trade_between_mono by blast
qed

lemma set_phase_grow: "calls_grow e (set_phase c p e)"
  by (auto simp: calls_grow_def set_phase_def)

lemma trace_set_phase:
  assumes "trace_inv e" "\<And>r. p = Returned (Answer r) \<Longrightarrow> answers_call e c r"
  shows "trace_inv (set_phase c p e)"
proof (rule trace_inv_frame [OF set_phase_grow assms(1)])
  fix d k r assume "en_calls (set_phase c p e) d = Some k" "c_phase k = Returned (Answer r)"
  then consider "d = c" "p = Returned (Answer r)" | "en_calls e d = Some k" "c_phase k = Returned (Answer r)"
    by (auto simp: set_phase_def split: if_splits)
  then show "(\<exists>k'. en_calls e d = Some k' \<and> c_phase k' = Returned (Answer r)) \<or> answers_call (set_phase c p e) d r"
    using answers_grow [OF set_phase_grow assms(2)] by cases auto
qed (auto simp: set_phase_def)

lemma trace_set_shard:
  assumes "trace_inv e" "shard_trace e s"
  shows "trace_inv (set_shard sid s e)"
proof -
  have g: "calls_grow e (set_shard sid s e)" by (auto simp: calls_grow_def set_shard_def)
  show ?thesis
    by (rule trace_inv_frame [OF g assms(1)])
      (use shard_trace_grow [OF g assms(2)] in \<open>auto simp: set_shard_def split: if_splits\<close>)
qed

lemma trace_start_call:
  assumes "trace_inv e" "en_calls e c = None"
  shows "trace_inv (start_call c ord e)"
proof -
  have "calls_grow e (start_call c ord e)" using assms(2) by (auto simp: calls_grow_def start_call_def)
  then show ?thesis
    by (rule trace_inv_frame [OF _ assms(1)]) (auto simp: start_call_def split: if_splits option.splits)
qed

lemma trace_take:
  assumes inv: "engine_inv e" and tr: "trace_inv e" and s: "en_heap e sid = Some s"
    and t: "take_order (en_bus e) clk s = Inr s'"
  shows "trace_inv (set_shard sid s' e)"
proof (rule trace_set_shard [OF tr])
  have st: "shard_trace e s" using tr s by (simp add: trace_inv_def)
  show "shard_trace e s'"
  proof (cases "sh_in s")
    case Nil
    with t st show ?thesis by (simp add: take_order_def)
  next
    case (Cons m rest)
    obtain c ord where m: "sh_in s = (c, ord) # rest" using Cons by (cases m) simp
    obtain book es where p: "processOrder (en_bus e) clk (sh_book s) ord = Inr (book, es)"
      "s' = s\<lparr>sh_book := book, sh_in := rest, sh_cur := c, sh_todo := es, sh_got := sh_got s @ [c]\<rparr>"
      using t m by (auto simp: take_order_def split: sum.splits)
    have si: "shard_inv e s" using inv s by (simp add: engine_inv_def heap_inv_def)
    obtain k where k: "en_calls e c = Some k" "c_order k = ord"
      using shard_inv_inD [OF si, of c ord] m by auto
    note pp = processOrder_parties [OF shard_inv_bookD [OF si, THEN conjunct1] head_admissible [OF inv s m] p(1)]
    have kn: "party ord \<in> known e" if "o_Side ord \<noteq> ''cancel''"
      unfolding known_def using k that by blast
    have old: "party ` set (resting (sh_book s)) \<subseteq> known e" using st by (simp add: shard_trace_def)
    have "(if o_Side ord = ''cancel'' then {} else {party ord}) \<subseteq> known e" using kn by simp
    then have "party ` set (resting book) \<subseteq> known e" using pp old by blast
    moreover have "trade_between (known e) j" if "j \<in> set (trade_events es)" for j
    proof (rule trade_between_mono)
      show "trade_between (insert (party ord) (party ` set (resting (sh_book s)))) j" using pp that by blast
      have "o_Side ord \<noteq> ''cancel''" using pp that by blast
      with kn old show "insert (party ord) (party ` set (resting (sh_book s))) \<subseteq> known e" by simp
    qed
    moreover have "\<forall>r \<in> set (replies es). answers_call e c r"
      using pp k by (auto simp: answers_call_def)
    ultimately show ?thesis by (simp add: shard_trace_def p(2))
  qed
qed

lemma trace_act:
  assumes tr: "trace_inv e" and s: "en_heap e sid = Some s" and t: "sh_todo s = ef # efs"
  shows "trace_inv (perform (sh_cur s) ef (set_shard sid (s\<lparr>sh_todo := efs\<rparr>) e))"
proof -
  have st: "shard_trace e s" using tr s by (simp add: trace_inv_def)
  have ev: "set (trade_events efs) \<subseteq> set (trade_events (sh_todo s))" "set (replies efs) \<subseteq> set (replies (sh_todo s))"
    unfolding t by (cases ef; auto)+
  have "shard_trace e (s\<lparr>sh_todo := efs\<rparr>)"
    using st ev by (auto simp: shard_trace_def)
  note base = trace_set_shard [OF tr this, of sid]
  let ?e = "set_shard sid (s\<lparr>sh_todo := efs\<rparr>) e"
  have g: "calls_grow ?e (perform c ef ?e)" for c by (auto simp: calls_grow_def perform_def split: effect.splits)
  show ?thesis
  proof (rule trace_inv_frame [OF g base])
    show "en_answers ?e d = Some r \<or> answers_call (perform (sh_cur s) ef ?e) d r"
      if "en_answers (perform (sh_cur s) ef ?e) d = Some r" for d r
    proof (cases ef)
      case (Reply r')
      have "answers_call e (sh_cur s) r'" using st t Reply by (simp add: shard_trace_def)
      then show ?thesis using that Reply
        by (auto simp: perform_def answers_call_def set_shard_def split: if_splits)
    qed (use that in \<open>simp add: perform_def\<close>)
    show "x \<in> set (en_log ?e) \<or> (\<forall>ty j. x = (''trade.executed'', ty, j) \<longrightarrow>
        trade_between (known (perform (sh_cur s) ef ?e)) j)"
      if "x \<in> set (en_log (perform (sh_cur s) ef ?e))" for x
    proof (cases ef)
      case (Emit topic ty p)
      have "topic = ''trade.executed'' \<Longrightarrow> trade_between (known e) p" using st t Emit by (simp add: shard_trace_def)
      moreover have "known (perform (sh_cur s) ef ?e) = known e"
        by (simp add: known_def perform_def Emit set_shard_def)
      ultimately show ?thesis using that Emit by (auto simp: perform_def)
    qed (use that in \<open>simp add: perform_def\<close>)
  qed (auto simp: perform_def split: effect.splits)
qed

lemma engine_step_trace: "engine_step e e' \<Longrightarrow> engine_inv e \<Longrightarrow> trace_inv e \<Longrightarrow> trace_inv e'"
proof (induction rule: engine_step.induct)
  case (add_symbol e symb)
  have n: "shard_trace e' (new_shard symb)" for e'
    by (simp add: shard_trace_def new_shard_def resting_def NewOrderBook_def)
  show ?case
    by (rule trace_inv_frame [OF _ add_symbol(2)])
      (use n in \<open>auto simp: AddSymbol_def calls_grow_def split: option.splits if_splits\<close>)
next
  case (remove_symbol e symb)
  show ?case
    by (rule trace_inv_frame [OF _ remove_symbol(2)])
      (auto simp: RemoveSymbol_def calls_grow_def split: option.splits if_splits)
next
  case (stop e)
  show ?case
    by (rule trace_inv_frame [OF _ stop(2)]) (auto simp: StopEngine_def calls_grow_def split: if_splits)
next
  case (send e c k sid s)
  have "trace_inv (set_phase c (Waiting sid) (set_shard sid (s\<lparr>sh_in := sh_in s @ [(c, c_order k)],
      sh_sent := sh_sent s @ [c]\<rparr>) e))"
    by (rule trace_set_phase [OF trace_set_shard [OF send.prems(2)]])
      (use send in \<open>auto simp: trace_inv_def shard_trace_def\<close>)
  then show ?case by (simp add: send_order_def)
next
  case (quit e sid s)
  show ?case
    by (rule trace_set_shard [OF quit.prems(2)]) (use quit in \<open>auto simp: trace_inv_def shard_trace_def\<close>)
next
  case (expire_sending e c k sid)
  then show ?case by (intro trace_set_phase) auto
next
  case (expire_waiting e c k sid)
  then show ?case by (intro trace_set_phase) auto
next
  case (receive e c k sid r)
  then show ?case by (intro trace_set_phase) (auto simp: trace_inv_def)
qed (auto intro: trace_start_call trace_take trace_act)

lemma trace_inv_new: "trace_inv (NewEngine bus)"
  by (simp add: trace_inv_def NewEngine_def)

end
