(* ===== verification/Exchange.thy ===== *)
theory Exchange
  imports Ledger Engine_Trace
begin

section \<open>The exchange as one system\<close>

text \<open>
  The order service, the concurrent engine, the settlement service and the wallet service over one
  set of tables. A call of the order service is split where the code calls the engine: what comes
  before (validation, freezing, storing the order), the engine call itself, in every interleaving of
  theory \<open>Engine_Steps\<close>, and what comes after (release, status). Between the two parts any
  other call may run, any published trade may be settled, any statement may fail. The statements of
  one part run without another service's in between.
\<close>

subsection \<open>The two halves of PlaceOrder and CancelOrder (order/service.go)\<close>

definition place_prepare ::
  "OrderService \<Rightarrow> string \<Rightarrow> PlaceOrderRequest \<Rightarrow> db \<Rightarrow>
     panic + (error + PlaceOrderRequest \<times> Currency \<times> decimal) \<times> db" where
  "place_prepare s oid req0 d =
     (case Validate (os_validator s) req0 d of
        Inl p \<Rightarrow> Inl p
      | Inr (Some e, _, d1) \<Rightarrow> Inr (Inl (WrapBefore ''order validation: '' e), d1)
      | Inr (None, req, d1) \<Rightarrow>
          (case freeze_funds s req d1 of
             (Inl e, d2) \<Rightarrow> Inr (Inl e, d2)
           | (Inr (cur, amount), d2) \<Rightarrow>
               (case (if os_repo s then Create (stored_order oid req) d2 else (Inr (), d2)) of
                  (Inl e, d3) \<Rightarrow>
                    Inr (Inl (WrapBefore ''persist order: '' e),
                         unfreezeBalance s (req_UserID req) cur amount d3)
                | (Inr _, d3) \<Rightarrow> Inr (Inr (req, cur, amount), d3))))"

definition place_finish ::
  "OrderService \<Rightarrow> string \<Rightarrow> PlaceOrderRequest \<Rightarrow> Currency \<Rightarrow> decimal \<Rightarrow>
     MatchResult list \<times> Order option \<times> error option \<Rightarrow> db \<Rightarrow> (error + PlaceOrderResponse) \<times> db" where
  "place_finish s oid req cur amount answer d =
     (case answer of
        (matches, remaining, Some e) \<Rightarrow>
          (Inl (WrapBefore ''matching engine: '' e),
           update_status s oid OrderStatusRejected Zero
             (unfreezeBalance s (req_UserID req) cur amount d))
      | (matches, remaining, None) \<Rightarrow>
          (case order_outcome req matches remaining of
             (status, filled) \<Rightarrow>
               (Inr \<lparr>pr_OrderID = oid, pr_ClientOrderID = req_ClientOrderID req,
                   pr_Status = status, pr_Matches = matches, pr_FilledQty = filled\<rparr>,
                update_status s oid status filled (release_after s req cur amount status filled d))))"

lemma PlaceOrder_split:
  "PlaceOrder s oid now eng req0 d =
     (case place_prepare s oid req0 d of
        Inl p \<Rightarrow> Inl p
      | Inr (Inl e, d') \<Rightarrow> Inr (Inl e, d')
      | Inr (Inr (req, cur, amount), d') \<Rightarrow>
          Inr (place_finish s oid req cur amount (eng (engine_order oid now req)) d'))"
proof (cases "Validate (os_validator s) req0 d")
  case (Inr v)
  obtain e req d1 where v: "Validate (os_validator s) req0 d = Inr (e, req, d1)" using Inr by (cases v) auto
  obtain f d2 where f: "freeze_funds s req d1 = (f, d2)" by fastforce
  show ?thesis
  proof (cases e)
    case None
    show ?thesis
    proof (cases f)
      case (Inr t)
      obtain cur amount where t: "f = Inr (cur, amount)" using Inr by (cases t) auto
      obtain c d3 where c: "(if os_repo s then Create (stored_order oid req) d2 else (Inr (), d2)) = (c, d3)"
        by fastforce
      obtain ms left err where a: "eng (engine_order oid now req) = (ms, left, err)" by (metis prod_cases3)
      show ?thesis
        unfolding PlaceOrder_def place_prepare_def place_finish_def v sum.case prod.case None option.case f t c
        by (cases c; cases err) (simp_all add: a split: prod.split)
    qed (simp add: PlaceOrder_def place_prepare_def v None f)
  qed (simp add: PlaceOrder_def place_prepare_def v)
qed (simp add: PlaceOrder_def place_prepare_def)

definition cancel_prepare :: "OrderService \<Rightarrow> string \<Rightarrow> string \<Rightarrow> db \<Rightarrow> (error + StoredOrder) \<times> db" where
  "cancel_prepare s uid oid d =
     (if \<not> os_repo s then (Inl (Errorf ''order persistence not available''), d)
      else
        (case GetByID oid d of
           (Inl e, d1) \<Rightarrow> (Inl e, d1)
         | (Inr so, d1) \<Rightarrow>
             if so_UserID so \<noteq> uid then (Inl ErrUnauthorized, d1)
             else if IsFinal (so_Status so) then
               (Inl (Errorf (''order '' @ oid @ '' is already in final state: '' @ so_Status so)), d1)
             else if \<not> CanTransition (so_Status so) OrderStatusCancelled then
               (Inl (Errorf (''cannot cancel order in status '' @ so_Status so)), d1)
             else (Inr so, d1)))"

definition cancel_finish :: "OrderService \<Rightarrow> string \<Rightarrow> StoredOrder \<Rightarrow> error + Order \<Rightarrow> db \<Rightarrow> error option \<times> db" where
  "cancel_finish s oid so answer d =
     (case answer of
        Inl e \<Rightarrow> (Some e, d)
      | Inr cancelled \<Rightarrow> UpdateStatus oid OrderStatusCancelled Zero (unfreezeCancelOrder s so d))"

lemma CancelOrder_split:
  "service_CancelOrder s engc uid symb oid d =
     (case cancel_prepare s uid oid d of
        (Inl e, d') \<Rightarrow> (Some e, d')
      | (Inr so, d') \<Rightarrow> cancel_finish s oid so (engc symb oid) d')"
  by (auto simp: service_CancelOrder_def cancel_prepare_def cancel_finish_def
      split: sum.split prod.split option.split)

text \<open>What each half keeps, with the amounts that it hands on.\<close>

definition sane_request :: "PlaceOrderRequest \<Rightarrow> bool" where
  "sane_request req \<longleftrightarrow> 0 \<le> val (req_Price req) \<and> 0 < val (req_Quantity req) \<and>
     (req_Side req = SideBuy \<or> req_Side req = SideSell)"

lemma sane_default_tif [simp]: "sane_request (default_tif req) = sane_request req"
  by (simp add: sane_request_def default_tif_def)

lemma freeze_terms_amount:
  assumes "freeze_terms s req d = ((cur, amount), d')" "sane_request req" "nonneg d"
  shows "0 \<le> val amount \<and> (\<exists>fs. d' = d\<lparr>db_faults := fs\<rparr>)"
proof -
  have bal: "0 \<le> val b \<and> (\<exists>fs. d1 = d\<lparr>db_faults := fs\<rparr>)" if "GetBalance uid c d = (Inr b, d1)" for uid c b d1
    using GetBalance_effect [OF that] assms(3) by (auto simp: nonneg_def)
  have err: "\<exists>fs. d1 = d\<lparr>db_faults := fs\<rparr>" if "GetBalance uid c d = (Inl e, d1)" for uid c e d1
    by (rule GetBalance_effect(1) [OF that])
  have "\<exists>fs. d = d\<lparr>db_faults := fs\<rparr>" by (rule exI [of _ "db_faults d"]) simp
  then show ?thesis
    using assms(1,2) bal err
    by (auto simp: freeze_terms_def sane_request_def val_Mul_nonneg split: if_splits option.splits prod.splits sum.splits)
qed

lemma freeze_funds_advances:
  assumes "freeze_funds s req d = (r, d')" "sane_request req" "good ch d"
  shows "advances ch d d' \<and> (\<forall>cur amount. r = Inr (cur, amount) \<longrightarrow> 0 \<le> val amount)"
proof -
  obtain cur amount d1 where t: "freeze_terms s req d = ((cur, amount), d1)" by (metis surj_pair)
  have a: "0 \<le> val amount" and d1: "\<exists>fs. d1 = d\<lparr>db_faults := fs\<rparr>"
    using freeze_terms_amount [OF t assms(2)] assms(3) by (auto simp: good_def)
  obtain r2 d2 where f: "FreezeBalance (req_UserID req) cur amount d1 = (r2, d2)" by fastforce
  have "advances ch d d1" using d1 by auto
  then have "advances ch d d2" by (rule advances_trans) (rule FreezeBalance_advances [OF f a])
  with assms(1) a \<open>advances ch d d1\<close> show ?thesis
    by (auto simp: freeze_funds_def t f split: if_splits sum.splits)
qed

lemma advances_good: "advances ch d d' \<Longrightarrow> good ch d \<Longrightarrow> good ch d'"
  by (simp add: advances_def)

definition markets_ok :: "Validator \<Rightarrow> bool" where
  "markets_ok v \<longleftrightarrow> (\<forall>symb m. v_markets v symb = Some m \<longrightarrow> 0 < val (mc_MinOrderQty m))"

lemma Validate_sane:
  assumes "Validate v req0 d = Inr (None, req, d')" "markets_ok v" "0 \<le> val (req_Price req0)"
  shows "sane_request req"
proof (rule Validate_cases [OF assms(1)])
  fix market
  assume "v_markets v (req_Symbol req0) = Some market" "req = default_tif req0"
    "req_Side req0 = SideBuy \<or> req_Side req0 = SideSell" "check_terms req market = None"
  moreover from this have "0 < val (mc_MinOrderQty market)" "val (mc_MinOrderQty market) \<le> val (req_Quantity req)"
    using assms(2) by (auto simp: markets_ok_def check_terms_None)
  ultimately show ?thesis using assms(3) by (auto simp: sane_request_def)
qed

lemma advances_parties: "advances ch d d' \<Longrightarrow> good ch d \<Longrightarrow> order_parties d \<subseteq> order_parties d'"
  by (simp add: advances_def)

lemma place_prepare_advances:
  assumes "place_prepare s oid req0 d = Inr (r, d')" "markets_ok (os_validator s)" "0 \<le> val (req_Price req0)"
    "good ch d"
  shows "advances ch d d' \<and> (\<forall>req cur amount. r = Inr (req, cur, amount) \<longrightarrow>
    sane_request req \<and> 0 \<le> val amount \<and>
    (os_repo s \<longrightarrow> oid \<notin> fst ` order_parties d \<and> (oid, req_UserID req) \<in> order_parties d'))"
proof -
  obtain e req d1 where v: "Validate (os_validator s) req0 d = Inr (e, req, d1)"
    using assms(1) by (auto simp: place_prepare_def split: sum.splits)
  have a1: "advances ch d d1" using Validate_tables [OF v] by auto
  show ?thesis
  proof (cases e)
    case (Some x)
    then show ?thesis using assms(1) v a1 by (auto simp: place_prepare_def)
  next
    case None
    have sane: "sane_request req" by (rule Validate_sane [OF v [unfolded None] assms(2,3)])
    obtain f d2 where f: "freeze_funds s req d1 = (f, d2)" by fastforce
    note f2 = freeze_funds_advances [OF f sane advances_good [OF a1 assms(4)]]
    have a2: "advances ch d d2" using advances_trans [OF a1] f2 by blast
    show ?thesis
    proof (cases f)
      case (Inl x)
      then show ?thesis using assms(1) v None f a2 by (auto simp: place_prepare_def)
    next
      case (Inr t)
      obtain cur amount where t: "f = Inr (cur, amount)" using Inr by (cases t) auto
      have am: "0 \<le> val amount" using f2 t by blast
      obtain c d3 where c: "(if os_repo s then Create (stored_order oid req) d2 else (Inr (), d2)) = (c, d3)"
        by fastforce
      have a3: "advances ch d2 d3 \<and> (c = Inr () \<longrightarrow> os_repo s \<longrightarrow> oid \<notin> fst ` order_parties d2 \<and>
          (oid, req_UserID req) \<in> order_parties d3)"
        using c Create_advances [of oid req d2 c d3] sane by (auto simp: sane_request_def split: if_splits)
      have d3: "advances ch d d3" by (rule advances_trans [OF a2]) (use a3 in blast)
      have un: "advances ch d (unfreezeBalance s (req_UserID req) cur amount d3)"
        by (rule advances_trans [OF d3 unfreezeBalance_advances [OF am]])
      have new: "oid \<notin> fst ` order_parties d" if "oid \<notin> fst ` order_parties d2"
        using that advances_parties [OF a2 assms(4)] by blast
      show ?thesis
        using assms(1) v None f t c a3 d3 un new sane am
        by (cases c) (auto simp: place_prepare_def)
    qed
  qed
qed

lemma order_outcome_filled:
  assumes "order_outcome req ms left = (status, filled)" "0 \<le> val (req_Quantity req)"
    "\<And>x. left = Some x \<Longrightarrow> rem x \<le> val (req_Quantity req)"
  shows "0 \<le> val filled"
  using assms by (auto simp: order_outcome_def Let_def rem_eq Remaining_def split: option.splits if_splits)

lemma place_finish_advances:
  assumes "place_finish s oid req cur amount (ms, left, err) d = (r, d')" "sane_request req" "0 \<le> val amount"
    "\<And>x. left = Some x \<Longrightarrow> rem x \<le> val (req_Quantity req)"
  shows "advances ch d d'"
proof (cases err)
  case (Some e)
  have "advances ch d (update_status s oid OrderStatusRejected Zero (unfreezeBalance s (req_UserID req) cur amount d))"
    by (rule advances_trans [OF unfreezeBalance_advances [OF assms(3)] update_status_advances])
  then show ?thesis using assms(1) Some by (simp add: place_finish_def)
next
  case None
  obtain status filled where o': "order_outcome req ms left = (status, filled)" by fastforce
  have f: "0 \<le> val filled" using order_outcome_filled [OF o' _ assms(4)] assms(2) by (simp add: sane_request_def)
  have "advances ch d (release_after s req cur amount status filled d)"
    using f assms(2,3) by (auto simp: release_after_def sane_request_def intro!: unfreezeBalance_advances val_Mul_nonneg)
  then have "advances ch d (update_status s oid status filled (release_after s req cur amount status filled d))"
    by (rule advances_trans) (rule update_status_advances)
  then show ?thesis using assms(1) None o' by (simp add: place_finish_def)
qed

text \<open>An order as it is read back from the tables.\<close>

definition sane_stored :: "StoredOrder \<Rightarrow> bool" where
  "sane_stored so \<longleftrightarrow> (\<exists>p q f. NewFromString (so_Price so) = Inr p \<and> NewFromString (so_Quantity so) = Inr q \<and>
     NewFromString (so_FilledQty so) = Inr f \<and> 0 \<le> val p \<and> 0 \<le> val q)"

lemma cancel_prepare_advances:
  assumes "cancel_prepare s uid oid d = (r, d')" "good ch d"
  shows "advances ch d d' \<and> (\<forall>so. r = Inr so \<longrightarrow> sane_stored so)"
proof (cases "GetByID oid d")
  case (Pair g d1)
  have "advances ch d d1" using GetByID_tables [OF Pair] by auto
  moreover have "sane_stored so" if g: "g = Inr so" for so
  proof -
    obtain r1 d2 where s: "stmt (select_order_stmt oid) d = (r1, d2)" by fastforce
    obtain row where row: "r1 = Inr (Some row)" "so = stored_of_row row"
      using Pair g s by (auto simp: GetByID_def split: sum.splits option.splits)
    have "find (\<lambda>r. r_order_id r = oid) (db_orders d) = Some row"
      using s row(1) by (cases rule: stmt_cases) (auto simp: select_order_stmt_def)
    then have "row \<in> set (db_orders d)" by (auto simp: find_Some_iff)
    then show ?thesis
      using assms(2) row(2) by (auto simp: sane_stored_def stored_of_row_def NewFromString_numeric_text
          good_def order_rows_ok_def)
  qed
  ultimately show ?thesis
    using assms(1) Pair by (auto simp: cancel_prepare_def split: if_splits sum.splits)
qed

lemma unfreezeCancelOrder_advances: "sane_stored so \<Longrightarrow> advances ch d (unfreezeCancelOrder s so d)"
  by (auto simp: unfreezeCancelOrder_def sane_stored_def Let_def val_Mul_nonneg
      intro!: unfreezeBalance_advances split: option.split)

lemma cancel_finish_advances:
  assumes "cancel_finish s oid so answer d = (r, d')" "sane_stored so" "os_repo s"
  shows "advances ch d d'"
proof (cases answer)
  case (Inr c)
  have "d' = update_status s oid OrderStatusCancelled Zero (unfreezeCancelOrder s so d)"
    using assms(1,3) Inr by (simp add: cancel_finish_def update_status_def)
  then show ?thesis
    using advances_trans [OF unfreezeCancelOrder_advances [OF assms(2)] update_status_advances] by simp
qed (use assms(1) in \<open>simp add: cancel_finish_def\<close>)

subsection \<open>The system\<close>

text \<open>
  What a caller of the order service waits for: the answer to a placed order or to a cancellation,
  with what it keeps on its stack meanwhile.
\<close>

datatype pending =
    Placing string PlaceOrderRequest Currency decimal
  | Cancelling string Symbol StoredOrder

record exchange =
  x_db :: db
  x_engine :: Engine
  x_wallet :: wallet_service
  x_pending :: "nat \<rightharpoonup> pending"

text \<open>
  How the services are set up: the order service, the fee tiers, what the database makes of the
  trade statement, the cryptography of the wallet, and the chain that the deposit events report.
\<close>

record deployment =
  dp_orders :: OrderService
  dp_fees :: FeeService
  dp_bus :: bool
  dp_insert :: "trade_row \<Rightarrow> unit sql"
  dp_crypto :: crypto
  dp_pays :: "string \<times> string \<Rightarrow> Currency \<times> int"

definition deployed :: "deployment \<Rightarrow> bool" where
  "deployed D \<longleftrightarrow> os_repo (dp_orders D) \<and> markets_ok (os_validator (dp_orders D)) \<and>
     records_trade_only (dp_insert D) \<and> (\<forall>k. 0 \<le> snd (dp_pays D k))"

definition reports :: "deployment \<Rightarrow> DepositEvent \<Rightarrow> bool" where
  "reports D ev \<longleftrightarrow> dp_pays D (de_TxHash ev, de_ToAddress ev) = (de_Currency ev, val (de_Amount ev))"

inductive exchange_step :: "deployment \<Rightarrow> exchange \<Rightarrow> exchange \<Rightarrow> bool" for D where
  faults: "exchange_step D x (x\<lparr>x_db := (x_db x)\<lparr>db_faults := fs\<rparr>\<rparr>)"
| register: "uid \<notin> set (db_users (x_db x)) \<Longrightarrow>
    exchange_step D x (x\<lparr>x_db := (x_db x)\<lparr>db_users := db_users (x_db x) @ [uid]\<rparr>\<rparr>)"
| place_call: "place_prepare (dp_orders D) oid req0 (x_db x) = Inr (Inr (req, cur, amount), d) \<Longrightarrow>
    0 \<le> val (req_Price req0) \<Longrightarrow> en_calls (x_engine x) c = None \<Longrightarrow>
    exchange_step D x (x\<lparr>x_db := d, x_engine := start_call c (engine_order oid now req) (x_engine x),
      x_pending := (x_pending x)(c \<mapsto> Placing oid req cur amount)\<rparr>)"
| place_refused: "place_prepare (dp_orders D) oid req0 (x_db x) = Inr (Inl e, d) \<Longrightarrow>
    0 \<le> val (req_Price req0) \<Longrightarrow> exchange_step D x (x\<lparr>x_db := d\<rparr>)"
| place_return: "x_pending x c = Some (Placing oid req cur amount) \<Longrightarrow>
    en_calls (x_engine x) c = Some k \<Longrightarrow> c_phase k = Returned r \<Longrightarrow>
    place_finish (dp_orders D) oid req cur amount (place_return (req_Symbol req) ctx_err r) (x_db x) = (resp, d) \<Longrightarrow>
    exchange_step D x (x\<lparr>x_db := d, x_pending := (x_pending x)(c := None)\<rparr>)"
| cancel_call: "cancel_prepare (dp_orders D) uid oid (x_db x) = (Inr so, d) \<Longrightarrow>
    en_calls (x_engine x) c = None \<Longrightarrow>
    exchange_step D x (x\<lparr>x_db := d, x_engine := start_call c (cancel_msg symb oid) (x_engine x),
      x_pending := (x_pending x)(c \<mapsto> Cancelling oid symb so)\<rparr>)"
| cancel_refused: "cancel_prepare (dp_orders D) uid oid (x_db x) = (Inl e, d) \<Longrightarrow>
    exchange_step D x (x\<lparr>x_db := d\<rparr>)"
| cancel_return: "x_pending x c = Some (Cancelling oid symb so) \<Longrightarrow>
    en_calls (x_engine x) c = Some k \<Longrightarrow> c_phase k = Returned r \<Longrightarrow>
    cancel_finish (dp_orders D) oid so (cancel_return symb ctx_err r) (x_db x) = (err, d) \<Longrightarrow>
    exchange_step D x (x\<lparr>x_db := d, x_pending := (x_pending x)(c := None)\<rparr>)"
| engine: "engine_step (x_engine x) e \<Longrightarrow> dom (en_calls e) = dom (en_calls (x_engine x)) \<Longrightarrow>
    exchange_step D x (x\<lparr>x_engine := e\<rparr>)"
| settle: "(''trade.executed'', ty, j) \<in> set (en_log (x_engine x)) \<Longrightarrow>
    trade_handler (dp_insert D) (dp_bus D) (dp_fees D) j (x_db x) = Inr (err, d, evs) \<Longrightarrow>
    exchange_step D x (x\<lparr>x_db := d\<rparr>)"
| address: "GenerateDepositAddress (dp_crypto D) rnd (x_wallet x) uid cur chain (x_db x) = (r, w, d) \<Longrightarrow>
    exchange_step D x (x\<lparr>x_db := d, x_wallet := w\<rparr>)"
| deposit: "reports D ev \<Longrightarrow> ProcessDeposit (dp_bus D) ev (x_db x) = (err, d, evs) \<Longrightarrow>
    exchange_step D x (x\<lparr>x_db := d\<rparr>)"
| withdraw: "RequestWithdrawal (x_wallet x) wid wreq (x_db x) = (res, d) \<Longrightarrow>
    exchange_step D x (x\<lparr>x_db := d\<rparr>)"

text \<open>It starts on good tables whose deposits cover what the users own, with no order in the engine.\<close>

inductive exchange_reachable :: "deployment \<Rightarrow> exchange \<Rightarrow> bool" for D where
  start: "good (dp_pays D) d \<Longrightarrow> (\<And>cur. 0 \<le> surplus d cur) \<Longrightarrow>
    exchange_reachable D \<lparr>x_db = d, x_engine = NewEngine True, x_wallet = w, x_pending = Map.empty\<rparr>"
| more: "exchange_reachable D x \<Longrightarrow> exchange_step D x x' \<Longrightarrow> exchange_reachable D x'"

subsection \<open>The invariant\<close>

definition pending_ok :: "Engine \<Rightarrow> nat \<Rightarrow> pending \<Rightarrow> bool" where
  "pending_ok e c p \<longleftrightarrow> (case p of
     Placing oid req cur amount \<Rightarrow> sane_request req \<and> 0 \<le> val amount \<and>
       (\<exists>k. en_calls e c = Some k \<and> rem (c_order k) = val (req_Quantity req))
   | Cancelling oid symb so \<Rightarrow> sane_stored so)"

definition exchange_inv :: "deployment \<Rightarrow> exchange \<Rightarrow> bool" where
  "exchange_inv D x \<longleftrightarrow> good (dp_pays D) (x_db x) \<and> (\<forall>cur. 0 \<le> surplus (x_db x) cur) \<and>
     engine_reachable True (x_engine x) \<and> trace_inv (x_engine x) \<and>
     known (x_engine x) \<subseteq> order_parties (x_db x) \<and>
     (\<forall>c p. x_pending x c = Some p \<longrightarrow> pending_ok (x_engine x) c p)"

text \<open>The tables move on, the engine stays.\<close>

lemma exchange_inv_db:
  assumes "exchange_inv D x" "advances (dp_pays D) (x_db x) d" "\<And>c p. ps c = Some p \<Longrightarrow> x_pending x c = Some p"
  shows "exchange_inv D (x\<lparr>x_db := d, x_pending := ps\<rparr>)"
proof -
  have g: "good (dp_pays D) (x_db x)" using assms(1) by (simp add: exchange_inv_def)
  have "0 \<le> surplus (x_db x) cur" for cur using assms(1) by (simp add: exchange_inv_def)
  with assms(2) g have s: "0 \<le> surplus d cur" for cur by (meson advances_def order_trans)
  have "good (dp_pays D) d" "order_parties (x_db x) \<subseteq> order_parties d"
    using assms(2) g by (simp_all add: advances_def)
  with s assms(1,3) show ?thesis by (auto simp: exchange_inv_def)
qed

lemmas exchange_inv_tables = exchange_inv_db [where ps = "x_pending x" and x = x for x, simplified]

lemma x_wallet_irrelevant: "exchange_inv D (x\<lparr>x_wallet := w\<rparr>) = exchange_inv D x"
  by (simp add: exchange_inv_def)

lemma pending_ok_grow:
  "pending_ok e c p \<Longrightarrow> calls_grow e e' \<Longrightarrow> pending_ok e' c p"
  by (fastforce simp: pending_ok_def calls_grow_def split: pending.splits)

text \<open>The engine moves on, and the tables with it.\<close>

lemma exchange_inv_engine:
  assumes "exchange_inv D x" "advances (dp_pays D) (x_db x) d" "engine_step (x_engine x) e"
    "calls_grow (x_engine x) e" "known e \<subseteq> known (x_engine x) \<union> order_parties d"
    "\<And>c p. ps c = Some p \<Longrightarrow> x_pending x c = Some p \<or> pending_ok e c p"
  shows "exchange_inv D (x\<lparr>x_db := d, x_engine := e, x_pending := ps\<rparr>)"
proof -
  note inv = assms(1) [unfolded exchange_inv_def]
  have t: "exchange_inv D (x\<lparr>x_db := d\<rparr>)" by (rule exchange_inv_tables [OF assms(1,2)])
  have ei: "engine_inv (x_engine x)" using inv engine_reachable_inv by blast
  have "engine_reachable True e" using inv assms(3) by (blast intro: engine_reachable.more)
  moreover have "trace_inv e" using engine_step_trace [OF assms(3) ei] inv by blast
  moreover have "known e \<subseteq> order_parties d" using t assms(5) by (auto simp: exchange_inv_def)
  moreover have "pending_ok e c p" if "ps c = Some p" for c p
    using assms(6) [OF that] inv pending_ok_grow [OF _ assms(4)] by blast
  ultimately show ?thesis using t by (simp add: exchange_inv_def)
qed

lemma engine_step_grow: "engine_step e e' \<Longrightarrow> calls_grow e e'"
  by (induction rule: engine_step.induct)
    (auto simp: calls_grow_def AddSymbol_def RemoveSymbol_def StopEngine_def start_call_def send_order_def
      set_phase_def set_shard_def perform_def split: option.splits effect.splits)

lemma known_same_dom: "calls_grow e e' \<Longrightarrow> dom (en_calls e') = dom (en_calls e) \<Longrightarrow> known e' \<subseteq> known e"
proof
  fix p assume g: "calls_grow e e'" and d: "dom (en_calls e') = dom (en_calls e)" and "p \<in> known e'"
  then obtain c k' where k': "en_calls e' c = Some k'" "o_Side (c_order k') \<noteq> ''cancel''" "p = party (c_order k')"
    by (auto simp: known_def)
  then obtain k where k: "en_calls e c = Some k" using d by (metis domD domI)
  then have "c_order k' = c_order k" using g k'(1) by (fastforce simp: calls_grow_def)
  with k k' show "p \<in> known e" by (auto simp: known_def)
qed

lemma start_call_grow: "en_calls e c = None \<Longrightarrow> calls_grow e (start_call c ord e)"
  by (auto simp: calls_grow_def start_call_def)

lemma known_start_call:
  "known (start_call c ord e) \<subseteq> known e \<union> (if o_Side ord = ''cancel'' then {} else {party ord})"
  by (auto simp: known_def start_call_def split: if_splits)

lemma engine_order_facts [simp]:
  "rem (engine_order oid now req) = val (req_Quantity req)" "o_Side (engine_order oid now req) = req_Side req"
  "party (engine_order oid now req) = (oid, req_UserID req)" "o_OrderID (engine_order oid now req) = oid"
  by (simp_all add: engine_order_def rem_eq party_def)

lemma answered_remaining:
  assumes "exchange_inv D x" "x_pending x c = Some (Placing oid req cur amount)"
    "en_calls (x_engine x) c = Some k" "c_phase k = Returned r"
    "place_return symb ctx_err r = (ms, Some y, err)"
  shows "rem y \<le> val (req_Quantity req)"
proof -
  obtain a where a: "r = Answer a" "sr_remaining a = Some y"
    using assms(5) by (cases r) (auto simp: place_return_def)
  have "trace_inv (x_engine x)" using assms(1) by (simp add: exchange_inv_def)
  then have "answers_call (x_engine x) c a" using assms(3,4) a(1) unfolding trace_inv_def by blast
  then have "rem y \<le> rem (c_order k)" using assms(3) a(2) by (simp add: answers_call_def hands_back_def)
  moreover have "pending_ok (x_engine x) c (Placing oid req cur amount)" using assms(1,2) by (simp add: exchange_inv_def)
  ultimately show ?thesis using assms(3) by (simp add: pending_ok_def)
qed

lemma place_call_inv:
  assumes inv: "exchange_inv D x" and dep: "deployed D"
    and p: "place_prepare (dp_orders D) oid req0 (x_db x) = Inr (Inr (req, cur, amount), d)"
    "0 \<le> val (req_Price req0)" and c: "en_calls (x_engine x) c = None"
  shows "exchange_inv D (x\<lparr>x_db := d, x_engine := start_call c (engine_order oid now req) (x_engine x),
      x_pending := (x_pending x)(c \<mapsto> Placing oid req cur amount)\<rparr>)"
proof -
  let ?o = "engine_order oid now req"
  have g: "good (dp_pays D) (x_db x)" and kn: "known (x_engine x) \<subseteq> order_parties (x_db x)"
    using inv by (simp_all add: exchange_inv_def)
  have repo: "os_repo (dp_orders D)" "markets_ok (os_validator (dp_orders D))" using dep by (simp_all add: deployed_def)
  note pp = place_prepare_advances [OF p(1) repo(2) p(2) g]
  then have a: "advances (dp_pays D) (x_db x) d" "sane_request req" "0 \<le> val amount"
    "oid \<notin> fst ` order_parties (x_db x)" "(oid, req_UserID req) \<in> order_parties d" using repo(1) by auto
  have side: "valid_side ?o" "o_Side ?o \<noteq> ''cancel''" using a(2) by (auto simp: valid_side_def sane_request_def)
  have "\<not> placed (x_engine x) c' oid" for c'
  proof
    assume "placed (x_engine x) c' oid"
    then have "oid \<in> fst ` known (x_engine x)"
      by (force simp: placed_def known_def party_def image_iff split: option.splits)
    with kn a(4) show False by blast
  qed
  then have "new_order (x_engine x) ?o" using side a(2) by (simp add: new_order_def sane_request_def)
  then have st: "engine_step (x_engine x) (start_call c ?o (x_engine x))" by (rule engine_step.place [OF c])
  show ?thesis
  proof (rule exchange_inv_engine [OF inv a(1) st start_call_grow [OF c]])
    show "known (start_call c ?o (x_engine x)) \<subseteq> known (x_engine x) \<union> order_parties d"
      using known_start_call [of c ?o "x_engine x"] a(5) side(2) by auto
    fix c' p assume "((x_pending x)(c \<mapsto> Placing oid req cur amount)) c' = Some p"
    then show "x_pending x c' = Some p \<or> pending_ok (start_call c ?o (x_engine x)) c' p"
      using a(2,3) by (auto simp: pending_ok_def start_call_def split: if_splits)
  qed
qed

lemma cancel_call_inv:
  assumes inv: "exchange_inv D x" and p: "cancel_prepare (dp_orders D) uid oid (x_db x) = (Inr so, d)"
    and c: "en_calls (x_engine x) c = None"
  shows "exchange_inv D (x\<lparr>x_db := d, x_engine := start_call c (cancel_msg symb oid) (x_engine x),
      x_pending := (x_pending x)(c \<mapsto> Cancelling oid symb so)\<rparr>)"
proof -
  have g: "good (dp_pays D) (x_db x)" using inv by (simp add: exchange_inv_def)
  note a = cancel_prepare_advances [OF p g]
  show ?thesis
  proof (rule exchange_inv_engine [OF inv _ engine_step.cancel [OF c] start_call_grow [OF c]])
    show "advances (dp_pays D) (x_db x) d" using a by blast
    show "known (start_call c (cancel_msg symb oid) (x_engine x)) \<subseteq> known (x_engine x) \<union> order_parties d"
      using known_start_call [of c "cancel_msg symb oid" "x_engine x"] by (auto simp: cancel_msg_def)
    fix c' p assume "((x_pending x)(c \<mapsto> Cancelling oid symb so)) c' = Some p"
    then show "x_pending x c' = Some p \<or> pending_ok (start_call c (cancel_msg symb oid) (x_engine x)) c' p"
      using a by (auto simp: pending_ok_def split: if_splits)
  qed
qed

lemma register_advances:
  assumes "good ch d" "uid \<notin> set (db_users d)" "d' = d\<lparr>db_users := db_users d @ [uid]\<rparr>"
  shows "good ch d' \<and> surplus d' cur = surplus d cur \<and> order_parties d' = order_parties d"
proof -
  have reg: "registered (db_users d) d" using assms(1) by (simp add: good_def)
  then have "db_accounts d (uid, cur) = None" using assms(2) registered_known by (metis fst_conv not_Some_eq)
  then have "owned d (uid, cur) = 0" by (simp add: owned_def held_def frozen_def)
  moreover have "owned d' k = owned d k" for k by (simp add: assms(3) owned_def held_def frozen_def)
  ultimately have "total_owned d' cur = total_owned d cur" using assms(2,3) by (simp add: total_owned_def)
  moreover have "registered (db_users d') d'" using reg by (auto simp: assms(3) registered_def)
  moreover have "nonneg d'" using assms(1) by (simp add: assms(3) good_def nonneg_def held_def frozen_def)
  ultimately show ?thesis
    using assms(1) by (simp add: good_def surplus_def deposited_def withdrawn_def order_parties_def assms(3))
qed

lemma exchange_step_inv:
  assumes "exchange_step D x x'" "deployed D" "exchange_inv D x"
  shows "exchange_inv D x'"
  using assms(1)
proof cases
  case (faults fs)
  then show ?thesis using exchange_inv_tables [OF assms(3) advances_faults] by simp
next
  case (register uid)
  have "good (dp_pays D) (x_db x)" using assms(3) by (simp add: exchange_inv_def)
  from register_advances [OF this register(2) refl] assms(3) show ?thesis
    by (simp add: register(1) exchange_inv_def)
next
  case (place_call oid req0 req cur amount d c now)
  then show ?thesis using place_call_inv [OF assms(3,2)] by simp
next
  case (place_refused oid req0 e d)
  have "good (dp_pays D) (x_db x)" "markets_ok (os_validator (dp_orders D))"
    using assms(2,3) by (simp_all add: exchange_inv_def deployed_def)
  with place_prepare_advances [OF place_refused(2)] place_refused exchange_inv_tables [OF assms(3)] show ?thesis by simp
next
  case (place_return c oid req cur amount k r ctx_err resp d)
  obtain ms left err where a: "place_return (req_Symbol req) ctx_err r = (ms, left, err)" by (metis prod_cases3)
  have ok: "sane_request req" "0 \<le> val amount"
    using assms(3) place_return(2) by (fastforce simp: exchange_inv_def pending_ok_def)+
  have "rem y \<le> val (req_Quantity req)" if "left = Some y" for y
    using answered_remaining [OF assms(3) place_return(2-4)] a that by blast
  then have "advances (dp_pays D) (x_db x) d"
    by (rule place_finish_advances [OF place_return(5) [unfolded a] ok])
  then show ?thesis unfolding place_return(1) by (rule exchange_inv_db [OF assms(3)]) (simp split: if_splits)
next
  case (cancel_call uid oid so d c symb)
  then show ?thesis using cancel_call_inv [OF assms(3)] by simp
next
  case (cancel_refused uid oid e d)
  have "good (dp_pays D) (x_db x)" using assms(3) by (simp add: exchange_inv_def)
  with cancel_prepare_advances [OF cancel_refused(2)] cancel_refused exchange_inv_tables [OF assms(3)] show ?thesis by simp
next
  case (cancel_return c oid symb so k r ctx_err err d)
  have "pending_ok (x_engine x) c (Cancelling oid symb so)" using assms(3) cancel_return(2) by (simp add: exchange_inv_def)
  then have "advances (dp_pays D) (x_db x) d"
    using cancel_finish_advances [OF cancel_return(5)] assms(2) by (simp add: pending_ok_def deployed_def)
  then show ?thesis unfolding cancel_return(1) by (rule exchange_inv_db [OF assms(3)]) (simp split: if_splits)
next
  case (engine e)
  have g: "calls_grow (x_engine x) e" by (rule engine_step_grow [OF engine(2)])
  have "exchange_inv D (x\<lparr>x_db := x_db x, x_engine := e, x_pending := x_pending x\<rparr>)"
    by (rule exchange_inv_engine [OF assms(3) advances_refl engine(2) g])
      (use known_same_dom [OF g engine(3)] in auto)
  then show ?thesis by (simp add: engine(1))
next
  case (settle ty j err d evs)
  have "records_trade_only (dp_insert D)" using assms(2) by (simp add: deployed_def)
  then have "advances (dp_pays D) (x_db x) d"
    using settle(3) SettleTrade_advances by (auto simp: trade_handler_def split: sum.splits)
  then show ?thesis unfolding settle(1) by (rule exchange_inv_tables [OF assms(3)])
next
  case (address rnd uid cur chain r w d)
  have "exchange_inv D (x\<lparr>x_db := d\<rparr>)"
    by (rule exchange_inv_tables [OF assms(3) GenerateDepositAddress_advances [OF address(2)]])
  then show ?thesis using x_wallet_irrelevant [where x = "x\<lparr>x_db := d\<rparr>"] by (simp add: address(1))
next
  case (deposit ev err d evs)
  have "0 \<le> snd (dp_pays D (de_TxHash ev, de_ToAddress ev))" using assms(2) unfolding deployed_def by blast
  then have "advances (dp_pays D) (x_db x) d"
    using ProcessDeposit_advances [OF deposit(3), of "dp_pays D"] deposit(2) by (simp add: reports_def)
  then show ?thesis unfolding deposit(1) by (rule exchange_inv_tables [OF assms(3)])
next
  case (withdraw wid wreq res d)
  then show ?thesis using exchange_inv_tables [OF assms(3) RequestWithdrawal_advances] by simp
qed

lemma exchange_reachable_inv: "exchange_reachable D x \<Longrightarrow> deployed D \<Longrightarrow> exchange_inv D x"
proof (induction rule: exchange_reachable.induct)
  case (start d w)
  have "known (NewEngine True) = {}" by (simp add: known_def NewEngine_def)
  with start show ?case by (simp add: exchange_inv_def trace_inv_new engine_reachable.start)
next
  case (more x x')
  then show ?case using exchange_step_inv by blast
qed

subsection \<open>Properties\<close>


text \<open>C5. The engine under the order service is safe and what it trades is accounted for: the orders it
  is sent meet what the engine needs of its callers, so every book is well formed and uncrossed and no
  shard panics; and every trade it publishes is between two orders that are stored, for the very users
  the trade names.\<close>

theorem exchange_trades_stored:
  assumes "deployed D" "exchange_reachable D x"
  shows "(\<forall>sid s clk p. en_heap (x_engine x) sid = Some s \<longrightarrow> book_ok (sh_book s) \<and> uncrossed (sh_book s) \<and>
      (sh_todo s = [] \<longrightarrow> take_order True clk s \<noteq> Inl p)) \<and>
    (\<forall>ty j. (''trade.executed'', ty, j) \<in> set (en_log (x_engine x)) \<longrightarrow>
      (\<exists>m. j = marshal_TradeExecuted (trade_payload m) \<and>
        (m_TakerOrderID m, m_TakerUserID m) \<in> order_parties (x_db x) \<and>
        (m_MakerOrderID m, m_MakerUserID m) \<in> order_parties (x_db x)))"
proof -
  have inv: "exchange_inv D x" by (rule exchange_reachable_inv [OF assms(2,1)])
  then have r: "engine_reachable True (x_engine x)" and ei: "engine_inv (x_engine x)"
    using engine_reachable_inv by (auto simp: exchange_inv_def)
  have "book_ok (sh_book s) \<and> uncrossed (sh_book s) \<and> (sh_todo s = [] \<longrightarrow> take_order True clk s \<noteq> Inl p)"
    if "en_heap (x_engine x) sid = Some s" for sid s clk p
    using shard_inv_bookD [OF reachable_shard [OF r that]] take_order_ok [OF ei that, of clk]
      engine_bus_constant [OF r] by auto
  moreover have "trade_between (order_parties (x_db x)) j"
    if "(''trade.executed'', ty, j) \<in> set (en_log (x_engine x))" for ty j
    using inv that trade_between_mono unfolding exchange_inv_def trace_inv_def by blast
  ultimately show ?thesis unfolding trade_between_def by blast
qed

subsection \<open>A run with a trade\<close>

text \<open>The events among the effects of a message, and a message processed to its end.\<close>

fun emitted :: "effect list \<Rightarrow> (string \<times> EventType \<times> json_object) list" where
  "emitted [] = []"
| "emitted (Reply r # es) = emitted es"
| "emitted (Emit topic ty p # es) = (topic, ty, p) # emitted es"

definition quiet_step :: "Engine \<Rightarrow> Engine \<Rightarrow> bool" where
  "quiet_step e e' \<longleftrightarrow> engine_step e e' \<and> dom (en_calls e') = dom (en_calls e)"

lemma exchange_quiet:
  assumes "quiet_step\<^sup>*\<^sup>* (x_engine x) e" "exchange_reachable D x"
  shows "exchange_reachable D (x\<lparr>x_engine := e\<rparr>)"
  using assms(1)
proof (induction rule: rtranclp_induct)
  case (step e1 e2)
  from exchange_reachable.more [OF step.IH exchange_step.engine [of "x\<lparr>x_engine := e1\<rparr>" e2]] step.hyps(2)
  show ?case by (simp add: quiet_step_def)
qed (simp add: assms(2))

lemma acts_run:
  assumes "en_heap e sid = Some (s\<lparr>sh_todo := es\<rparr>)"
  shows "\<exists>e'. quiet_step\<^sup>*\<^sup>* e e' \<and> en_heap e' = (en_heap e)(sid \<mapsto> s\<lparr>sh_todo := []\<rparr>) \<and>
    en_log e' = en_log e @ emitted es \<and> en_calls e' = en_calls e \<and> en_shards e' = en_shards e \<and> en_bus e' = en_bus e"
  using assms
proof (induction es arbitrary: e)
  case Nil
  then show ?case by (intro exI [of _ e]) (auto simp: fun_upd_idem)
next
  case (Cons ef es)
  let ?e = "perform (sh_cur s) ef (set_shard sid (s\<lparr>sh_todo := es\<rparr>) e)"
  have st: "engine_step e ?e"
    using engine_step.act [OF Cons.prems, of ef es] by simp
  have f: "en_heap ?e = (en_heap e)(sid \<mapsto> s\<lparr>sh_todo := es\<rparr>)" "en_calls ?e = en_calls e"
    "en_shards ?e = en_shards e" "en_bus ?e = en_bus e" "en_log ?e = en_log e @ emitted [ef]"
    by (cases ef; simp add: perform_def set_shard_def)+
  have q: "quiet_step e ?e" using st f(2) by (simp add: quiet_step_def)
  have "en_heap ?e sid = Some (s\<lparr>sh_todo := es\<rparr>)" by (simp add: f(1))
  from Cons.IH [OF this] obtain e' where e': "quiet_step\<^sup>*\<^sup>* ?e e'"
    "en_heap e' = (en_heap ?e)(sid \<mapsto> s\<lparr>sh_todo := []\<rparr>)" "en_log e' = en_log ?e @ emitted es"
    "en_calls e' = en_calls ?e" "en_shards e' = en_shards ?e" "en_bus e' = en_bus ?e" by blast
  have "emitted (ef # es) = emitted [ef] @ emitted es" by (cases ef) simp_all
  with e' f converse_rtranclp_into_rtranclp [of quiet_step, OF q e'(1)] show ?case
    by (intro exI [of _ e']) simp
qed

lemma message_runs:
  assumes c: "en_calls e c = Some \<lparr>c_order = ord, c_phase = Sending sid\<rparr>" and s: "en_heap e sid = Some s"
    and idle: "sh_in s = []" "sh_todo s = []" "sh_running s" and bus: "en_bus e"
    and p: "processOrder True clk (sh_book s) ord = Inr (book, es)"
  shows "\<exists>e' s'. quiet_step\<^sup>*\<^sup>* e e' \<and> en_heap e' sid = Some s' \<and> sh_book s' = book \<and> sh_in s' = [] \<and>
    sh_todo s' = [] \<and> sh_running s' \<and> en_log e' = en_log e @ emitted es \<and>
    dom (en_calls e') = dom (en_calls e) \<and> en_shards e' = en_shards e \<and> en_bus e'"
proof -
  let ?s1 = "s\<lparr>sh_in := [(c, ord)], sh_sent := sh_sent s @ [c]\<rparr>"
  let ?e1 = "send_order c sid ord s e"
  have q1: "quiet_step e ?e1"
    using engine_step.send [OF c _ s] idle c
    by (auto simp: quiet_step_def channel_capacity_def send_order_def set_phase_def set_shard_def)
  have f1: "en_heap ?e1 sid = Some ?s1" "en_bus ?e1" "en_log ?e1 = en_log e" "en_shards ?e1 = en_shards e"
    "dom (en_calls ?e1) = dom (en_calls e)"
    using idle bus c by (auto simp: send_order_def set_phase_def set_shard_def)
  let ?s2 = "?s1\<lparr>sh_book := book, sh_in := [], sh_cur := c, sh_todo := es, sh_got := sh_got s @ [c]\<rparr>"
  let ?e2 = "set_shard sid ?s2 ?e1"
  have "take_order (en_bus ?e1) clk ?s1 = Inr ?s2" using p f1(2) by (simp add: take_order_def)
  from engine_step.take [OF f1(1) _ _ this] idle have q2: "quiet_step ?e1 ?e2"
    by (simp add: quiet_step_def) (simp add: set_shard_def)
  have "en_heap ?e2 sid = Some (?s2\<lparr>sh_todo := es\<rparr>)" by (simp add: set_shard_def)
  from acts_run [OF this] obtain e' where e': "quiet_step\<^sup>*\<^sup>* ?e2 e'" "en_heap e' = (en_heap ?e2)(sid \<mapsto> ?s2\<lparr>sh_todo := []\<rparr>)"
    "en_log e' = en_log ?e2 @ emitted es" "en_calls e' = en_calls ?e2" "en_shards e' = en_shards ?e2" "en_bus e' = en_bus ?e2"
    by blast
  have "quiet_step\<^sup>*\<^sup>* e e'"
    using q1 q2 e'(1) by (meson converse_rtranclp_into_rtranclp)
  with e' f1 idle show ?thesis
    by (intro exI [of _ e'] exI [of _ "?s2\<lparr>sh_todo := []\<rparr>"]) (simp add: set_shard_def)
qed

text \<open>Bob sells 2 ETH at 100, alice buys them.\<close>

definition sell_order :: Order where
  "sell_order = engine_order ''o1'' 0 (default_tif (sample_request ''bob'' SideSell OrderTypeLimit 100 2))"

definition buy_order :: Order where
  "buy_order = engine_order ''o2'' 0 (default_tif (sample_request ''alice'' SideBuy OrderTypeLimit 100 2))"

definition book_with_sale :: OrderBook where
  "book_with_sale = fst (addAsk (NewOrderBook ''ETH-USDT'') sell_order)"

lemma sale_rests:
  "\<exists>es. processOrder True (\<lambda>_. 0) (NewOrderBook ''ETH-USDT'') sell_order = Inr (book_with_sale, es)"
proof -
  have "MatchOrder (\<lambda>_. 0) (NewOrderBook ''ETH-USDT'') sell_order =
      Inr (NewOrderBook ''ETH-USDT'', sell_order, [], Some sell_order)"
    "o_Side sell_order = SideSell" "o_TimeInForce sell_order = TIF_GTC" "o_Type sell_order = OrderTypeLimit"
    "o_Status sell_order = OrderStatusCreated"
    by code_simp+
  then show ?thesis
    by (simp add: processOrder_def no_liquidity_def rests_def addToBook_def book_with_sale_def split: prod.split)
qed

lemma purchase_trades:
  "\<exists>book es j. processOrder True (\<lambda>_. 0) book_with_sale buy_order = Inr (book, es) \<and>
     (''trade.executed'', ''trade.executed'', j) \<in> set (emitted es)"
proof -
  let ?r = "MatchOrder (\<lambda>_. 0) book_with_sale buy_order"
  have "\<not> isl ?r" "length (fst (snd (snd (projr ?r)))) = 1" "snd (snd (snd (projr ?r))) = None"
    "o_Side buy_order = SideBuy" "o_TimeInForce buy_order = TIF_GTC" "o_Type buy_order = OrderTypeLimit"
    by code_simp+
  then obtain book ord t where "?r = Inr (book, ord, [t], None)"
    by (cases ?r) (auto simp: length_Suc_conv)
  with \<open>o_Side buy_order = SideBuy\<close> \<open>o_TimeInForce buy_order = TIF_GTC\<close> \<open>o_Type buy_order = OrderTypeLimit\<close>
  show ?thesis
    by (auto simp: processOrder_def no_liquidity_def Let_def emitTradeExecuted_def)
qed

lemma sample_prepare:
  assumes "db_faults d = []" "uid \<in> set (db_users d)" "oid \<notin> r_order_id ` set (db_orders d)" "varchar_ok 50 oid"
    "(side, cur, cost) = (SideBuy, ''USDT'', 200 * tenPow18) \<or> (side, cur, cost) = (SideSell, ''ETH'', 2 * tenPow18)"
    "db_accounts d (uid, cur) = Some a" "cost \<le> ac_balance a" "ac_balance a \<le> 10 ^ 30" "ac_frozen a = 0"
  shows "\<exists>amount d'. place_prepare default_service oid (sample_request uid side OrderTypeLimit 100 2) d =
      Inr (Inr (default_tif (sample_request uid side OrderTypeLimit 100 2), cur, amount), d') \<and>
    db_faults d' = [] \<and> db_users d' = db_users d \<and> (\<forall>k. k \<noteq> (uid, cur) \<longrightarrow> db_accounts d' k = db_accounts d k) \<and>
    r_order_id ` set (db_orders d') = insert oid (r_order_id ` set (db_orders d))"
proof -
  let ?r = "sample_request uid side OrderTypeLimit 100 2"
  have sc: "side = SideBuy \<and> cur = ''USDT'' \<and> cost = 200 * tenPow18 \<or>
      side = SideSell \<and> cur = ''ETH'' \<and> cost = 2 * tenPow18" using assms(5) by simp
  have bal: "checkBalance (default_tif ?r) default_market d = (None, d)"
    using assms(1,6,7) sc
    by (auto simp: checkBalance_def sample_request_def default_market_values GetBalance_def stmt_def
        select_account_def NewFromString_numeric_text Let_def val_Mul default_tif_def priced_def)
  have terms: "check_terms (default_tif ?r) default_market = None"
    using sc by (auto simp: check_terms_None default_market_values sample_request_def val_Mul
        default_tif_def priced_def)
  have v: "Validate (os_validator default_service) ?r d = Inr (None, default_tif ?r, d)"
    using sc bal terms by (auto simp: Validate_def default_service_def default_validator_def NewValidator_def
        default_market_values sample_request_def validateOrderType_def)
  let ?a = "a\<lparr>ac_balance := ac_balance a - cost, ac_frozen := ac_frozen a + cost\<rparr>"
  have f: "\<exists>amount. freeze_funds default_service (default_tif ?r) d = (Inr (cur, amount), set_account (uid, cur) ?a d)"
    using assms(1,6-9) sc
    by (auto simp: freeze_funds_def freeze_terms_def default_service_def default_validator_def
        NewValidator_def MarketInfo_def default_market_values sample_request_def default_tif_def
        priced_def val_Mul FreezeBalance_def stmt_def freeze_stmt_def write_account_def numeric_ok_def)
  have z: "NewFromString ''0'' = Inr (Decimal (Some 0))"
    using NewFromString_integer [of "''0''" False] by (simp add: is_digit_def digit_val_def)
  have c: "\<exists>row. Create (stored_order oid (default_tif ?r)) (set_account (uid, cur) ?a d) =
      (Inr (), (set_account (uid, cur) ?a d)\<lparr>db_orders := db_orders d @ [row]\<rparr>) \<and> r_order_id row = oid"
    using assms(1-4) sc z
    by (auto simp: Create_def stmt_def insert_order_stmt_def order_row_of_def stored_order_def
        numeric_in_def NewFromString_String sample_request_def default_tif_def priced_def
        numeric_ok_def varchar_ok_def char_count_def One_def)
  obtain amount row where fc: "freeze_funds default_service (default_tif ?r) d = (Inr (cur, amount), set_account (uid, cur) ?a d)"
    "Create (stored_order oid (default_tif ?r)) (set_account (uid, cur) ?a d) =
      (Inr (), (set_account (uid, cur) ?a d)\<lparr>db_orders := db_orders d @ [row]\<rparr>)" "r_order_id row = oid"
    using f c by blast
  have "os_repo default_service" by (simp add: default_service_def)
  with v fc assms(1) show ?thesis
    by (intro exI [of _ amount] exI [of _ "(set_account (uid, cur) ?a d)\<lparr>db_orders := db_orders d @ [row]\<rparr>"])
      (simp add: place_prepare_def)
qed

definition sample_deployment :: deployment where
  "sample_deployment = \<lparr>dp_orders = default_service, dp_fees = NewFeeService None, dp_bus = True,
     dp_insert = insert_trade_once, dp_crypto = sample_crypto,
     dp_pays = (\<lambda>k. if k = (''0x01'', ''0xaa'') then (''USDT'', 1000 * tenPow18)
       else if k = (''0x02'', ''0xbb'') then (''ETH'', 5 * tenPow18) else ('''', 0))\<rparr>"

definition opening_db :: db where
  "opening_db = sample_db\<lparr>db_deposits :=
     [\<lparr>dp_tx_hash = ''0x01'', dp_to_address = ''0xaa'', dp_currency = ''USDT'', dp_chain = ''ethereum'',
       dp_amount = 1000 * tenPow18, dp_status = DepositStatusConfirmed, dp_user_id = ''alice''\<rparr>,
      \<lparr>dp_tx_hash = ''0x02'', dp_to_address = ''0xbb'', dp_currency = ''ETH'', dp_chain = ''ethereum'',
       dp_amount = 5 * tenPow18, dp_status = DepositStatusConfirmed, dp_user_id = ''bob''\<rparr>]\<rparr>"

lemma sample_deployed: "deployed sample_deployment"
proof -
  have "markets_ok default_validator"
    by (auto simp: markets_ok_def default_validator_def NewValidator_def default_market_values)
  then show ?thesis
    using insert_trade_laws(1) by (simp add: deployed_def sample_deployment_def default_service_def)
qed

lemma opening_db_good:
  "good (dp_pays sample_deployment) opening_db" "0 \<le> surplus opening_db cur"
proof -
  show "good (dp_pays sample_deployment) opening_db"
    by (auto simp: good_def registered_def nonneg_def held_def frozen_def order_rows_ok_def
        deposit_rows_ok_def opening_db_def sample_db_def empty_db_def sample_deployment_def split: option.splits if_splits)
  show "0 \<le> surplus opening_db cur"
    by (auto simp: surplus_def deposited_def withdrawn_def total_owned_def owned_def held_def frozen_def
        opening_db_def sample_db_def empty_db_def)
qed

text \<open>A shard that waits for its next message, and an order of the service from its call to its last event.\<close>

definition ready :: "Engine \<Rightarrow> OrderBook \<Rightarrow> bool" where
  "ready e book \<longleftrightarrow> en_bus e \<and> en_shards e ''ETH-USDT'' = Some 0 \<and> (\<exists>s. en_heap e 0 = Some s \<and>
     sh_book s = book \<and> sh_in s = [] \<and> sh_todo s = [] \<and> sh_running s)"

lemma order_run:
  assumes x: "exchange_reachable sample_deployment x" and rd: "ready (x_engine x) book"
    and c: "en_calls (x_engine x) c = None"
    and p: "place_prepare default_service oid (sample_request uid side OrderTypeLimit 100 2) (x_db x) =
      Inr (Inr (req, cur, amount), d)"
    and o': "processOrder True (\<lambda>_. 0) book (engine_order oid 0 req) = Inr (book', es)"
    "req_Symbol req = ''ETH-USDT''"
  shows "\<exists>x'. exchange_reachable sample_deployment x' \<and> x_db x' = d \<and> ready (x_engine x') book' \<and>
    dom (en_calls (x_engine x')) = insert c (dom (en_calls (x_engine x))) \<and>
    set (emitted es) \<subseteq> set (en_log (x_engine x'))"
proof -
  let ?o = "engine_order oid 0 req"
  let ?e = "start_call c ?o (x_engine x)"
  let ?x = "x\<lparr>x_db := d, x_engine := ?e, x_pending := (x_pending x)(c \<mapsto> Placing oid req cur amount)\<rparr>"
  obtain s where s: "en_heap (x_engine x) 0 = Some s" "sh_book s = book" "sh_in s = []" "sh_todo s = []" "sh_running s"
    "en_bus (x_engine x)" "en_shards (x_engine x) ''ETH-USDT'' = Some 0" using rd by (auto simp: ready_def)
  have p': "place_prepare (dp_orders sample_deployment) oid (sample_request uid side OrderTypeLimit 100 2) (x_db x) =
      Inr (Inr (req, cur, amount), d)" using p by (simp add: sample_deployment_def)
  have "0 \<le> val (req_Price (sample_request uid side OrderTypeLimit 100 2))" by (simp add: sample_request_def)
  from exchange_reachable.more [OF x exchange_step.place_call [OF p' this c]]
  have r: "exchange_reachable sample_deployment ?x" .
  have e: "en_calls ?e c = Some \<lparr>c_order = ?o, c_phase = Sending 0\<rparr>" "en_heap ?e 0 = Some s" "en_bus ?e"
    using s o'(2) by (simp_all add: start_call_def engine_order_def)
  obtain e' s' where e': "quiet_step\<^sup>*\<^sup>* ?e e'" "en_heap e' 0 = Some s'" "sh_book s' = book'" "sh_in s' = []"
    "sh_todo s' = []" "sh_running s'" "en_log e' = en_log ?e @ emitted es" "dom (en_calls e') = dom (en_calls ?e)"
    "en_shards e' = en_shards ?e" "en_bus e'"
    using message_runs [OF e(1,2) s(3-5) e(3), unfolded s(2), OF o'(1)] by blast
  have "exchange_reachable sample_deployment (?x\<lparr>x_engine := e'\<rparr>)" by (rule exchange_quiet [OF _ r]) (simp add: e'(1))
  moreover have "ready e' book'" using e' s(7) by (simp add: ready_def start_call_def)
  moreover have "dom (en_calls e') = insert c (dom (en_calls (x_engine x)))" using e'(8) by (simp add: start_call_def)
  ultimately show ?thesis using e'(7) by (intro exI [of _ "?x\<lparr>x_engine := e'\<rparr>"]) simp
qed

lemma sample_trade_run:
  "\<exists>x ty j. exchange_reachable sample_deployment x \<and> (''trade.executed'', ty, j) \<in> set (en_log (x_engine x))"
proof -
  let ?e = "snd (AddSymbol ''ETH-USDT'' (NewEngine True))"
  let ?x0 = "\<lparr>x_db = opening_db, x_engine = NewEngine True, x_wallet = wallet_NewService True, x_pending = Map.empty\<rparr>"
  have e: "ready ?e (NewOrderBook ''ETH-USDT'')" "en_calls ?e = Map.empty"
    by (simp_all add: ready_def AddSymbol_def NewEngine_def new_shard_def)
  have q: "quiet_step (NewEngine True) ?e"
    using engine_step.add_symbol e(2) by (simp add: quiet_step_def) (simp add: NewEngine_def)
  have r1: "exchange_reachable sample_deployment (?x0\<lparr>x_engine := ?e\<rparr>)"
    by (rule exchange_quiet [OF _ exchange_reachable.start [OF opening_db_good]]) (use q in simp)
  have db: "db_faults opening_db = []" "db_users opening_db = [''alice'', ''bob'']" "db_orders opening_db = []"
    "db_accounts opening_db (''alice'', ''USDT'') = Some \<lparr>ac_balance = 1000 * tenPow18, ac_frozen = 0, ac_version = 1\<rparr>"
    "db_accounts opening_db (''bob'', ''ETH'') = Some \<lparr>ac_balance = 5 * tenPow18, ac_frozen = 0, ac_version = 1\<rparr>"
    by (simp_all add: opening_db_def sample_db_def empty_db_def)
  have ids: "varchar_ok 50 ''o1''" "varchar_ok 50 ''o2''" by (simp_all add: varchar_ok_def char_count_def)
  obtain a1 d1 where p1: "place_prepare default_service ''o1'' (sample_request ''bob'' SideSell OrderTypeLimit 100 2) opening_db =
      Inr (Inr (default_tif (sample_request ''bob'' SideSell OrderTypeLimit 100 2), ''ETH'', a1), d1)"
    "db_faults d1 = []" "db_users d1 = db_users opening_db" "\<forall>k. k \<noteq> (''bob'', ''ETH'') \<longrightarrow> db_accounts d1 k = db_accounts opening_db k"
    "r_order_id ` set (db_orders d1) = {''o1''}"
    using sample_prepare [OF db(1) _ _ ids(1) _ db(5), of SideSell "2 * tenPow18"] db(2,3) by auto
  have a: "db_accounts d1 (''alice'', ''USDT'') = Some \<lparr>ac_balance = 1000 * tenPow18, ac_frozen = 0, ac_version = 1\<rparr>"
    using p1(4) db(4) by simp
  obtain a2 d2 where p2: "place_prepare default_service ''o2'' (sample_request ''alice'' SideBuy OrderTypeLimit 100 2) d1 =
      Inr (Inr (default_tif (sample_request ''alice'' SideBuy OrderTypeLimit 100 2), ''USDT'', a2), d2)"
    using sample_prepare [OF p1(2) _ _ ids(2) _ a, of SideBuy "200 * tenPow18"] p1(3,5) db(2) by auto
  have sy: "req_Symbol (default_tif (sample_request uid side ty p q)) = ''ETH-USDT''" for uid side ty p q
    by (simp add: sample_request_def)
  obtain es1 where o1: "processOrder True (\<lambda>_. 0) (NewOrderBook ''ETH-USDT'') sell_order = Inr (book_with_sale, es1)"
    using sale_rests by blast
  have "exchange_reachable sample_deployment (?x0\<lparr>x_engine := ?e\<rparr>)" "ready (x_engine (?x0\<lparr>x_engine := ?e\<rparr>)) (NewOrderBook ''ETH-USDT'')"
    "en_calls (x_engine (?x0\<lparr>x_engine := ?e\<rparr>)) 1 = None" using r1 e by simp_all
  from order_run [OF this _ o1 [unfolded sell_order_def] sy, of "''bob''" SideSell "''ETH''" a1 d1] p1(1)
  obtain x2 where x2: "exchange_reachable sample_deployment x2" "x_db x2 = d1" "ready (x_engine x2) book_with_sale"
    "dom (en_calls (x_engine x2)) = {1}" using e(2) by auto
  have c2: "en_calls (x_engine x2) 2 = None" using x2(4) domIff [of 2 "en_calls (x_engine x2)"] by simp
  obtain book es j where o2: "processOrder True (\<lambda>_. 0) book_with_sale buy_order = Inr (book, es)"
    "(''trade.executed'', ''trade.executed'', j) \<in> set (emitted es)" using purchase_trades by blast
  from order_run [OF x2(1,3) c2 _ o2(1) [unfolded buy_order_def] sy, of "''alice''" SideBuy "''USDT''" a2 d2] p2(1) x2(2)
  obtain x3 where "exchange_reachable sample_deployment x3" "set (emitted es) \<subseteq> set (en_log (x_engine x3))" by auto
  with o2(2) show ?thesis by blast
qed


theorem exchange_trades_stored_witness:
  "\<exists>x (m :: MatchResult). exchange_reachable sample_deployment x \<and>
     (m_TakerOrderID m, m_TakerUserID m) \<in> order_parties (x_db x) \<and>
     (m_MakerOrderID m, m_MakerUserID m) \<in> order_parties (x_db x)"
proof -
  obtain x ty j where x: "exchange_reachable sample_deployment x"
    "(''trade.executed'', ty, j) \<in> set (en_log (x_engine x))" using sample_trade_run by blast
  from exchange_trades_stored [OF sample_deployed x(1), THEN conjunct2, rule_format, OF x(2)]
  obtain m :: MatchResult where "(m_TakerOrderID m, m_TakerUserID m) \<in> order_parties (x_db x)"
    "(m_MakerOrderID m, m_MakerUserID m) \<in> order_parties (x_db x)" by blast
  with x(1) show ?thesis by auto
qed

end
