(* ===== verification/Matching_Loop.thy ===== *)
theory Matching_Loop
  imports Matching_Facts "HOL-Library.While_Combinator"
begin

section \<open>The matching loops end (matching/matcher.go)\<close>

text \<open>
  The loops of \<open>matchBuy\<close> and \<open>matchSell\<close> as the \<open>for\<close> statements they are: a condition
  and a body on the variables of the method, run by \<open>while_option\<close>, whose value is \<open>None\<close> when a
  loop does not end. The recursive definitions of theory \<open>Matcher\<close> are what these loops compute.
\<close>

text \<open>How a round leaves the loop: to the next test of the condition, by \<open>break\<close>, or by a panic.\<close>

datatype loop_end = Going | Broken | Panicked

type_synonym loop_state = "Order \<times> priceLevel list \<times> MatchResult list \<times> loop_end"

fun loop_going :: "loop_state \<Rightarrow> bool" where
  "loop_going (ord, ls, ms, st) \<longleftrightarrow> Cmp (Remaining ord) Zero > 0 \<and> length ls > 0 \<and> st = Going"

definition buy_stops :: "Order \<Rightarrow> priceLevel \<Rightarrow> bool" where
  "buy_stops ord best \<longleftrightarrow> o_Type ord = OrderTypeLimit \<and> Cmp (o_Price ord) (pl_price best) < 0"

definition sell_stops :: "Order \<Rightarrow> priceLevel \<Rightarrow> bool" where
  "sell_stops ord best \<longleftrightarrow> o_Type ord = OrderTypeLimit \<and> Cmp (o_Price ord) (pl_price best) > 0"

fun loop_round ::
  "(Order \<Rightarrow> priceLevel \<Rightarrow> bool) \<Rightarrow> Side \<Rightarrow> Symbol \<Rightarrow> (nat \<Rightarrow> int) \<Rightarrow> loop_state \<Rightarrow> loop_state" where
  "loop_round stops ts symb clk (ord, [], ms, st) = (ord, [], ms, Panicked)"
| "loop_round stops ts symb clk (ord, best # worse, ms, st) =
     (if stops ord best then (ord, best # worse, ms, Broken)
      else
        (case lorders best of
           [] \<Rightarrow> (ord, best # worse, ms, Panicked)
         | maker # rest \<Rightarrow>
             (case fill_head ts symb (clk (length ms)) ord maker rest (pl_orders best) of
                (ord', q', filled, trade) \<Rightarrow>
                  (ord', if filled \<and> q_len q' = 0 then worse else best\<lparr>pl_orders := q'\<rparr> # worse,
                   ms @ [trade], Going))))"

fun loop_result :: "loop_state \<Rightarrow> panic + Order \<times> priceLevel list \<times> MatchResult list" where
  "loop_result (ord, ls, ms, st) = (if st = Panicked then Inl NilPointerDereference else Inr (ord, ls, ms))"

definition matchBuy_for :: "Symbol \<Rightarrow> (nat \<Rightarrow> int) \<Rightarrow> Order \<Rightarrow> priceLevel list \<Rightarrow> loop_state option" where
  "matchBuy_for symb clk ord asks =
     while_option loop_going (loop_round buy_stops SideBuy symb clk) (ord, asks, [], Going)"

definition matchSell_for :: "Symbol \<Rightarrow> (nat \<Rightarrow> int) \<Rightarrow> Order \<Rightarrow> priceLevel list \<Rightarrow> loop_state option" where
  "matchSell_for symb clk ord bids =
     while_option loop_going (loop_round sell_stops SideSell symb clk) (ord, bids, [], Going)"

context matching_side
begin

lemma while_ends:
  assumes stops: "\<And>ord l. stops ord l = blocked ahead ord (lprice l)"
  shows "\<exists>ord' ls' ms' st. while_option loop_going (loop_round stops ts symb clk) (ord, ls, ms, Going) = Some (ord', ls', ms', st) \<and>
    loop_result (ord', ls', ms', st) = loop symb clk ord ls ms \<and> length ms' \<le> length ms + loop_measure ord ls"
proof (induction "loop_measure ord ls" arbitrary: ord ls ms rule: less_induct)
  case less
  let ?w = "while_option loop_going (loop_round stops ts symb clk)"
  have stop: "?w (ord, ls, ms, st) = Some (ord, ls, ms, st)" if "\<not> loop_going (ord, ls, ms, st)" for st
    by (subst while_option_unfold) (simp only: that if_False)
  show ?case
  proof (cases "rem ord > 0 \<and> ls \<noteq> []")
    case False
    then have "\<not> loop_going (ord, ls, ms, Going)" by auto
    moreover have "loop symb clk ord ls ms = Inr (ord, ls, ms)"
      using False by (subst loop_eq) (cases ls; auto)
    ultimately show ?thesis using stop by fastforce
  next
    case True
    then obtain l ws where ls: "ls = l # ws" by (cases ls) auto
    have go: "?w (ord, ls, ms, Going) = ?w (loop_round stops ts symb clk (ord, ls, ms, Going))"
      using True by (subst while_option_unfold) simp
    consider (blk) "stops ord l" | (none) "\<not> stops ord l" "lorders l = []"
      | (fill) mk rest where "\<not> stops ord l" "lorders l = mk # rest" by (cases "lorders l") auto
    then show ?thesis
    proof cases
      case blk
      have "loop symb clk ord ls ms = Inr (ord, ls, ms)"
        using True ls blk stops by (subst loop_eq) simp
      with go blk ls stop [of Broken] show ?thesis by fastforce
    next
      case none
      have "loop symb clk ord ls ms = Inl NilPointerDereference"
        using True ls none stops by (subst loop_eq) simp
      with go none ls stop [of Panicked] show ?thesis by fastforce
    next
      case fill
      obtain o2 q fl t where fh: "fill_head ts symb (clk (length ms)) ord mk rest (pl_orders l)
          = (o2, q, fl, t)" by (cases rule: prod_cases4)
      define ls2 where "ls2 = (if fl \<and> q_len q = 0 then ws else l\<lparr>pl_orders := q\<rparr> # ws)"
      have dec: "loop_measure o2 ls2 < loop_measure ord ls"
        using fill_head_decreases [OF fh fill(2)] True ls by (simp add: ls2_def)
      have round: "loop_round stops ts symb clk (ord, ls, ms, Going) = (o2, ls2, ms @ [t], Going)"
        using fill ls fh by (simp add: ls2_def)
      have step: "loop symb clk ord ls ms = loop symb clk o2 ls2 (ms @ [t])"
        unfolding ls2_def ls by (subst loop_eq) (use True fill stops fh in simp)
      obtain ord' ls' ms' st where "?w (o2, ls2, ms @ [t], Going) = Some (ord', ls', ms', st)"
        "loop_result (ord', ls', ms', st) = loop symb clk o2 ls2 (ms @ [t])"
        "length ms' \<le> length (ms @ [t]) + loop_measure o2 ls2"
        using less [OF dec] by blast
      with go round step dec show ?thesis by fastforce
    qed
  qed
qed

end

text \<open>C6. Matching terminates: on every book, well formed or not, and for every taker, both loops end; they
  compute what the recursive definitions compute, panics included; and a call makes at most one trade
  per resting order of the other side, plus one.\<close>

theorem matching_terminates:
  "(\<exists>ord' ls' ms' st. matchBuy_for symb clk ord ls = Some (ord', ls', ms', st) \<and>
      loop_result (ord', ls', ms', st) = matchBuy_loop symb clk ord ls [] \<and> length ms' \<le> length (flat ls) + 1) \<and>
   (\<exists>ord' ls' ms' st. matchSell_for symb clk ord ls = Some (ord', ls', ms', st) \<and>
      loop_result (ord', ls', ms', st) = matchSell_loop symb clk ord ls [] \<and> length ms' \<le> length (flat ls) + 1)"
proof -
  have b: "loop_measure ord ls \<le> length (flat ls) + 1" by (simp add: loop_measure_def level_count_def)
  have s: "buy_stops ord l = blocked asks_first ord (lprice l)" "sell_stops ord l = blocked bids_first ord (lprice l)" for ord l
    by (simp_all add: buy_stops_def sell_stops_def blocked_def)
  show ?thesis
    unfolding matchBuy_for_def matchSell_for_def
    using buying.while_ends [where stops = buy_stops, OF s(1), of symb clk ord ls "[]"]
      selling.while_ends [where stops = sell_stops, OF s(2), of symb clk ord ls "[]"] b
    by fastforce
qed

end
