(* ===== verification/Queue_Heap.thy ===== *)
theory Queue_Heap
  imports Order_Queue
begin

section \<open>The linked nodes of a level queue (orderbook.go)\<close>

text \<open>
  \<open>orderQueue\<close> with its doubly linked nodes, and the proof that its three methods are the list
  operations of theory \<open>Order_Queue\<close>. A node is named by its address, a natural number; the store
  maps addresses to nodes. \<open>orderNodePool.Get\<close> gives \<open>push\<close> an address, an argument here; theory
  \<open>Object_Pools\<close> takes it from the pool. The walk of \<open>remove\<close> along the \<open>next\<close> fields is a
  \<open>partial_function\<close>: on a cyclic store it has the value \<open>None\<close>.
\<close>

record orderNode =
  n_order :: "Order option"
  n_next :: "nat option"
  n_prev :: "nat option"

type_synonym node_store = "nat \<Rightarrow> orderNode"

record heapQueue =
  hq_head :: "nat option"
  hq_tail :: "nat option"
  hq_volume :: decimal
  hq_len :: int

definition set_next :: "nat \<Rightarrow> nat option \<Rightarrow> node_store \<Rightarrow> node_store" where
  "set_next a v h = h(a := (h a)\<lparr>n_next := v\<rparr>)"

definition set_prev :: "nat \<Rightarrow> nat option \<Rightarrow> node_store \<Rightarrow> node_store" where
  "set_prev a v h = h(a := (h a)\<lparr>n_prev := v\<rparr>)"

definition clear_node :: "nat \<Rightarrow> node_store \<Rightarrow> node_store" where
  "clear_node a h = h(a := \<lparr>n_order = None, n_next = None, n_prev = None\<rparr>)"

definition heap_push :: "nat \<Rightarrow> Order \<Rightarrow> node_store \<times> heapQueue \<Rightarrow> node_store \<times> heapQueue" where
  "heap_push node ord hq =
     (case hq of (h, q) \<Rightarrow>
        (let h1 = h(node := \<lparr>n_order = Some ord, n_next = None, n_prev = None\<rparr>);
             (h2, q2) =
               (case hq_tail q of
                  None \<Rightarrow> (h1, q\<lparr>hq_head := Some node, hq_tail := Some node\<rparr>)
                | Some t \<Rightarrow> (set_prev node (Some t) (set_next t (Some node) h1), q\<lparr>hq_tail := Some node\<rparr>))
         in (h2, q2\<lparr>hq_volume := Add (hq_volume q2) (Remaining ord), hq_len := hq_len q2 + 1\<rparr>)))"

definition heap_pop ::
  "node_store \<times> heapQueue \<Rightarrow> panic + (Order option \<times> node_store \<times> heapQueue)" where
  "heap_pop hq =
     (case hq of (h, q) \<Rightarrow>
        (case hq_head q of
           None \<Rightarrow> Inr (None, h, q)
         | Some node \<Rightarrow>
             (let q1 = q\<lparr>hq_head := n_next (h node)\<rparr>;
                  (h2, q2) =
                    (case hq_head q1 of
                       Some a \<Rightarrow> (set_prev a None h, q1)
                     | None \<Rightarrow> (h, q1\<lparr>hq_tail := None\<rparr>))
              in case n_order (h2 node) of
                   None \<Rightarrow> Inl NilPointerDereference
                 | Some ord \<Rightarrow>
                     Inr (Some ord, clear_node node h2,
                       q2\<lparr>hq_volume := Sub (hq_volume q2) (Remaining ord), hq_len := hq_len q2 - 1\<rparr>))))"

text \<open>The loop of \<open>remove\<close>: the node of the order, or nil.\<close>

partial_function (option) find_node ::
  "node_store \<Rightarrow> string \<Rightarrow> nat option \<Rightarrow> (panic + nat option) option" where
  "find_node h oid p =
     (case p of
        None \<Rightarrow> Some (Inr None)
      | Some a \<Rightarrow>
          (case n_order (h a) of
             None \<Rightarrow> Some (Inl NilPointerDereference)
           | Some ord \<Rightarrow>
               if o_OrderID ord = oid then Some (Inr (Some a)) else find_node h oid (n_next (h a))))"

text \<open>Taking a node out of the chain.\<close>

definition unlink :: "nat \<Rightarrow> node_store \<times> heapQueue \<Rightarrow> node_store \<times> heapQueue" where
  "unlink node hq =
     (case hq of (h, q) \<Rightarrow>
        (let (h1, q1) =
               (case n_prev (h node) of
                  Some p \<Rightarrow> (set_next p (n_next (h node)) h, q)
                | None \<Rightarrow> (h, q\<lparr>hq_head := n_next (h node)\<rparr>))
         in case n_next (h1 node) of
              Some a \<Rightarrow> (set_prev a (n_prev (h1 node)) h1, q1)
            | None \<Rightarrow> (h1, q1\<lparr>hq_tail := n_prev (h1 node)\<rparr>)))"

definition heap_remove ::
  "string \<Rightarrow> node_store \<times> heapQueue \<Rightarrow> (panic + (Order option \<times> node_store \<times> heapQueue)) option" where
  "heap_remove oid hq =
     (case find_node (fst hq) oid (hq_head (snd hq)) of
        None \<Rightarrow> None
      | Some (Inl f) \<Rightarrow> Some (Inl f)
      | Some (Inr None) \<Rightarrow> Some (Inr (None, hq))
      | Some (Inr (Some node)) \<Rightarrow>
          (case unlink node hq of
             (h, q) \<Rightarrow>
               (case n_order (h node) of
                  None \<Rightarrow> Some (Inl NilPointerDereference)
                | Some ord \<Rightarrow>
                    Some (Inr (Some ord, clear_node node h,
                      q\<lparr>hq_volume := Sub (hq_volume q) (Remaining ord), hq_len := hq_len q - 1\<rparr>)))))"

subsection \<open>Chains\<close>

text \<open>The nodes \<open>as\<close> from pointer \<open>p\<close> (whose predecessor is \<open>pv\<close>) to the end pointer \<open>e\<close>; \<open>l\<close> is
  the last of them (or \<open>pv\<close>).\<close>

fun chain :: "node_store \<Rightarrow> nat option \<Rightarrow> nat option \<Rightarrow> nat list \<Rightarrow> nat option \<Rightarrow> nat option \<Rightarrow> bool" where
  "chain h pv p [] l e \<longleftrightarrow> p = e \<and> l = pv"
| "chain h pv p (a # as) l e \<longleftrightarrow>
     p = Some a \<and> n_prev (h a) = pv \<and> n_order (h a) \<noteq> None \<and> chain h (Some a) (n_next (h a)) as l e"

lemma chain_append:
  "chain h pv p (as @ bs) l e \<longleftrightarrow> (\<exists>m q. chain h pv p as m q \<and> chain h m q bs l e)"
  by (induction as arbitrary: pv p) auto

lemma chain_frame: "(\<And>a. a \<in> set as \<Longrightarrow> h' a = h a) \<Longrightarrow> chain h' pv p as l e = chain h pv p as l e"
  by (induction as arbitrary: pv p) auto

lemma chain_last: "chain h pv p as l e \<Longrightarrow> l = (if as = [] then pv else Some (last as))"
  by (induction as arbitrary: pv p) auto

lemma chain_first: "chain h pv p as l e \<Longrightarrow> p = (case as of [] \<Rightarrow> e | a # _ \<Rightarrow> Some a)"
  by (cases as) auto

lemma n_order_updates [simp]:
  "n_order (set_next a v h b) = n_order (h b)" "n_order (set_prev a v h b) = n_order (h b)"
  by (simp_all add: set_next_def set_prev_def)

text \<open>A new end pointer in the last node, a new predecessor in the first one.\<close>

lemma chain_set_next:
  assumes "chain h pv p (as @ [a]) l e" "a \<notin> set as"
  shows "chain (set_next a e' h) pv p (as @ [a]) l e'"
proof -
  obtain m q where m: "chain h pv p as m q" "chain h m q [a] l e" using assms(1) unfolding chain_append by blast
  have "chain (set_next a e' h) pv p as m q = chain h pv p as m q"
    by (rule chain_frame) (use assms(2) in \<open>auto simp: set_next_def\<close>)
  with m show ?thesis unfolding chain_append by (intro exI [of _ m] exI [of _ q]) (simp add: set_next_def)
qed

lemma chain_set_prev:
  assumes "chain h pv p (b # bs) l e" "b \<notin> set bs"
  shows "chain (set_prev b pv' h) pv' p (b # bs) l e"
proof -
  have "chain (set_prev b pv' h) (Some b) (n_next (h b)) bs l e = chain h (Some b) (n_next (h b)) bs l e"
    by (rule chain_frame) (use assms(2) in \<open>auto simp: set_prev_def\<close>)
  moreover have "n_next (set_prev b pv' h b) = n_next (h b)" "n_prev (set_prev b pv' h b) = pv'"
    by (simp_all add: set_prev_def)
  ultimately show ?thesis using assms(1) by simp
qed

definition node_order :: "node_store \<Rightarrow> nat \<Rightarrow> Order" where
  "node_order h a = (case n_order (h a) of Some ord \<Rightarrow> ord)"

text \<open>The queue at the nodes \<open>as\<close>, and the list queue that it stands for.\<close>

definition queue_at :: "node_store \<times> heapQueue \<Rightarrow> nat list \<Rightarrow> orderQueue \<Rightarrow> bool" where
  "queue_at hq as q \<longleftrightarrow> distinct as \<and>
     chain (fst hq) None (hq_head (snd hq)) as (hq_tail (snd hq)) None \<and>
     q = \<lparr>q_orders = map (node_order (fst hq)) as, q_volume = hq_volume (snd hq), q_len = hq_len (snd hq)\<rparr>"

lemma node_order_eq: "n_order (h' a) = n_order (h a) \<Longrightarrow> node_order h' a = node_order h a"
  by (simp add: node_order_def)

lemma map_node_order: "(\<And>a. a \<in> set as \<Longrightarrow> n_order (h' a) = n_order (h a)) \<Longrightarrow>
    map (node_order h') as = map (node_order h) as"
  by (simp add: node_order_def)

subsection \<open>The three methods\<close>

lemma heap_push_at:
  assumes q: "queue_at hq as q" and a: "a \<notin> set as"
  shows "queue_at (heap_push a ord hq) (as @ [a]) (queue_push ord q)"
proof (cases "as = []")
  case True
  with q show ?thesis
    by (cases hq) (auto simp: queue_at_def heap_push_def queue_push_def node_order_def Let_def)
next
  case False
  then obtain bs t where as: "as = bs @ [t]" by (cases as rule: rev_cases) auto
  obtain h lq where hq: "hq = (h, lq)" by fastforce
  from q have c: "chain h None (hq_head lq) (bs @ [t]) (hq_tail lq) None" "distinct (bs @ [t])"
    by (auto simp: queue_at_def hq as)
  have tl: "hq_tail lq = Some t" using chain_last [OF c(1)] by simp
  let ?h1 = "h(a := \<lparr>n_order = Some ord, n_next = None, n_prev = None\<rparr>)"
  let ?h2 = "set_prev a (Some t) (set_next t (Some a) ?h1)"
  have "chain ?h1 None (hq_head lq) (bs @ [t]) (hq_tail lq) None"
    using c(1) a by (subst chain_frame [where h = h]) (auto simp: as)
  then have "chain (set_next t (Some a) ?h1) None (hq_head lq) (bs @ [t]) (hq_tail lq) (Some a)"
    using c(2) by (intro chain_set_next) auto
  then have "chain ?h2 None (hq_head lq) (bs @ [t]) (Some t) (Some a)"
    using a by (subst chain_frame [where h = "set_next t (Some a) ?h1"]) (auto simp: as set_prev_def tl)
  moreover have "chain ?h2 (Some t) (Some a) [a] (Some a) None"
    using a by (simp add: set_prev_def set_next_def as)
  ultimately have "chain ?h2 None (hq_head lq) (as @ [a]) (Some a) None"
    unfolding chain_append as by blast
  moreover have "map (node_order ?h2) (as @ [a]) = map (node_order h) as @ [ord]"
    using a by (auto simp: node_order_def)
  ultimately show ?thesis
    using q a by (simp add: queue_at_def hq heap_push_def tl queue_push_def)
qed

lemma heap_pop_at:
  assumes q: "queue_at hq as q"
  shows "\<exists>hq'. heap_pop hq = Inr (fst (queue_pop q), hq') \<and> queue_at hq' (tl as) (snd (queue_pop q))"
proof (cases as)
  case Nil
  with q show ?thesis by (cases hq) (auto simp: queue_at_def heap_pop_def queue_pop_def)
next
  case (Cons a bs)
  obtain h lq where hq: "hq = (h, lq)" by fastforce
  from q obtain ord where c: "hq_head lq = Some a" "n_order (h a) = Some ord" "distinct (a # bs)"
    "chain h (Some a) (n_next (h a)) bs (hq_tail lq) None"
    by (auto simp: queue_at_def hq Cons)
  show ?thesis
  proof (cases bs)
    case Nil
    with c q Cons show ?thesis
      by (auto simp: queue_at_def hq heap_pop_def queue_pop_def node_order_def Let_def)
  next
    case (Cons b cs)
    with c have nx: "n_next (h a) = Some b" and ne: "a \<noteq> b" by auto
    have "chain (set_prev b None h) None (Some b) bs (hq_tail lq) None"
      using c(3,4) nx unfolding Cons by (intro chain_set_prev [of h "Some a"]) simp_all
    then have "chain (clear_node a (set_prev b None h)) None (Some b) bs (hq_tail lq) None"
      using c(3) by (subst chain_frame [where h = "set_prev b None h"]) (auto simp: clear_node_def)
    moreover have "map (node_order (clear_node a (set_prev b None h))) bs = map (node_order h) bs"
      using c(3) by (intro map_node_order) (auto simp: clear_node_def)
    ultimately show ?thesis
      using q c nx \<open>as = a # bs\<close>
      by (simp add: queue_at_def hq heap_pop_def queue_pop_def node_order_def [of h a])
  qed
qed

lemma find_node_chain:
  "chain h pv p as l None \<Longrightarrow>
     find_node h oid p = Some (Inr (find (\<lambda>a. o_OrderID (node_order h a) = oid) as))"
proof (induction as arbitrary: pv p)
  case Nil
  then show ?case by (subst find_node.simps) simp
next
  case (Cons a as)
  then show ?case by (subst find_node.simps) (auto simp: node_order_def)
qed

lemma find_split: "find P xs = Some x \<Longrightarrow> \<exists>ys zs. xs = ys @ x # zs \<and> P x \<and> (\<forall>y\<in>set ys. \<not> P y)"
proof (induction xs)
  case (Cons a xs)
  show ?case
  proof (cases "P a")
    case True
    with Cons.prems show ?thesis by (intro exI [of _ "[]"] exI [of _ xs]) simp
  next
    case False
    with Cons obtain ys zs where "xs = ys @ x # zs" "P x" "\<forall>y\<in>set ys. \<not> P y" by auto
    with False show ?thesis by (intro exI [of _ "a # ys"] exI [of _ zs]) simp
  qed
qed simp

lemma unlink_chain:
  assumes "chain h None (hq_head lq) (xs @ a # ys) (hq_tail lq) None" "distinct (xs @ a # ys)"
    "unlink a (h, lq) = (h', lq')"
  shows "chain h' None (hq_head lq') (xs @ ys) (hq_tail lq') None"
    "hq_volume lq' = hq_volume lq" "hq_len lq' = hq_len lq" "\<And>b. n_order (h' b) = n_order (h b)"
proof -
  show "hq_volume lq' = hq_volume lq" "hq_len lq' = hq_len lq" "\<And>b. n_order (h' b) = n_order (h b)"
    using assms(3) by (auto simp: unlink_def Let_def split: option.splits prod.splits)
  obtain m where xs: "chain h None (hq_head lq) xs m (Some a)" and pv: "n_prev (h a) = m"
    and ys: "chain h (Some a) (n_next (h a)) ys (hq_tail lq) None"
    using assms(1) unfolding chain_append by auto
  have m: "m = (if xs = [] then None else Some (last xs))" using chain_last [OF xs] .
  define h1 where "h1 = (case m of None \<Rightarrow> h | Some p \<Rightarrow> set_next p (n_next (h a)) h)"
  define lq1 where "lq1 = (case m of None \<Rightarrow> lq\<lparr>hq_head := n_next (h a)\<rparr> | Some _ \<Rightarrow> lq)"
  have pre: "chain h1 None (hq_head lq1) xs m (n_next (h a))"
  proof (cases xs rule: rev_cases)
    case Nil
    with xs m show ?thesis by (simp add: h1_def lq1_def)
  next
    case (snoc zs p)
    with assms(2) xs have "chain (set_next p (n_next (h a)) h) None (hq_head lq) xs m (n_next (h a))"
      by (simp only: snoc) (rule chain_set_next, auto)
    with snoc m show ?thesis by (simp add: h1_def lq1_def)
  qed
  have eq1: "h1 b = h b" if "b \<notin> set xs" for b
    using that m by (auto simp: h1_def set_next_def)
  have post: "chain h1 (Some a) (n_next (h a)) ys (hq_tail lq) None"
    using ys eq1 assms(2) by (subst chain_frame [where h = h]) auto
  have a1: "n_next (h1 a) = n_next (h a)" "n_prev (h1 a) = m" using eq1 [of a] assms(2) pv by auto
  have tl1: "hq_tail lq1 = hq_tail lq" by (auto simp: lq1_def split: option.splits)
  have unl: "unlink a (h, lq) = (case n_next (h a) of
      Some b \<Rightarrow> (set_prev b m h1, lq1) | None \<Rightarrow> (h1, lq1\<lparr>hq_tail := m\<rparr>))"
    using a1 pv by (auto simp: unlink_def h1_def lq1_def split: option.splits)
  show "chain h' None (hq_head lq') (xs @ ys) (hq_tail lq') None"
  proof (cases ys)
    case Nil
    with ys have "n_next (h a) = None" by simp
    with unl assms(3) pre Nil show ?thesis by auto
  next
    case (Cons b zs)
    with ys have nx: "n_next (h a) = Some b" by simp
    with unl assms(3) have e: "h' = set_prev b m h1" "lq' = lq1" by auto
    have "chain h' m (Some b) (b # zs) (hq_tail lq) None"
      unfolding e using post nx Cons assms(2) by (intro chain_set_prev [of h1 "Some a"]) auto
    moreover have "chain h' None (hq_head lq1) xs m (Some b)"
      using pre nx Cons assms(2) unfolding e by (subst chain_frame [where h = h1]) (auto simp: set_prev_def)
    ultimately show ?thesis using tl1 unfolding chain_append e Cons by auto
  qed
qed

lemma find_order_find:
  "find_order oid (map f as) = map_option f (find (\<lambda>a. o_OrderID (f a) = oid) as)"
  by (induction as) auto

lemma drop_order_at:
  "oid \<notin> o_OrderID ` set xs \<Longrightarrow> o_OrderID x = oid \<Longrightarrow> drop_order oid (xs @ x # ys) = xs @ ys"
  by (induction xs) auto

text \<open>The node of an order, and a node list without it.\<close>

definition node_of :: "string \<Rightarrow> node_store \<Rightarrow> nat list \<Rightarrow> nat option" where
  "node_of oid h as = find (\<lambda>a. o_OrderID (node_order h a) = oid) as"

definition without :: "nat option \<Rightarrow> nat list \<Rightarrow> nat list" where
  "without p as = (case p of None \<Rightarrow> as | Some a \<Rightarrow> remove1 a as)"

lemma set_without: "set (without p as) \<subseteq> set as"
  by (simp add: without_def set_remove1_subset split: option.split)

lemma heap_remove_at:
  assumes q: "queue_at hq as q"
  shows "\<exists>hq'. heap_remove oid hq = Some (Inr (fst (queue_remove oid q), hq')) \<and>
    queue_at hq' (without (node_of oid (fst hq) as) as) (snd (queue_remove oid q))"
proof -
  obtain h lq where hq: "hq = (h, lq)" by fastforce
  let ?f = "find (\<lambda>a. o_OrderID (node_order h a) = oid) as"
  have c: "chain h None (hq_head lq) as (hq_tail lq) None" "distinct as"
    and qq: "q = \<lparr>q_orders = map (node_order h) as, q_volume = hq_volume lq, q_len = hq_len lq\<rparr>"
    using q by (auto simp: queue_at_def hq)
  have walk: "find_node h oid (hq_head lq) = Some (Inr ?f)" using c(1) by (rule find_node_chain)
  have fo: "find_order oid (q_orders q) = map_option (node_order h) ?f" by (simp add: qq find_order_find)
  show ?thesis
  proof (cases ?f)
    case None
    with walk fo q show ?thesis
      by (intro exI [of _ hq]) (simp add: heap_remove_def hq queue_remove_def node_of_def without_def)
  next
    case (Some a)
    then obtain xs ys where as: "as = xs @ a # ys" "o_OrderID (node_order h a) = oid"
      "\<forall>x\<in>set xs. o_OrderID (node_order h x) \<noteq> oid" using find_split [OF Some] by blast
    obtain h' lq' where u: "unlink a (h, lq) = (h', lq')" by fastforce
    let ?lq' = "lq'\<lparr>hq_volume := Sub (hq_volume lq') (Remaining (node_order h a)), hq_len := hq_len lq' - 1\<rparr>"
    note un = unlink_chain [OF c [unfolded as(1)] u]
    from c(1) have "n_order (h a) \<noteq> None" unfolding as(1) chain_append by auto
    then have oa: "n_order (h a) = Some (node_order h a)" by (auto simp: node_order_def)
    have "chain (clear_node a h') None (hq_head lq') (xs @ ys) (hq_tail lq') None"
      using un(1) c(2) as(1) by (subst chain_frame [where h = h']) (auto simp: clear_node_def)
    moreover have "map (node_order (clear_node a h')) (xs @ ys) = map (node_order h) (xs @ ys)"
      using c(2) as(1) un(4) by (intro map_node_order) (auto simp: clear_node_def)
    moreover have "drop_order oid (q_orders q) = map (node_order h) (xs @ ys)"
      using as by (auto simp: qq intro!: drop_order_at)
    moreover have "heap_remove oid hq = Some (Inr (Some (node_order h a), clear_node a h', ?lq'))"
      using walk Some u oa un(4) [of a] by (simp add: heap_remove_def hq)
    moreover have "queue_remove oid q = (Some (node_order h a),
        q\<lparr>q_orders := drop_order oid (q_orders q), q_volume := Sub (q_volume q) (Remaining (node_order h a)),
          q_len := q_len q - 1\<rparr>)"
      using fo Some by (simp add: queue_remove_def)
    moreover have "distinct (xs @ ys)" using c(2) as(1) by auto
    moreover have "without (node_of oid (fst hq) as) as = xs @ ys"
      using Some c(2) by (simp add: node_of_def without_def hq as(1) remove1_append)
    ultimately show ?thesis using un(2,3)
      by (intro exI [of _ "(clear_node a h', ?lq')"]) (simp add: queue_at_def qq)
  qed
qed

subsection \<open>The refinement\<close>

definition empty_heap :: "node_store \<times> heapQueue" where
  "empty_heap = (\<lambda>_. \<lparr>n_order = None, n_next = None, n_prev = None\<rparr>,
     \<lparr>hq_head = None, hq_tail = None, hq_volume = NilDecimal, hq_len = 0\<rparr>)"

lemma empty_heap_at: "queue_at empty_heap [] new_queue"
  by (simp add: queue_at_def empty_heap_def new_queue_def)

text \<open>The doubly linked queue of a price level implements a FIFO list: started on a well-linked
  store, \<open>push\<close> (with a node that is not in use), \<open>pop\<close> and \<open>remove\<close> return what the list operations
  return and leave a well-linked store for their result, with the same cached volume and count. No
  operation dereferences nil, and the walk of \<open>remove\<close> ends.\<close>

theorem linked_queue_refines_list:
  assumes "queue_at hq as q"
  shows "(\<forall>a ord. a \<notin> set as \<longrightarrow> queue_at (heap_push a ord hq) (as @ [a]) (queue_push ord q)) \<and>
    (\<exists>hq'. heap_pop hq = Inr (fst (queue_pop q), hq') \<and> queue_at hq' (tl as) (snd (queue_pop q))) \<and>
    (\<forall>oid. \<exists>hq' as'. heap_remove oid hq = Some (Inr (fst (queue_remove oid q), hq')) \<and> set as' \<subseteq> set as \<and>
      queue_at hq' as' (snd (queue_remove oid q)))"
  using heap_push_at [OF assms] heap_pop_at [OF assms] heap_remove_at [OF assms] set_without by blast

definition probe_order :: Order where
  "probe_order = \<lparr>o_OrderID = ''o1'', o_UserID = ''u1'', o_Symbol = ''ETH-USDT'', o_Side = SideBuy,
     o_Type = OrderTypeLimit, o_TimeInForce = TIF_GTC, o_Price = NewFromInt64 5, o_StopPrice = NilDecimal,
     o_Quantity = NewFromInt64 2, o_FilledQty = NilDecimal, o_DisplayQty = NilDecimal, o_Timestamp = 0,
     o_Status = OrderStatusCreated\<rparr>"

theorem linked_queue_refines_list_witness:
  "queue_at (heap_push 7 probe_order empty_heap) [7] (queue_push probe_order new_queue) \<and>
   (\<exists>hq'. heap_pop empty_heap = Inr (None, hq'))"
  using linked_queue_refines_list [OF empty_heap_at] by (auto simp: queue_pop_def new_queue_def)

end
