(* ===== verification/Object_Pools.thy ===== *)
theory Object_Pools
  imports Queue_Heap Matcher
begin

section \<open>Pooled nodes and results (matching/pool.go)\<close>

text \<open>
  \<open>orderNodePool\<close> is shared by the level queues of all books. A \<open>sync.Pool\<close> hands out any object
  that was put back, or a new one, and may forget objects at any time: which of these happens is an
  argument. The queues of theory \<open>Queue_Heap\<close> with their nodes taken from the pool and put back
  to it run here side by side on one store.
\<close>

record nodes =
  ns_store :: node_store
  ns_free :: "nat list"
  ns_fresh :: nat

definition blank_node :: orderNode where
  "blank_node = \<lparr>n_order = None, n_next = None, n_prev = None\<rparr>"

text \<open>Object \<open>c\<close> of the pool, or a new one when there is none.\<close>

definition orderNodePool_Get :: "nat \<Rightarrow> nodes \<Rightarrow> nat \<times> nodes" where
  "orderNodePool_Get c s =
     (if c < length (ns_free s) then
        (ns_free s ! c, s\<lparr>ns_free := take c (ns_free s) @ drop (Suc c) (ns_free s)\<rparr>)
      else
        (ns_fresh s, s\<lparr>ns_store := (ns_store s)(ns_fresh s := blank_node), ns_fresh := Suc (ns_fresh s)\<rparr>))"

definition orderNodePool_Put :: "nat option \<Rightarrow> nodes \<Rightarrow> nodes" where
  "orderNodePool_Put p s = (case p of None \<Rightarrow> s | Some a \<Rightarrow> s\<lparr>ns_free := a # ns_free s\<rparr>)"

text \<open>A fill of the oldest order of a level, as the matching loops do it on the shared order.\<close>

definition heap_fill :: "decimal \<Rightarrow> node_store \<times> heapQueue \<Rightarrow> panic + node_store \<times> heapQueue" where
  "heap_fill qty hq =
     (case hq of (h, q) \<Rightarrow>
        (case hq_head q of
           None \<Rightarrow> Inl NilPointerDereference
         | Some a \<Rightarrow>
             (case n_order (h a) of
                None \<Rightarrow> Inl NilPointerDereference
              | Some ord \<Rightarrow>
                  Inr (h(a := (h a)\<lparr>n_order := Some (fill_by qty ord)\<rparr>), q\<lparr>hq_volume := Sub (hq_volume q) qty\<rparr>))))"

definition queue_fill :: "decimal \<Rightarrow> orderQueue \<Rightarrow> panic + orderQueue" where
  "queue_fill qty q =
     (case q_orders q of
        [] \<Rightarrow> Inl NilPointerDereference
      | ord # os \<Rightarrow> Inr (q\<lparr>q_orders := fill_by qty ord # os, q_volume := Sub (q_volume q) qty\<rparr>))"

text \<open>The operations on queue \<open>k\<close>, the choice of the pool with a push, and a collection of garbage.\<close>

datatype pool_op =
    OpPush nat Order nat
  | OpPop nat
  | OpRemove nat string
  | OpFill nat decimal
  | OpCollect "nat list"

type_synonym pooled = "nodes \<times> (nat \<Rightarrow> heapQueue)"

fun pool_do :: "pool_op \<Rightarrow> pooled \<Rightarrow> (panic + Order option \<times> pooled) option" where
  "pool_do (OpPush k ord c) (s, Q) =
     (case orderNodePool_Get c s of
        (a, s1) \<Rightarrow>
          (case heap_push a ord (ns_store s1, Q k) of
             (h, q) \<Rightarrow> Some (Inr (None, s1\<lparr>ns_store := h\<rparr>, Q(k := q)))))"
| "pool_do (OpPop k) (s, Q) =
     (case heap_pop (ns_store s, Q k) of
        Inl p \<Rightarrow> Some (Inl p)
      | Inr (r, h, q) \<Rightarrow> Some (Inr (r, orderNodePool_Put (hq_head (Q k)) (s\<lparr>ns_store := h\<rparr>), Q(k := q))))"
| "pool_do (OpRemove k oid) (s, Q) =
     (case find_node (ns_store s) oid (hq_head (Q k)) of
        None \<Rightarrow> None
      | Some (Inl p) \<Rightarrow> Some (Inl p)
      | Some (Inr node) \<Rightarrow>
          (case heap_remove oid (ns_store s, Q k) of
             None \<Rightarrow> None
           | Some (Inl p) \<Rightarrow> Some (Inl p)
           | Some (Inr (r, h, q)) \<Rightarrow> Some (Inr (r, orderNodePool_Put node (s\<lparr>ns_store := h\<rparr>), Q(k := q)))))"
| "pool_do (OpFill k qty) (s, Q) =
     (case heap_fill qty (ns_store s, Q k) of
        Inl p \<Rightarrow> Some (Inl p)
      | Inr (h, q) \<Rightarrow> Some (Inr (None, s\<lparr>ns_store := h\<rparr>, Q(k := q))))"
| "pool_do (OpCollect gone) (s, Q) =
     Some (Inr (None, s\<lparr>ns_free := filter (\<lambda>a. a \<notin> set gone) (ns_free s)\<rparr>, Q))"

fun pool_run :: "pool_op list \<Rightarrow> pooled \<Rightarrow> (panic + Order option list \<times> pooled) option" where
  "pool_run [] st = Some (Inr ([], st))"
| "pool_run (op # ops) st =
     (case pool_do op st of
        None \<Rightarrow> None
      | Some (Inl p) \<Rightarrow> Some (Inl p)
      | Some (Inr (r, st')) \<Rightarrow>
          (case pool_run ops st' of
             None \<Rightarrow> None
           | Some (Inl p) \<Rightarrow> Some (Inl p)
           | Some (Inr (rs, st'')) \<Rightarrow> Some (Inr (r # rs, st''))))"

text \<open>The same operations on queues that are lists, without nodes and without a pool.\<close>

fun list_do :: "pool_op \<Rightarrow> (nat \<Rightarrow> orderQueue) \<Rightarrow> panic + Order option \<times> (nat \<Rightarrow> orderQueue)" where
  "list_do (OpPush k ord c) A = Inr (None, A(k := queue_push ord (A k)))"
| "list_do (OpPop k) A = Inr (fst (queue_pop (A k)), A(k := snd (queue_pop (A k))))"
| "list_do (OpRemove k oid) A = Inr (fst (queue_remove oid (A k)), A(k := snd (queue_remove oid (A k))))"
| "list_do (OpFill k qty) A =
     (case queue_fill qty (A k) of Inl p \<Rightarrow> Inl p | Inr q \<Rightarrow> Inr (None, A(k := q)))"
| "list_do (OpCollect gone) A = Inr (None, A)"

fun list_run :: "pool_op list \<Rightarrow> (nat \<Rightarrow> orderQueue) \<Rightarrow> panic + Order option list \<times> (nat \<Rightarrow> orderQueue)" where
  "list_run [] A = Inr ([], A)"
| "list_run (op # ops) A =
     (case list_do op A of
        Inl p \<Rightarrow> Inl p
      | Inr (r, A') \<Rightarrow>
          (case list_run ops A' of
             Inl p \<Rightarrow> Inl p
           | Inr (rs, A'') \<Rightarrow> Inr (r # rs, A'')))"

lemma store_Put [simp]: "ns_store (orderNodePool_Put p s) = ns_store s"
  by (simp add: orderNodePool_Put_def split: option.split)

subsection \<open>What an operation leaves alone\<close>

lemma queue_at_pointers:
  assumes "queue_at (h, q) as A"
  shows "hq_head q = (case as of [] \<Rightarrow> None | a # _ \<Rightarrow> Some a)" "hq_tail q = (if as = [] then None else Some (last as))"
  using assms chain_first [of h None "hq_head q" as "hq_tail q" None] chain_last [of h None "hq_head q" as "hq_tail q" None]
  by (simp_all add: queue_at_def)

lemma queue_at_frame:
  assumes "queue_at (h, q) as A" "\<And>a. a \<in> set as \<Longrightarrow> h' a = h a"
  shows "queue_at (h', q) as A"
proof -
  have "chain h' None (hq_head q) as (hq_tail q) None = chain h None (hq_head q) as (hq_tail q) None"
    by (rule chain_frame) (rule assms(2))
  moreover have "map (node_order h') as = map (node_order h) as" by (rule map_node_order) (simp add: assms(2))
  ultimately show ?thesis using assms(1) by (simp add: queue_at_def)
qed

lemma heap_push_frame:
  assumes "queue_at (h, q) as A" "b \<notin> set as" "b \<noteq> a"
  shows "fst (heap_push a ord (h, q)) b = h b"
  using assms(2,3) queue_at_pointers(2) [OF assms(1)]
  by (auto simp: heap_push_def Let_def set_next_def set_prev_def split: if_splits)

lemma heap_pop_frame:
  assumes "queue_at (h, q) as A" "b \<notin> set as" "heap_pop (h, q) = Inr (r, h', q')"
  shows "h' b = h b"
proof (cases as)
  case Nil
  then show ?thesis using assms queue_at_pointers(1) [OF assms(1)] by (simp add: heap_pop_def)
next
  case (Cons a bs)
  with assms(1) have "chain h (Some a) (n_next (h a)) bs (hq_tail q) None" by (simp add: queue_at_def)
  then have n: "n_next (h a) = (case bs of [] \<Rightarrow> None | b # _ \<Rightarrow> Some b)" by (rule chain_first)
  have hd: "hq_head q = Some a" using queue_at_pointers(1) [OF assms(1)] Cons by simp
  show ?thesis
  proof (cases bs)
    case Nil
    with n hd assms(2,3) Cons show ?thesis
      by (cases "n_order (h a)") (simp_all add: heap_pop_def Let_def clear_node_def, metis fun_upd_apply)
  next
    case (Cons c cs)
    with n hd assms(2,3) \<open>as = a # bs\<close> show ?thesis
      by (cases "n_order (set_prev c None h a)") (simp_all add: heap_pop_def Let_def clear_node_def set_prev_def, metis fun_upd_apply)
  qed
qed

lemma unlink_frame:
  assumes "chain h None (hq_head q) (xs @ a # ys) (hq_tail q) None" "distinct (xs @ a # ys)" "b \<notin> set (xs @ a # ys)"
    "unlink a (h, q) = (h', q')"
  shows "h' b = h b"
proof -
  obtain m where m: "chain h None (hq_head q) xs m (Some a)" "n_prev (h a) = m"
    "chain h (Some a) (n_next (h a)) ys (hq_tail q) None"
    using assms(1) unfolding chain_append by auto
  have "m = (if xs = [] then None else Some (last xs))" "n_next (h a) = (case ys of [] \<Rightarrow> None | c # _ \<Rightarrow> Some c)"
    using chain_last [OF m(1)] chain_first [OF m(3)] by simp_all
  with m(2) assms(2-4) show ?thesis
    by (auto simp: unlink_def Let_def set_next_def set_prev_def split: if_splits list.splits)
qed

lemma heap_remove_frame:
  assumes q: "queue_at (h, q) as A" and b: "b \<notin> set as" and r: "heap_remove oid (h, q) = Some (Inr (r, h', q'))"
  shows "h' b = h b"
proof -
  have c: "chain h None (hq_head q) as (hq_tail q) None" "distinct as" using q by (simp_all add: queue_at_def)
  have walk: "find_node h oid (hq_head q) = Some (Inr (node_of oid h as))"
    unfolding node_of_def by (rule find_node_chain [OF c(1)])
  show ?thesis
  proof (cases "node_of oid h as")
    case None
    with walk r show ?thesis by (simp add: heap_remove_def)
  next
    case (Some a)
    obtain xs ys where as: "as = xs @ a # ys"
      using find_split [OF Some [unfolded node_of_def]] by auto
    obtain h1 q1 where u: "unlink a (h, q) = (h1, q1)" by fastforce
    have "h1 b = h b" by (rule unlink_frame [OF _ _ _ u]) (use c b as in auto)
    with walk Some r u b as show ?thesis
      by (auto simp: heap_remove_def clear_node_def split: option.splits)
  qed
qed

lemma heap_fill_at:
  assumes "queue_at (h, q) as A"
  shows "case queue_fill qty A of
      Inl p \<Rightarrow> heap_fill qty (h, q) = Inl p
    | Inr A' \<Rightarrow> \<exists>h' q'. heap_fill qty (h, q) = Inr (h', q') \<and> queue_at (h', q') as A' \<and> (\<forall>b. b \<notin> set as \<longrightarrow> h' b = h b)"
proof (cases as)
  case Nil
  then show ?thesis using assms queue_at_pointers(1) [OF assms]
    by (simp add: queue_fill_def heap_fill_def queue_at_def)
next
  case (Cons a bs)
  obtain ord where o': "n_order (h a) = Some ord" "node_order h a = ord"
    using assms Cons by (auto simp: queue_at_def node_order_def)
  let ?h = "h(a := (h a)\<lparr>n_order := Some (fill_by qty ord)\<rparr>)"
  have c: "chain h None (hq_head q) as (hq_tail q) None" "distinct as" using assms by (simp_all add: queue_at_def)
  have "chain ?h pv p xs l e = chain h pv p xs l e" for pv p xs l e
    by (induction xs arbitrary: pv p) (simp_all add: o')
  moreover have "map (node_order ?h) as = fill_by qty ord # map (node_order h) bs"
    using c(2) Cons by (auto simp: node_order_def)
  ultimately show ?thesis
    using assms Cons o' queue_at_pointers(1) [OF assms]
    by (auto simp: queue_fill_def heap_fill_def queue_at_def)
qed

subsection \<open>No node is used twice\<close>

text \<open>The nodes of queue \<open>k\<close> are \<open>N k\<close>: no two queues share a node and none is in the pool.\<close>

definition pool_inv :: "pooled \<Rightarrow> (nat \<Rightarrow> nat list) \<Rightarrow> (nat \<Rightarrow> orderQueue) \<Rightarrow> bool" where
  "pool_inv st N A \<longleftrightarrow> (case st of (s, Q) \<Rightarrow>
     (\<forall>k. queue_at (ns_store s, Q k) (N k) (A k)) \<and> (\<forall>k k'. k \<noteq> k' \<longrightarrow> set (N k) \<inter> set (N k') = {}) \<and>
     distinct (ns_free s) \<and> (\<forall>k. set (N k) \<inter> set (ns_free s) = {}) \<and>
     (\<forall>a. a \<in> set (ns_free s) \<or> (\<exists>k. a \<in> set (N k)) \<longrightarrow> a < ns_fresh s))"

text \<open>One queue moves on, together with some node \<open>X\<close> that is free or new; the others stay.\<close>

lemma pool_inv_update:
  assumes inv: "pool_inv (s, Q) N A"
    and q: "queue_at (ns_store s', q) as B" and frame: "\<And>b. b \<notin> set (N k) \<union> X \<Longrightarrow> ns_store s' b = ns_store s b"
    and sub: "set as \<subseteq> set (N k) \<union> X" "set (ns_free s') \<subseteq> set (ns_free s) \<union> set (N k)"
    and X: "\<And>j. X \<inter> set (N j) = {}" "X \<subseteq> {..<ns_fresh s'}" "ns_fresh s \<le> ns_fresh s'"
    and free: "distinct (ns_free s')" "set as \<inter> set (ns_free s') = {}"
  shows "pool_inv (s', Q(k := q)) (N(k := as)) (A(k := B))"
proof -
  have i: "queue_at (ns_store s, Q j) (N j) (A j)" "j \<noteq> j' \<Longrightarrow> set (N j) \<inter> set (N j') = {}"
    "set (N j) \<inter> set (ns_free s) = {}" "a \<in> set (ns_free s) \<or> a \<in> set (N j) \<Longrightarrow> a < ns_fresh s" for j j' a
    using inv unfolding pool_inv_def prod.case by blast+
  have others: "queue_at (ns_store s', Q j) (N j) (A j)" if "j \<noteq> k" for j
    using i(1) by (rule queue_at_frame) (use frame i(2) [OF that] X(1) [of j] in blast)
  have disj: "set (N j) \<inter> set as = {}" "set (N j) \<inter> set (ns_free s') = {}" if "j \<noteq> k" for j
    using sub X(1) [of j] i(2) [OF that] i(3) [of j] by blast+
  have low: "a < ns_fresh s'" if "a \<in> set (ns_free s') \<or> a \<in> set as \<or> a \<in> set (N j)" for a j
  proof -
    have "a \<in> X \<or> a \<in> set (ns_free s) \<or> (\<exists>j. a \<in> set (N j))" using that sub by blast
    then have "a \<in> X \<or> a < ns_fresh s" using i(4) by blast
    then show ?thesis using X(2,3) by auto
  qed
  show ?thesis
    unfolding pool_inv_def prod.case
  proof (intro conjI allI impI)
    show "queue_at (ns_store s', (Q(k := q)) j) ((N(k := as)) j) ((A(k := B)) j)" for j
      using q others by simp
    show "set ((N(k := as)) j) \<inter> set ((N(k := as)) j') = {}" if "j \<noteq> j'" for j j'
      using that disj(1) [of j] disj(1) [of j'] i(2) [OF that] by auto
    show "distinct (ns_free s')" by (rule free(1))
    show "set ((N(k := as)) j) \<inter> set (ns_free s') = {}" for j using free(2) disj(2) [of j] by simp
    show "a < ns_fresh s'" if "a \<in> set (ns_free s') \<or> (\<exists>k'. a \<in> set ((N(k := as)) k'))" for a
      using that low by (auto split: if_splits)
  qed
qed

lemma Get_free:
  assumes "orderNodePool_Get c s = (a, s')" "distinct (ns_free s)" "\<And>b. b \<in> set (ns_free s) \<Longrightarrow> b < ns_fresh s"
  shows "a \<in> set (ns_free s) \<or> a = ns_fresh s" "a \<notin> set (ns_free s')" "set (ns_free s') \<subseteq> set (ns_free s)"
    "distinct (ns_free s')" "a < ns_fresh s'" "ns_fresh s \<le> ns_fresh s'" "b \<noteq> a \<Longrightarrow> ns_store s' b = ns_store s b"
proof -
  have split: "ns_free s = take c (ns_free s) @ ns_free s ! c # drop (Suc c) (ns_free s)" if "c < length (ns_free s)"
    using that by (rule id_take_nth_drop)
  then have d: "distinct (take c (ns_free s) @ ns_free s ! c # drop (Suc c) (ns_free s))" if "c < length (ns_free s)"
    using that assms(2) by simp
  show "a \<in> set (ns_free s) \<or> a = ns_fresh s" "b \<noteq> a \<Longrightarrow> ns_store s' b = ns_store s b" "ns_fresh s \<le> ns_fresh s'"
    "set (ns_free s') \<subseteq> set (ns_free s)" "a < ns_fresh s'"
    using assms(1) assms(3) by (auto simp: orderNodePool_Get_def dest: in_set_takeD in_set_dropD split: if_splits)
  show "a \<notin> set (ns_free s')" "distinct (ns_free s')"
    using assms(1,2) d assms(3) [of "ns_fresh s"] by (auto simp: orderNodePool_Get_def split: if_splits)
qed

lemma pool_do_refines:
  assumes inv: "pool_inv (s, Q) N A"
  shows "case list_do op A of
      Inl p \<Rightarrow> pool_do op (s, Q) = Some (Inl p)
    | Inr (r, A') \<Rightarrow> \<exists>st N'. pool_do op (s, Q) = Some (Inr (r, st)) \<and> pool_inv st N' A'"
proof -
  have i: "queue_at (ns_store s, Q k) (N k) (A k)" "distinct (ns_free s)" "j \<noteq> k \<Longrightarrow> set (N j) \<inter> set (N k) = {}"
    "set (N k) \<inter> set (ns_free s) = {}" "a \<in> set (ns_free s) \<or> a \<in> set (N k) \<Longrightarrow> a < ns_fresh s" for j k a
    using inv unfolding pool_inv_def prod.case by blast+
  have dN: "distinct (N k)" for k using i(1) by (simp add: queue_at_def)
  show ?thesis
  proof (cases op)
    case (OpPush k ord c)
    obtain a s1 where g: "orderNodePool_Get c s = (a, s1)" by fastforce
    have low: "b < ns_fresh s" if "b \<in> set (ns_free s)" for b using i(5) that by blast
    note G = Get_free [OF g i(2) low]
    have a: "a \<notin> set (N j)" for j using G(1) i(4) [of j] i(5) [of a j] by auto
    have at: "queue_at (ns_store s1, Q k) (N k) (A k)"
      using i(1) by (rule queue_at_frame) (use G(7) a [of k] in metis)
    obtain h q where p: "heap_push a ord (ns_store s1, Q k) = (h, q)" by fastforce
    have "pool_inv (s1\<lparr>ns_store := h\<rparr>, Q(k := q)) (N(k := N k @ [a])) (A(k := queue_push ord (A k)))"
    proof (rule pool_inv_update [OF inv, where X = "{a}"])
      show "queue_at (ns_store (s1\<lparr>ns_store := h\<rparr>), q) (N k @ [a]) (queue_push ord (A k))"
        using heap_push_at [OF at a, of ord] p by simp
      show "ns_store (s1\<lparr>ns_store := h\<rparr>) b = ns_store s b" if "b \<notin> set (N k) \<union> {a}" for b
        using heap_push_frame [OF at, of b a ord] p that G(7) i(5) by auto
      show "set (N k @ [a]) \<inter> set (ns_free (s1\<lparr>ns_store := h\<rparr>)) = {}" using G(2,3) i(4) [of k] by auto
    qed (use G a in auto)
    with OpPush g p show ?thesis by (simp split: prod.split; blast)
  next
    case (OpPop k)
    obtain hq' where p: "heap_pop (ns_store s, Q k) = Inr (fst (queue_pop (A k)), hq')"
      "queue_at hq' (tl (N k)) (snd (queue_pop (A k)))" using heap_pop_at [OF i(1)] by blast
    obtain h q where hq: "hq' = (h, q)" by fastforce
    note head = queue_at_pointers(1) [OF i(1), of k]
    let ?s = "orderNodePool_Put (hq_head (Q k)) (s\<lparr>ns_store := h\<rparr>)"
    have "pool_inv (?s, Q(k := q)) (N(k := tl (N k))) (A(k := snd (queue_pop (A k))))"
    proof (rule pool_inv_update [OF inv, where X = "{}"])
      show "queue_at (ns_store ?s, q) (tl (N k)) (snd (queue_pop (A k)))"
        using p(2) hq by simp
      show "ns_store ?s b = ns_store s b" if "b \<notin> set (N k) \<union> {}" for b
        using heap_pop_frame [OF i(1) _ p(1) [unfolded hq]] that by simp
    qed (use head i(2) i(4) [of k] dN [of k] in \<open>cases "N k"; auto simp: orderNodePool_Put_def\<close>)+
    with OpPop p(1) hq show ?thesis by auto
  next
    case (OpRemove k oid)
    let ?n = "node_of oid (ns_store s) (N k)"
    have walk: "find_node (ns_store s) oid (hq_head (Q k)) = Some (Inr ?n)"
      unfolding node_of_def
      by (rule find_node_chain [where pv = None and l = "hq_tail (Q k)"]) (use i(1) [of k] in \<open>simp add: queue_at_def\<close>)
    obtain hq' where p: "heap_remove oid (ns_store s, Q k) = Some (Inr (fst (queue_remove oid (A k)), hq'))"
      "queue_at hq' (without ?n (N k)) (snd (queue_remove oid (A k)))"
      using heap_remove_at [OF i(1) [of k], of oid] by auto
    obtain h q where hq: "hq' = (h, q)" by fastforce
    have n: "a \<in> set (N k)" if "?n = Some a" for a
      using find_split [OF that [unfolded node_of_def]] by auto
    let ?s = "orderNodePool_Put ?n (s\<lparr>ns_store := h\<rparr>)"
    have "pool_inv (?s, Q(k := q)) (N(k := without ?n (N k))) (A(k := snd (queue_remove oid (A k))))"
    proof (rule pool_inv_update [OF inv, where X = "{}"])
      show "queue_at (ns_store ?s, q) (without ?n (N k)) (snd (queue_remove oid (A k)))"
        using p(2) hq by simp
      show "ns_store ?s b = ns_store s b" if "b \<notin> set (N k) \<union> {}" for b
        using heap_remove_frame [OF i(1) _ p(1) [unfolded hq]] that by simp
      show "set (without ?n (N k)) \<subseteq> set (N k) \<union> {}" using set_without by blast
      show "set (without ?n (N k)) \<inter> set (ns_free ?s) = {}"
        using i(4) [of k] dN [of k] by (auto simp: orderNodePool_Put_def without_def split: option.splits dest: notin_set_remove1)
    qed (use n i(2) i(4) [of k] in \<open>auto simp: orderNodePool_Put_def split: option.splits\<close>)
    with OpRemove walk p(1) hq show ?thesis by auto
  next
    case (OpFill k qty)
    show ?thesis
    proof (cases "queue_fill qty (A k)")
      case (Inl p)
      then show ?thesis using heap_fill_at [OF i(1) [of k], of qty] OpFill by simp
    next
      case (Inr B)
      obtain h q where f: "heap_fill qty (ns_store s, Q k) = Inr (h, q)" "queue_at (h, q) (N k) B"
        "\<forall>b. b \<notin> set (N k) \<longrightarrow> h b = ns_store s b" using heap_fill_at [OF i(1) [of k], of qty] Inr by auto
      have "pool_inv (s\<lparr>ns_store := h\<rparr>, Q(k := q)) (N(k := N k)) (A(k := B))"
        by (rule pool_inv_update [OF inv, where X = "{}"]) (use f i(2) i(4) in auto)
      with OpFill Inr f(1) show ?thesis by auto
    qed
  next
    case (OpCollect gone)
    have "pool_inv (s\<lparr>ns_free := filter (\<lambda>a. a \<notin> set gone) (ns_free s)\<rparr>, Q) N A"
      using inv unfolding pool_inv_def prod.case by auto
    with OpCollect show ?thesis by auto
  qed
qed

definition pool_start :: pooled where
  "pool_start = (\<lparr>ns_store = (\<lambda>_. blank_node), ns_free = [], ns_fresh = 0\<rparr>, \<lambda>_. snd empty_heap)"

lemma pool_start_inv: "pool_inv pool_start (\<lambda>_. []) (\<lambda>_. new_queue)"
  using empty_heap_at by (simp add: pool_inv_def pool_start_def empty_heap_def blank_node_def)

lemma pool_run_refines:
  assumes "pool_inv st N A"
  shows "case list_run ops A of
      Inl p \<Rightarrow> pool_run ops st = Some (Inl p)
    | Inr (rs, A') \<Rightarrow> \<exists>st' N'. pool_run ops st = Some (Inr (rs, st')) \<and> pool_inv st' N' A'"
  using assms
proof (induction ops arbitrary: st N A)
  case (Cons op ops)
  obtain s Q where st: "st = (s, Q)" by fastforce
  note step = pool_do_refines [OF Cons.prems [unfolded st], of op]
  show ?case
  proof (cases "list_do op A")
    case (Inl p)
    with step st show ?thesis by simp
  next
    case (Inr o2)
    obtain r A2 where o2: "o2 = (r, A2)" by fastforce
    obtain st2 N2 where s2: "pool_do op st = Some (Inr (r, st2))" "pool_inv st2 N2 A2"
      using step Inr st o2 by auto
    from Cons.IH [OF s2(2)] Inr o2 s2(1) show ?thesis by (cases "list_run ops A2") auto
  qed
qed auto

text \<open>C17. Pooled nodes are never confused: all level queues of all books, run side by side with their
  nodes taken from the shared pool and put back to it, answer every sequence of pushes, pops, removals
  and fills as so many separate lists, whichever objects the pool hands out, makes or forgets. No walk
  runs for ever, nil is dereferenced only where a fill meets an empty queue, and at the end each queue
  is well linked, no node is in two queues, and none of a queue is in the pool.\<close>

theorem pooled_queues_refine_lists:
  "case list_run ops (\<lambda>_. new_queue) of
     Inl p \<Rightarrow> pool_run ops pool_start = Some (Inl p)
   | Inr (rs, A) \<Rightarrow> \<exists>s Q N. pool_run ops pool_start = Some (Inr (rs, s, Q)) \<and>
       (\<forall>k. queue_at (ns_store s, Q k) (N k) (A k)) \<and> (\<forall>k k'. k \<noteq> k' \<longrightarrow> set (N k) \<inter> set (N k') = {}) \<and>
       (\<forall>k. set (N k) \<inter> set (ns_free s) = {})"
proof (cases "list_run ops (\<lambda>_. new_queue)")
  case (Inl p)
  with pool_run_refines [OF pool_start_inv, of ops] show ?thesis by simp
next
  case (Inr r)
  obtain rs A where r: "r = (rs, A)" by fastforce
  obtain s Q N where f: "pool_run ops pool_start = Some (Inr (rs, s, Q))" "pool_inv (s, Q) N A"
    using pool_run_refines [OF pool_start_inv, of ops] Inr r by auto
  then show ?thesis using Inr r unfolding pool_inv_def prod.case by auto
qed

text \<open>A run of two queues in which the second uses the node that the first gave back.\<close>

theorem pooled_queues_refine_lists_witness:
  "\<exists>s Q. pool_run [OpPush 0 probe_order 0, OpPop 0, OpPush 1 probe_order 0, OpRemove 1 ''o1'', OpPop 1] pool_start =
     Some (Inr ([None, Some probe_order, None, Some probe_order, None], s, Q))"
proof -
  let ?ops = "[OpPush 0 probe_order 0, OpPop 0, OpPush 1 probe_order 0, OpRemove 1 ''o1'', OpPop 1]"
  have "\<exists>A. list_run ?ops (\<lambda>_. new_queue) = Inr ([None, Some probe_order, None, Some probe_order, None], A)"
    by (simp add: new_queue_def queue_push_def queue_pop_def queue_remove_def probe_order_def)
  with pooled_queues_refine_lists [of ?ops] show ?thesis by auto
qed

subsection \<open>Pooled match results\<close>

text \<open>\<open>matchResultPool\<close>: the results that were released and not handed out again.\<close>

definition blank_result :: MatchResult where
  "blank_result = \<lparr>m_TakerOrderID = '''', m_MakerOrderID = '''', m_TakerUserID = '''', m_MakerUserID = '''',
     m_Symbol = '''', m_Price = NilDecimal, m_Quantity = NilDecimal, m_QuoteQty = NilDecimal, m_TakerSide = '''',
     m_Timestamp = 0\<rparr>"

definition GetMatchResult :: "nat \<Rightarrow> MatchResult list \<Rightarrow> MatchResult \<times> MatchResult list" where
  "GetMatchResult c pool =
     (if c < length pool then (pool ! c, take c pool @ drop (Suc c) pool) else (blank_result, pool))"

definition ReleaseMatchResult :: "MatchResult \<Rightarrow> MatchResult list \<Rightarrow> MatchResult list" where
  "ReleaseMatchResult m pool =
     m\<lparr>m_TakerOrderID := '''', m_MakerOrderID := '''', m_TakerUserID := '''', m_MakerUserID := '''',
       m_Symbol := '''', m_Price := Zero, m_Quantity := Zero, m_QuoteQty := Zero, m_TakerSide := '''',
       m_Timestamp := 0\<rparr> # pool"

datatype result_op = GetResult nat | Release MatchResult | Forget "nat list"

fun result_run :: "result_op list \<Rightarrow> MatchResult list \<Rightarrow> MatchResult list \<times> MatchResult list" where
  "result_run [] pool = ([], pool)"
| "result_run (GetResult c # ops) pool =
     (case GetMatchResult c pool of (m, pool') \<Rightarrow> map_prod ((#) m) id (result_run ops pool'))"
| "result_run (Release m # ops) pool = result_run ops (ReleaseMatchResult m pool)"
| "result_run (Forget gone # ops) pool = result_run ops (nths pool (- set gone))"

definition empty_result :: "MatchResult \<Rightarrow> bool" where
  "empty_result m \<longleftrightarrow> m_TakerOrderID m = '''' \<and> m_MakerOrderID m = '''' \<and> m_TakerUserID m = '''' \<and>
     m_MakerUserID m = '''' \<and> m_Symbol m = '''' \<and> val (m_Price m) = 0 \<and> val (m_Quantity m) = 0 \<and>
     val (m_QuoteQty m) = 0 \<and> m_TakerSide m = '''' \<and> m_Timestamp m = 0"

text \<open>No trade leaks through the pool: whatever was released, every result handed out is empty.\<close>

theorem pooled_results_empty:
  assumes "list_all empty_result pool"
  shows "list_all empty_result (fst (result_run ops pool)) \<and> list_all empty_result (snd (result_run ops pool))"
  using assms
proof (induction ops pool rule: result_run.induct)
  case (2 c ops pool)
  obtain m pool' where g: "GetMatchResult c pool = (m, pool')" by fastforce
  have "empty_result blank_result" by (simp add: blank_result_def empty_result_def)
  then have "empty_result m" "list_all empty_result pool'"
    using g 2(2) set_take_subset [of c pool] set_drop_subset [of "Suc c" pool]
    by (auto simp: GetMatchResult_def list_all_iff subset_iff split: if_splits)
  with 2(1) [OF g [symmetric]] g show ?case by (auto simp: map_prod_def split: prod.split)
next
  case (3 m ops pool)
  have empty: "empty_result (m\<lparr>m_TakerOrderID := '''', m_MakerOrderID := '''', m_TakerUserID := '''', m_MakerUserID := '''',
       m_Symbol := '''', m_Price := Zero, m_Quantity := Zero, m_QuoteQty := Zero, m_TakerSide := '''',
       m_Timestamp := 0\<rparr>)" by (simp add: empty_result_def)
  have "list_all empty_result (ReleaseMatchResult m pool)"
    using 3(2) empty by (simp add: ReleaseMatchResult_def)
  with 3(1) show ?case by simp
next
  case (4 gone ops pool)
  have "list_all empty_result (nths pool (- set gone))"
    using 4(2) by (auto simp: list_all_iff dest: in_set_nthsD)
  with 4(1) show ?case by simp
qed simp

end
