(* ===== verification/Identifiers.thy ===== *)
theory Identifiers
  imports Hd_Wallet Database
begin

section \<open>Identifiers (common/idgen.go)\<close>

text \<open>
  Identifiers are made of a ULID: \<open>ulid ms r\<close> is its text for a time in milliseconds and ten bytes
  of randomness, a parameter. What is used of it, \<open>ulid_layout\<close>, is its documented layout: ten
  characters of time and sixteen of randomness, in the digits and capital letters of Crockford's
  alphabet, each part determining what it encodes.
\<close>

definition to_upper :: "char \<Rightarrow> char" where
  "to_upper c = (if 97 \<le> byte c \<and> byte c \<le> 122 then char_of (byte c - 32) else c)"

definition ToUpper :: "string \<Rightarrow> string" where
  "ToUpper s = map to_upper s"

definition new_id :: "string \<Rightarrow> (int \<Rightarrow> string \<Rightarrow> string) \<Rightarrow> int \<Rightarrow> string \<Rightarrow> string" where
  "new_id prefix ulid now rnd = prefix @ ToUpper (take 16 (ulid (now div 1000000) rnd))"

definition NewOrderID :: "(int \<Rightarrow> string \<Rightarrow> string) \<Rightarrow> int \<Rightarrow> string \<Rightarrow> string" where
  "NewOrderID ulid now rnd = new_id ''ord_'' ulid now rnd"

definition NewTradeID :: "(int \<Rightarrow> string \<Rightarrow> string) \<Rightarrow> int \<Rightarrow> string \<Rightarrow> string" where
  "NewTradeID ulid now rnd = new_id ''trd_'' ulid now rnd"

definition NewWithdrawalID :: "(int \<Rightarrow> string \<Rightarrow> string) \<Rightarrow> int \<Rightarrow> string \<Rightarrow> string" where
  "NewWithdrawalID ulid now rnd = new_id ''wdr_'' ulid now rnd"

definition NewEventID :: "(int \<Rightarrow> string \<Rightarrow> string) \<Rightarrow> int \<Rightarrow> string \<Rightarrow> string" where
  "NewEventID ulid now rnd = ulid (now div 1000000) rnd"

text \<open>Keys and secrets print 32 random bytes; the error of \<open>rand.Read\<close> is ignored, and what it does
  not fill stays zero.\<close>

definition NewAPIKey :: "string \<Rightarrow> string" where
  "NewAPIKey raw = ''ak_'' @ hex_encode raw"

definition NewAPISecret :: "string \<Rightarrow> string" where
  "NewAPISecret raw = hex_encode raw"

subsection \<open>Properties\<close>

definition crockford :: string where
  "crockford = ''0123456789ABCDEFGHJKMNPQRSTVWXYZ''"

definition ulid_layout ::
  "(int \<Rightarrow> string \<Rightarrow> string) \<Rightarrow> (int \<Rightarrow> string) \<Rightarrow> (string \<Rightarrow> string) \<Rightarrow> bool" where
  "ulid_layout ulid ts rt \<longleftrightarrow>
     (\<forall>ms r. 0 \<le> ms \<and> ms < 2 ^ 48 \<and> length r = 10 \<longrightarrow> ulid ms r = ts ms @ rt r) \<and>
     (\<forall>ms. 0 \<le> ms \<and> ms < 2 ^ 48 \<longrightarrow> length (ts ms) = 10 \<and> set (ts ms) \<subseteq> set crockford) \<and>
     (\<forall>r. length r = 10 \<longrightarrow> length (rt r) = 16 \<and> set (rt r) \<subseteq> set crockford) \<and>
     inj_on ts {0..<2 ^ 48} \<and> inj_on rt {r. length r = 10}"

definition id_time :: "int \<Rightarrow> bool" where
  "id_time now \<longleftrightarrow> 0 \<le> now \<and> now < 2 ^ 48 * 1000000"

lemma id_time_ms: "id_time now \<Longrightarrow> 0 \<le> now div 1000000 \<and> now div 1000000 < 2 ^ 48"
  by (simp add: id_time_def) linarith

lemma crockford_upper: "c \<in> set crockford \<Longrightarrow> to_upper c = c \<and> byte c < 128"
proof -
  have "list_all (\<lambda>c. to_upper c = c \<and> byte c < 128) crockford" by code_simp
  then show "c \<in> set crockford \<Longrightarrow> to_upper c = c \<and> byte c < 128" by (auto simp: list_all_iff)
qed

lemma new_id_text:
  assumes "ulid_layout ulid ts rt" "id_time now" "length r = 10"
  shows "new_id prefix ulid now r = prefix @ ts (now div 1000000) @ take 6 (rt r)"
    "length (ts (now div 1000000)) = 10" "length (rt r) = 16"
    "set (ts (now div 1000000) @ take 6 (rt r)) \<subseteq> set crockford"
proof -
  let ?t = "ts (now div 1000000)"
  have u: "ulid (now div 1000000) r = ?t @ rt r" "length ?t = 10" "set ?t \<subseteq> set crockford"
    "length (rt r) = 16" "set (rt r) \<subseteq> set crockford"
    using assms id_time_ms [OF assms(2)] by (auto simp: ulid_layout_def)
  then show "length ?t = 10" "length (rt r) = 16" by blast+
  show c: "set (?t @ take 6 (rt r)) \<subseteq> set crockford" using u(3,5) set_take_subset [of 6 "rt r"] by auto
  have "map to_upper (?t @ take 6 (rt r)) = ?t @ take 6 (rt r)"
    using c crockford_upper by (intro map_idI) blast
  then show "new_id prefix ulid now r = prefix @ ?t @ take 6 (rt r)"
    using u(1,2) by (simp add: new_id_def ToUpper_def)
qed

text \<open>An order identifier is twenty ASCII characters, so it fits its column, and two are equal exactly
  when they were made in the same millisecond with the same first six characters (30 bits) of
  randomness: the other fifty random bits of the ULID are cut off.\<close>

theorem order_ids_collide_iff:
  assumes law: "ulid_layout ulid ts rt" and now: "id_time now" "id_time now'" and r: "length r = 10" "length r' = 10"
  shows "length (NewOrderID ulid now r) = 20 \<and> varchar_ok 50 (NewOrderID ulid now r) \<and>
    (NewOrderID ulid now r = NewOrderID ulid now' r' \<longleftrightarrow>
       now div 1000000 = now' div 1000000 \<and> take 6 (rt r) = take 6 (rt r'))"
proof -
  note a = new_id_text(1) [OF law now(1) r(1), of "''ord_''"] new_id_text(2,3) [OF law now(1) r(1)]
    and b = new_id_text(1) [OF law now(2) r(2), of "''ord_''"] new_id_text(2,3) [OF law now(2) r(2)]
  have len: "length (NewOrderID ulid now r) = 20" using a by (simp add: NewOrderID_def)
  then have "varchar_ok 50 (NewOrderID ulid now r)"
    by (simp add: varchar_ok_def char_count_def le_trans [OF length_filter_le])
  moreover have "ts (now div 1000000) = ts (now' div 1000000) \<longleftrightarrow> now div 1000000 = now' div 1000000"
  proof -
    have "inj_on ts {0..<2 ^ 48}" using law by (simp add: ulid_layout_def)
    with id_time_ms [OF now(1)] id_time_ms [OF now(2)] show ?thesis by (auto simp: inj_on_eq_iff)
  qed
  moreover have "NewOrderID ulid now r = NewOrderID ulid now' r' \<longleftrightarrow>
      ts (now div 1000000) = ts (now' div 1000000) \<and> take 6 (rt r) = take 6 (rt r')"
    using a b by (simp add: NewOrderID_def append_eq_append_conv)
  ultimately show ?thesis using len by blast
qed

text \<open>The three kinds of identifiers never coincide, and a key is 67 characters of which the secret of
  the same bytes is the end.\<close>

theorem id_kinds_differ:
  "NewOrderID ulid now r \<noteq> NewTradeID ulid' now' r' \<and> NewOrderID ulid now r \<noteq> NewWithdrawalID ulid' now' r' \<and>
   NewTradeID ulid now r \<noteq> NewWithdrawalID ulid' now' r' \<and>
   (length raw = 32 \<longrightarrow> length (NewAPIKey raw) = 67) \<and> drop 3 (NewAPIKey raw) = NewAPISecret raw"
proof -
  have "length (hex_encode raw) = 2 * length raw" for raw
    by (induction raw) (simp_all add: hex_encode_def)
  then show ?thesis
    by (simp add: NewOrderID_def NewTradeID_def NewWithdrawalID_def new_id_def NewAPIKey_def NewAPISecret_def)
qed

end
