(* ===== verification/Connections.thy ===== *)
theory Connections
  imports Startup "HOL-Library.State_Monad"
begin

section \<open>Connections to databases and nodes (internal/db, blockchain/ethereum/client.go)\<close>

text \<open>
  What a process does to the world outside is a list of actions, kept in the state of a monad
  together with the calls it has deferred and its exit code. The answers of the libraries (drivers,
  network, migrator) are fields of the record \<open>outside\<close>. Informational log lines are left out;
  warnings, errors and the line that \<open>log.Fatal\<close> writes before \<open>os.Exit(1)\<close> are kept.
\<close>

subsection \<open>Processes\<close>

datatype resource = Pool | RedisConn | Bus | EthNode | RowSet | Ticker | Migrator | ClickHouseConn

datatype action =
    Open resource string
  | Close resource
  | LogLine string string
  | Consume bus_choice string string
  | Listen string
  | Serve string string
  | StopServer

record process =
  pr_log :: "action list"
  pr_deferred :: "action list"
  pr_exit :: "int option"

type_synonym 'a proc = "(process, 'a) state"

definition perform :: "action \<Rightarrow> unit proc" where
  "perform a = State_Monad.update (\<lambda>p. p\<lparr>pr_log := pr_log p @ [a]\<rparr>)"

text \<open>A deferred call runs when \<open>main\<close> returns, the last one first; \<open>os.Exit\<close> runs none.\<close>

definition defers :: "action \<Rightarrow> unit proc" where
  "defers a = State_Monad.update (\<lambda>p. p\<lparr>pr_deferred := a # pr_deferred p\<rparr>)"

definition main_returns :: "unit proc" where
  "main_returns = State_Monad.update
     (\<lambda>p. p\<lparr>pr_log := pr_log p @ pr_deferred p, pr_deferred := [], pr_exit := Some 0\<rparr>)"

definition os_Exit :: "int \<Rightarrow> unit proc" where
  "os_Exit code = State_Monad.update (\<lambda>p. p\<lparr>pr_exit := Some code\<rparr>)"

definition fatal :: "string \<Rightarrow> unit proc" where
  "fatal msg = do { perform (LogLine ''fatal'' msg); os_Exit 1 }"

definition warn :: "string \<Rightarrow> unit proc" where
  "warn msg = perform (LogLine ''warn'' msg)"

definition new_process :: process where
  "new_process = \<lparr>pr_log = [], pr_deferred = [], pr_exit = None\<rparr>"

lemma run_process [simp]:
  "run_state (perform a) p = ((), p\<lparr>pr_log := pr_log p @ [a]\<rparr>)"
  "run_state (defers a) p = ((), p\<lparr>pr_deferred := a # pr_deferred p\<rparr>)"
  "run_state main_returns p = ((), p\<lparr>pr_log := pr_log p @ pr_deferred p, pr_deferred := [], pr_exit := Some 0\<rparr>)"
  "run_state (os_Exit c) p = ((), p\<lparr>pr_exit := Some c\<rparr>)"
  "run_state (fatal msg) p = ((), p\<lparr>pr_log := pr_log p @ [LogLine ''fatal'' msg], pr_exit := Some 1\<rparr>)"
  "run_state (warn msg) p = ((), p\<lparr>pr_log := pr_log p @ [LogLine ''warn'' msg]\<rparr>)"
  by (simp_all add: perform_def defers_def main_returns_def os_Exit_def fatal_def warn_def State_Monad.update_def)

text \<open>The answers from outside: key files, database driver, redis, Ethereum node, migrator, network.\<close>

record pool_config =
  po_DSN :: string
  po_MaxConns :: "32 word"
  po_MinConns :: "32 word"

datatype migration = Migrated | NoChange | MigrationFailed error

record outside =
  ou_env :: "string \<Rightarrow> string"
  ou_load :: "string \<Rightarrow> string \<Rightarrow> error + nat \<times> nat"
  ou_parse :: "string \<Rightarrow> error option"
  ou_create :: "pool_config \<Rightarrow> error option"
  ou_ping :: "error option"
  ou_redisPing :: "error option"
  ou_dial :: "string \<Rightarrow> error option"
  ou_chainID :: "error + int"
  ou_migrator :: "string \<Rightarrow> string \<Rightarrow> error option"
  ou_migrate :: "int option \<Rightarrow> migration"
  ou_listen :: "string \<Rightarrow> error option"
  ou_serve :: "error option"
  ou_addresses :: "error + (error + string \<times> string) list"

subsection \<open>PostgreSQL (db/postgres/connection.go)\<close>

definition NewPool :: "outside \<Rightarrow> PostgresConfig \<Rightarrow> (error + pool_config) proc" where
  "NewPool ou cfg =
     (case ou_parse ou (DSN cfg) of
        Some e \<Rightarrow> State_Monad.return (Inl (WrapBefore ''parse postgres config: '' e))
      | None \<Rightarrow>
          let poolCfg = \<lparr>po_DSN = DSN cfg, po_MaxConns = ucast (pg_MaxConns cfg), po_MinConns = 5\<rparr> in
          (case ou_create ou poolCfg of
             Some e \<Rightarrow> State_Monad.return (Inl (WrapBefore ''create postgres pool: '' e))
           | None \<Rightarrow> do {
               perform (Open Pool (DSN cfg));
               State_Monad.return
                 (case ou_ping ou of
                    Some e \<Rightarrow> Inl (WrapBefore ''ping postgres: '' e)
                  | None \<Rightarrow> Inr poolCfg) }))"

subsection \<open>Redis (db/redis/connection.go)\<close>

record redis_options =
  ro_Addr :: string
  ro_Password :: string
  ro_DB :: "64 word"

definition redis_NewClient :: "outside \<Rightarrow> RedisConfig \<Rightarrow> (error + redis_options) proc" where
  "redis_NewClient ou cfg = do {
     let rdb = \<lparr>ro_Addr = Addr cfg, ro_Password = rc_Password cfg, ro_DB = rc_DB cfg\<rparr>;
     perform (Open RedisConn (Addr cfg));
     State_Monad.return
       (case ou_redisPing ou of
          Some e \<Rightarrow> Inl (WrapBefore ''ping redis: '' e)
        | None \<Rightarrow> Inr rdb) }"

subsection \<open>Migrations (db/migrate/migrate.go)\<close>

text \<open>\<open>None\<close> stands for all pending migrations, \<open>Some n\<close> for \<open>Steps(n)\<close>.\<close>

definition migrate_Run :: "outside \<Rightarrow> string \<Rightarrow> string \<Rightarrow> error option proc" where
  "migrate_Run ou dsn migrationsPath =
     (case ou_migrator ou (''file://'' @ migrationsPath) dsn of
        Some e \<Rightarrow> State_Monad.return (Some (WrapBefore ''create migrator: '' e))
      | None \<Rightarrow> do {
          perform (Open Migrator dsn);
          let result = ou_migrate ou None;
          perform (Close Migrator);
          State_Monad.return
            (case result of
               MigrationFailed e \<Rightarrow> Some (WrapBefore ''run migrations: '' e)
             | _ \<Rightarrow> None) })"

definition migrate_Down :: "outside \<Rightarrow> string \<Rightarrow> string \<Rightarrow> error option proc" where
  "migrate_Down ou dsn migrationsPath =
     (case ou_migrator ou (''file://'' @ migrationsPath) dsn of
        Some e \<Rightarrow> State_Monad.return (Some (WrapBefore ''create migrator: '' e))
      | None \<Rightarrow> do {
          perform (Open Migrator dsn);
          let result = ou_migrate ou (Some (- 1));
          perform (Close Migrator);
          State_Monad.return
            (case result of
               MigrationFailed e \<Rightarrow> Some (WrapBefore ''rollback migration: '' e)
             | _ \<Rightarrow> None) })"

subsection \<open>Ethereum (blockchain/ethereum/client.go)\<close>

record eth_client =
  ec_rpcURL :: string
  ec_chainID :: int

definition eth_NewClient :: "outside \<Rightarrow> string \<Rightarrow> (error + eth_client) proc" where
  "eth_NewClient ou rpcURL =
     (case ou_dial ou rpcURL of
        Some e \<Rightarrow> State_Monad.return (Inl (WrapBefore ''dial ethereum rpc: '' e))
      | None \<Rightarrow> do {
          perform (Open EthNode rpcURL);
          (case ou_chainID ou of
             Inl e \<Rightarrow> do {
               perform (Close EthNode);
               State_Monad.return (Inl (WrapBefore ''get chain id: '' e)) }
           | Inr chainID \<Rightarrow> State_Monad.return (Inr \<lparr>ec_rpcURL = rpcURL, ec_chainID = chainID\<rparr>)) })"

subsection \<open>Properties\<close>

definition opens :: "resource \<Rightarrow> action list \<Rightarrow> nat" where
  "opens r as = length (filter (\<lambda>a. \<exists>s. a = Open r s) as)"

definition closes :: "resource \<Rightarrow> action list \<Rightarrow> nat" where
  "closes r as = length (filter (\<lambda>a. a = Close r) as)"

lemma opens_simps [simp]:
  "opens r [] = 0" "opens r (a # as) = (if \<exists>s. a = Open r s then 1 else 0) + opens r as"
  "opens r (as @ bs) = opens r as + opens r bs"
  "closes r [] = 0" "closes r (a # as) = (if a = Close r then 1 else 0) + closes r as"
  "closes r (as @ bs) = closes r as + closes r bs"
  by (simp_all add: opens_def closes_def)

text \<open>What a constructor leaves open. The Ethereum client and the migrations close what they opened
  whenever they fail; a pool that cannot be pinged, and a redis client, stay open with nobody
  holding them.\<close>

theorem constructors_leave_open:
  assumes "run_state (eth_NewClient ou url) p = (r, p')" "run_state (NewPool ou pc) q = (s, q')"
    "run_state (redis_NewClient ou rc) t = (u, t')"
  shows "int (opens EthNode (pr_log p')) - int (closes EthNode (pr_log p')) =
      int (opens EthNode (pr_log p)) - int (closes EthNode (pr_log p)) + (if isl r then 0 else 1) \<and>
    opens Pool (pr_log q') = opens Pool (pr_log q) + (if isl s \<and> (\<forall>e. s \<noteq> Inl (WrapBefore ''ping postgres: '' e)) then 0 else 1) \<and>
    closes Pool (pr_log q') = closes Pool (pr_log q) \<and>
    opens RedisConn (pr_log t') = opens RedisConn (pr_log t) + 1 \<and> closes RedisConn (pr_log t') = closes RedisConn (pr_log t)"
proof (intro conjI)
  show "int (opens EthNode (pr_log p')) - int (closes EthNode (pr_log p')) =
      int (opens EthNode (pr_log p)) - int (closes EthNode (pr_log p)) + (if isl r then 0 else 1)"
    using assms(1) by (auto simp: eth_NewClient_def split: option.splits sum.splits)
  show "opens Pool (pr_log q') = opens Pool (pr_log q) + (if isl s \<and> (\<forall>e. s \<noteq> Inl (WrapBefore ''ping postgres: '' e)) then 0 else 1)"
    "closes Pool (pr_log q') = closes Pool (pr_log q)"
    using assms(2) by (auto simp: NewPool_def Let_def split: option.splits)
  show "opens RedisConn (pr_log t') = opens RedisConn (pr_log t) + 1" "closes RedisConn (pr_log t') = closes RedisConn (pr_log t)"
    using assms(3) by (auto simp: redis_NewClient_def split: option.splits)
qed

end
