(* ===== verification/Clickhouse.thy ===== *)
theory Clickhouse
  imports Connections
begin

section \<open>The ClickHouse writer (db/clickhouse/writer.go)\<close>

text \<open>
  Statements are kept with the parts of their text that matter: the table with its columns, sorting
  key, partition and time to live, and for an insertion the columns, the number of placeholders and
  the arguments. The connection is a parameter, a function on the state \<open>'s\<close> of the server; a
  \<open>float64\<close> is a value of the type \<open>'f\<close>.
\<close>

record ch_table =
  ct_name :: string
  ct_columns :: "(string \<times> string) list"
  ct_order :: "string list"
  ct_partition :: string
  ct_ttl :: "(string \<times> nat) option"

datatype 'f ch_value = ChString string | ChFloat 'f | ChTime int | ChUInt32 "32 word"

datatype 'f ch_stmt =
    CreateTable ch_table
  | InsertInto string "string list" nat "'f ch_value list"

type_synonym ('f, 's) ch_conn = "'f ch_stmt \<Rightarrow> 's \<Rightarrow> error option \<times> 's"

abbreviation money :: string where
  "money \<equiv> ''Decimal(36,18)''"

definition ch_tables :: "ch_table list" where
  "ch_tables =
     [\<lparr>ct_name = ''trades'',
       ct_columns =
         [(''trade_id'', ''String''), (''symbol'', ''String''), (''price'', money), (''quantity'', money),
          (''quote_qty'', money), (''maker_order_id'', ''String''), (''taker_order_id'', ''String''),
          (''maker_user_id'', ''String''), (''taker_user_id'', ''String''), (''maker_fee'', money),
          (''taker_fee'', money), (''taker_side'', ''String''), (''executed_at'', ''DateTime64(9)''),
          (''ingested_at'', ''DateTime DEFAULT now()'')],
       ct_order = [''symbol'', ''executed_at''], ct_partition = ''toYYYYMM(executed_at)'',
       ct_ttl = Some (''executed_at'', 90)\<rparr>,
      \<lparr>ct_name = ''klines_1m'',
       ct_columns =
         [(''symbol'', ''String''), (''open_time'', ''DateTime''), (''open'', money), (''high'', money),
          (''low'', money), (''close'', money), (''volume'', money), (''quote_vol'', money), (''trades'', ''UInt32'')],
       ct_order = [''symbol'', ''open_time''], ct_partition = ''toYYYYMM(open_time)'', ct_ttl = None\<rparr>,
      \<lparr>ct_name = ''audit_log'',
       ct_columns =
         [(''id'', ''String''), (''user_id'', ''String''), (''currency'', ''String''), (''type'', ''String''),
          (''amount'', money), (''balance_before'', money), (''balance_after'', money),
          (''reference_id'', ''String''), (''metadata'', ''String''), (''created_at'', ''DateTime64(9)''),
          (''ingested_at'', ''DateTime DEFAULT now()'')],
       ct_order = [''user_id'', ''created_at''], ct_partition = ''toYYYYMM(created_at)'',
       ct_ttl = Some (''created_at'', 365)\<rparr>]"

fun init_tables :: "('f, 's) ch_conn \<Rightarrow> ch_table list \<Rightarrow> 's \<Rightarrow> error option \<times> 's" where
  "init_tables exec [] s = (None, s)"
| "init_tables exec (ddl # ddls) s =
     (case exec (CreateTable ddl) s of
        (Some e, s') \<Rightarrow> (Some (WrapBefore ''create table: '' e), s')
      | (None, s') \<Rightarrow> init_tables exec ddls s')"

definition initTables :: "('f, 's) ch_conn \<Rightarrow> 's \<Rightarrow> error option \<times> 's" where
  "initTables exec s = init_tables exec ch_tables s"

text \<open>The writer is its connection; a failed initialisation does not close it.\<close>

definition NewWriter ::
  "error option \<Rightarrow> error option \<Rightarrow> ('f, 's) ch_conn \<Rightarrow> string \<Rightarrow> 's \<Rightarrow> ((error + ('f, 's) ch_conn) \<times> 's) proc" where
  "NewWriter open_err ping_err conn dsn s =
     (case open_err of
        Some e \<Rightarrow> State_Monad.return (Inl (WrapBefore ''clickhouse connect: '' e), s)
      | None \<Rightarrow> do {
          perform (Open ClickHouseConn dsn);
          State_Monad.return
            (case ping_err of
               Some e \<Rightarrow> (Inl (WrapBefore ''clickhouse ping: '' e), s)
             | None \<Rightarrow>
                 (case initTables conn s of
                    (Some e, s') \<Rightarrow> (Inl (WrapBefore ''init tables: '' e), s')
                  | (None, s') \<Rightarrow> (Inr conn, s'))) })"

record 'f TradeRecord =
  tr_TradeID :: string
  tr_Symbol :: string
  tr_MakerOrderID :: string
  tr_TakerOrderID :: string
  tr_MakerUserID :: string
  tr_TakerUserID :: string
  tr_TakerSide :: string
  tr_Price :: 'f
  tr_Quantity :: 'f
  tr_QuoteQty :: 'f
  tr_MakerFee :: 'f
  tr_TakerFee :: 'f
  tr_ExecutedAt :: int

record 'f KlineRecord =
  kr_Symbol :: string
  kr_OpenTime :: int
  kr_Open :: 'f
  kr_High :: 'f
  kr_Low :: 'f
  kr_Close :: 'f
  kr_Volume :: 'f
  kr_QuoteVol :: 'f
  kr_Trades :: "32 word"

record 'f AuditRecord =
  ar_ID :: string
  ar_UserID :: string
  ar_Currency :: string
  ar_Type :: string
  ar_ReferenceID :: string
  ar_Metadata :: string
  ar_Amount :: 'f
  ar_BalanceBefore :: 'f
  ar_BalanceAfter :: 'f
  ar_CreatedAt :: int

definition InsertTrade :: "('f, 's) ch_conn \<Rightarrow> 'f TradeRecord \<Rightarrow> 's \<Rightarrow> error option \<times> 's" where
  "InsertTrade exec t = exec (InsertInto ''trades''
     [''trade_id'', ''symbol'', ''price'', ''quantity'', ''quote_qty'', ''maker_order_id'', ''taker_order_id'',
      ''maker_user_id'', ''taker_user_id'', ''maker_fee'', ''taker_fee'', ''taker_side'', ''executed_at'']
     13
     [ChString (tr_TradeID t), ChString (tr_Symbol t), ChFloat (tr_Price t), ChFloat (tr_Quantity t),
      ChFloat (tr_QuoteQty t), ChString (tr_MakerOrderID t), ChString (tr_TakerOrderID t),
      ChString (tr_MakerUserID t), ChString (tr_TakerUserID t), ChFloat (tr_MakerFee t), ChFloat (tr_TakerFee t),
      ChString (tr_TakerSide t), ChTime (tr_ExecutedAt t)])"

definition InsertKline :: "('f, 's) ch_conn \<Rightarrow> 'f KlineRecord \<Rightarrow> 's \<Rightarrow> error option \<times> 's" where
  "InsertKline exec k = exec (InsertInto ''klines_1m''
     [''symbol'', ''open_time'', ''open'', ''high'', ''low'', ''close'', ''volume'', ''quote_vol'', ''trades'']
     9
     [ChString (kr_Symbol k), ChTime (kr_OpenTime k), ChFloat (kr_Open k), ChFloat (kr_High k), ChFloat (kr_Low k),
      ChFloat (kr_Close k), ChFloat (kr_Volume k), ChFloat (kr_QuoteVol k), ChUInt32 (kr_Trades k)])"

definition InsertAudit :: "('f, 's) ch_conn \<Rightarrow> 'f AuditRecord \<Rightarrow> 's \<Rightarrow> error option \<times> 's" where
  "InsertAudit exec a = exec (InsertInto ''audit_log''
     [''id'', ''user_id'', ''currency'', ''type'', ''amount'', ''balance_before'', ''balance_after'',
      ''reference_id'', ''metadata'', ''created_at'']
     10
     [ChString (ar_ID a), ChString (ar_UserID a), ChString (ar_Currency a), ChString (ar_Type a),
      ChFloat (ar_Amount a), ChFloat (ar_BalanceBefore a), ChFloat (ar_BalanceAfter a),
      ChString (ar_ReferenceID a), ChString (ar_Metadata a), ChTime (ar_CreatedAt a)])"

subsection \<open>Properties\<close>

fun fits_type :: "string \<Rightarrow> 'f ch_value \<Rightarrow> bool" where
  "fits_type ty (ChString s) = (ty = ''String'')"
| "fits_type ty (ChFloat f) = (ty = money)"
| "fits_type ty (ChTime t) = (ty = ''DateTime'' \<or> ty = ''DateTime64(9)'')"
| "fits_type ty (ChUInt32 n) = (ty = ''UInt32'')"

fun fits_tables :: "ch_table list \<Rightarrow> 'f ch_stmt \<Rightarrow> bool" where
  "fits_tables ts (CreateTable t) = (t \<in> set ts)"
| "fits_tables ts (InsertInto tbl cols n args) =
     (case find (\<lambda>t. ct_name t = tbl) ts of
        None \<Rightarrow> False
      | Some t \<Rightarrow> n = length args \<and> length cols = length args \<and> distinct cols \<and>
          list_all2 (\<lambda>c a. case map_of (ct_columns t) c of None \<Rightarrow> False | Some ty \<Rightarrow> fits_type ty a) cols args \<and>
          list_all (\<lambda>(c, ty). c \<in> set cols \<or> ty = ''DateTime DEFAULT now()'') (ct_columns t))"

text \<open>The statement that an operation sends: what a connection sees that records it.\<close>

definition sent :: "(('f, 'f ch_stmt list) ch_conn \<Rightarrow> 'f ch_stmt list \<Rightarrow> error option \<times> 'f ch_stmt list) \<Rightarrow> 'f ch_stmt list" where
  "sent f = snd (f (\<lambda>st sts. (None, sts @ [st])) [])"

text \<open>Each insertion is one statement that fits a table which \<open>initTables\<close> creates: as many columns as
  placeholders and arguments, each a column of the table with the argument's type, and every column
  left out has a default.\<close>

theorem insertions_fit_tables:
  "sent initTables = map CreateTable ch_tables \<and>
   list_all (fits_tables ch_tables) (sent (\<lambda>conn. InsertTrade conn t) @ sent (\<lambda>conn. InsertKline conn k) @ sent (\<lambda>conn. InsertAudit conn a))"
  by (simp add: sent_def initTables_def ch_tables_def InsertTrade_def InsertKline_def InsertAudit_def)

definition stores_rows ::
  "('f, 's) ch_conn \<Rightarrow> (string \<Rightarrow> 's \<Rightarrow> (string \<times> 'f ch_value) list list) \<Rightarrow> bool" where
  "stores_rows exec rows \<longleftrightarrow> (\<forall>tbl cols n args s s'. exec (InsertInto tbl cols n args) s = (None, s') \<longrightarrow>
     (\<forall>t. rows t s' = (if t = tbl then rows t s @ [zip cols args] else rows t s)))"

text \<open>A trade that was written is found under the names of its fields, on any server that stores a row
  as it was sent, and nothing else changes.\<close>

theorem written_trade_found:
  assumes "stores_rows exec rows" "InsertTrade exec t s = (None, s')"
  shows "\<exists>r. rows ''trades'' s' = rows ''trades'' s @ [r] \<and> map_of r ''trade_id'' = Some (ChString (tr_TradeID t)) \<and>
    map_of r ''maker_order_id'' = Some (ChString (tr_MakerOrderID t)) \<and>
    map_of r ''taker_order_id'' = Some (ChString (tr_TakerOrderID t)) \<and>
    map_of r ''maker_user_id'' = Some (ChString (tr_MakerUserID t)) \<and>
    map_of r ''taker_user_id'' = Some (ChString (tr_TakerUserID t)) \<and>
    map_of r ''price'' = Some (ChFloat (tr_Price t)) \<and> map_of r ''quantity'' = Some (ChFloat (tr_Quantity t)) \<and>
    map_of r ''maker_fee'' = Some (ChFloat (tr_MakerFee t)) \<and> map_of r ''taker_fee'' = Some (ChFloat (tr_TakerFee t)) \<and>
    (\<forall>tbl. tbl \<noteq> ''trades'' \<longrightarrow> rows tbl s' = rows tbl s)"
  using assms(1) [unfolded stores_rows_def, rule_format, OF assms(2) [unfolded InsertTrade_def]] by simp

lemma init_tables_all:
  "init_tables exec ts s = (None, s') \<Longrightarrow> s' = foldl (\<lambda>s t. snd (exec (CreateTable t) s)) s ts"
  by (induction ts arbitrary: s) (auto split: prod.splits option.splits)

text \<open>A writer is handed out only when every table was created, in the order of the list; when it
  is not, the connection, once opened, is left open.\<close>

theorem writer_ready:
  assumes "run_state (NewWriter open_err ping_err conn dsn s) p = ((r, s'), p')"
  shows "(\<forall>w. r = Inr w \<longrightarrow> w = conn \<and> s' = foldl (\<lambda>s t. snd (conn (CreateTable t) s)) s ch_tables) \<and>
    opens ClickHouseConn (pr_log p') = opens ClickHouseConn (pr_log p) + (if open_err = None then 1 else 0) \<and>
    closes ClickHouseConn (pr_log p') = closes ClickHouseConn (pr_log p)"
  using assms init_tables_all [of conn ch_tables s s']
  by (auto simp: NewWriter_def initTables_def split: option.splits prod.splits)

end
