(* ===== verification/Withdraw_Processor.thy ===== *)
theory Withdraw_Processor
  imports Common_Types
begin

section \<open>Sending withdrawals (blockchain/ethereum/withdraw\_processor.go)\<close>

text \<open>
  \<open>SendETH\<close> signs a transfer with the hot wallet's key and hands it to a node. Node and signer are
  parameters: the pending nonce and the gas price the node answers, what it does with a signed
  transaction on its state \<open>'s\<close>, and go-ethereum's signing, hashing and address functions. A signed
  transaction is its bytes, a key a number.
\<close>

record eth_tx =
  et_nonce :: nat
  et_to :: string
  et_amount :: int
  et_gasLimit :: nat
  et_gasPrice :: nat
  et_data :: string

record 's eth_library =
  el_nonce :: "string \<Rightarrow> 's \<Rightarrow> error + nat"
  el_gasPrice :: "'s \<Rightarrow> error + nat"
  el_send :: "string \<Rightarrow> 's \<Rightarrow> error option \<times> 's"
  el_sign :: "eth_tx \<Rightarrow> int \<Rightarrow> nat \<Rightarrow> error + string"
  el_hash :: "string \<Rightarrow> string"
  el_address :: "nat \<Rightarrow> string"
  el_HexToAddress :: "string \<Rightarrow> string"

record WithdrawalProcessor =
  wp_chainID :: int
  wp_gasLimit :: nat

definition NewWithdrawalProcessor :: "int \<Rightarrow> WithdrawalProcessor" where
  "NewWithdrawalProcessor chainID = \<lparr>wp_chainID = chainID, wp_gasLimit = 21000\<rparr>"

definition SendETH ::
  "'s eth_library \<Rightarrow> WithdrawalProcessor \<Rightarrow> nat \<Rightarrow> string \<Rightarrow> int \<Rightarrow> 's \<Rightarrow> (error + string) \<times> 's" where
  "SendETH lib p privateKey toAddress amountWei s =
     (let fromAddr = el_address lib privateKey in
      case el_nonce lib fromAddr s of
        Inl e \<Rightarrow> (Inl (WrapBefore ''get nonce: '' e), s)
      | Inr nonce \<Rightarrow>
          (case el_gasPrice lib s of
             Inl e \<Rightarrow> (Inl (WrapBefore ''get gas price: '' e), s)
           | Inr gasPrice \<Rightarrow>
               (let tx = \<lparr>et_nonce = nonce, et_to = el_HexToAddress lib toAddress, et_amount = amountWei,
                    et_gasLimit = wp_gasLimit p, et_gasPrice = gasPrice, et_data = ''''\<rparr> in
                case el_sign lib tx (wp_chainID p) privateKey of
                  Inl e \<Rightarrow> (Inl (WrapBefore ''sign tx: '' e), s)
                | Inr signedTx \<Rightarrow>
                    (case el_send lib signedTx s of
                       (Some e, s') \<Rightarrow> (Inl (WrapBefore ''send tx: '' e), s')
                     | (None, s') \<Rightarrow> (Inr (el_hash lib signedTx), s')))))"

subsection \<open>Properties\<close>

text \<open>A node keeps what it accepts, and counts it in the nonce of its sender.\<close>

definition accepts_only ::
  "'s eth_library \<Rightarrow> ('s \<Rightarrow> string list) \<Rightarrow> bool" where
  "accepts_only lib mempool \<longleftrightarrow> (\<forall>tx s r s'. el_send lib tx s = (r, s') \<longrightarrow>
     mempool s' = (if r = None then mempool s @ [tx] else mempool s))"

text \<open>A hash is returned exactly when one transaction was accepted, and that is the transfer of the
  requested amount to the requested address for 21000 gas on the configured chain, signed with the
  hot wallet's key; an error means that nothing was accepted.\<close>

theorem send_eth_exactly_once:
  assumes law: "accepts_only lib mempool" and run: "SendETH lib (NewWithdrawalProcessor chain) key to amount s = (r, s')"
  shows "case r of
      Inl e \<Rightarrow> mempool s' = mempool s
    | Inr h \<Rightarrow> \<exists>tx signedTx. mempool s' = mempool s @ [signedTx] \<and> h = el_hash lib signedTx \<and>
        el_sign lib tx chain key = Inr signedTx \<and> el_nonce lib (el_address lib key) s = Inr (et_nonce tx) \<and>
        et_to tx = el_HexToAddress lib to \<and> et_amount tx = amount \<and> et_gasLimit tx = 21000"
proof -
  have a: "el_send lib tx s = (r, s') \<Longrightarrow> mempool s' = (if r = None then mempool s @ [tx] else mempool s)" for tx r s'
    using law by (simp add: accepts_only_def)
  show ?thesis
    using run a by (auto simp: SendETH_def NewWithdrawalProcessor_def Let_def split: sum.splits prod.splits option.splits)
qed

end
