(* ===== verification/Processes.thy ===== *)
theory Processes
  imports Connections Gateway Chain_Scanner "HOL-Library.Sublist"
begin

section \<open>The processes (cmd)\<close>

text \<open>
  The \<open>main\<close> functions as programs over the actions of theory \<open>Connections\<close>. Each runs until
  the answers of the outside make it stop, or until the signal that ends its context: what it does
  afterwards is part of the model. A server that fails before the signal (\<open>ou_serve\<close>) ends the
  process from its goroutine. The services a process builds are values of the theories that model
  them.
\<close>

definition open_redis :: "Config \<Rightarrow> unit proc" where
  "open_redis cfg = perform (Open RedisConn (Addr (cf_Redis cfg)))"

fun bus_name :: "bus_choice \<Rightarrow> string" where
  "bus_name (KafkaBus brokers grp) = ''kafka''"
| "bus_name RedisBus = ''redis''"

definition open_bus :: "bus_choice \<Rightarrow> unit proc" where
  "open_bus b = perform (Open Bus (bus_name b))"

text \<open>\<open>Subscribe\<close> of both buses starts a consumer and returns nil.\<close>

definition bus_Subscribe :: "bus_choice \<Rightarrow> string \<Rightarrow> string \<Rightarrow> error option proc" where
  "bus_Subscribe b topic grp = do { perform (Consume b topic grp); State_Monad.return None }"

definition port_addr :: "64 word \<Rightarrow> string" where
  "port_addr port = '':'' @ show_int (sint port)"

subsection \<open>Matching engine (cmd/matching-engine)\<close>

fun add_symbols :: "Symbol list \<Rightarrow> Engine \<Rightarrow> error + Engine" where
  "add_symbols [] engine = Inr engine"
| "add_symbols (sym1 # syms) engine =
     (case AddSymbol sym1 engine of
        (Some e, _) \<Rightarrow> Inl e
      | (None, engine') \<Rightarrow> add_symbols syms engine')"

definition engine_Start :: "Engine \<Rightarrow> error option" where
  "engine_Start engine = None"

definition matching_main :: "outside \<Rightarrow> Engine option proc" where
  "matching_main ou = do {
     let cfg = Load (ou_env ou);
     open_redis cfg;
     open_bus (createEventBus cfg ''matching-engine'');
     defers (Close Bus);
     (case add_symbols [''ETH-USDT''] (NewEngine True) of
        Inl e \<Rightarrow> do { fatal ''failed to add symbol''; State_Monad.return None }
      | Inr engine \<Rightarrow>
          (case engine_Start engine of
             Some e \<Rightarrow> do { fatal ''failed to start matching engine''; State_Monad.return None }
           | None \<Rightarrow> do {
               let stopped = StopEngine engine;
               perform (Close Bus);
               os_Exit 0;
               State_Monad.return (Some stopped) })) }"

subsection \<open>Settlement (cmd/settlement-service)\<close>

definition settlement_main :: "outside \<Rightarrow> unit proc" where
  "settlement_main ou = do {
     let cfg = Load (ou_env ou);
     r \<leftarrow> NewPool ou (cf_Postgres cfg);
     (case r of
        Inl e \<Rightarrow> fatal ''failed to connect to postgres''
      | Inr pool \<Rightarrow> do {
          defers (Close Pool);
          open_redis cfg;
          let eventBus = createEventBus cfg ''settlement-service'';
          open_bus eventBus;
          defers (Close Bus);
          err \<leftarrow> bus_Subscribe eventBus ''trade.executed'' ''settlement'';
          (case err of
             Some e \<Rightarrow> fatal ''failed to start settlement service''
           | None \<Rightarrow> do {
               perform (Close Bus);
               os_Exit 0 }) }) }"

subsection \<open>Services behind gRPC (cmd/user-service, cmd/wallet-service)\<close>

text \<open>The part from the listener to the end, which both share.\<close>

definition serve_grpc :: "outside \<Rightarrow> Config \<Rightarrow> string \<Rightarrow> unit proc" where
  "serve_grpc ou cfg name = do {
     let addr = port_addr (sv_GRPCPort (cf_Server cfg));
     (case ou_listen ou addr of
        Some e \<Rightarrow> fatal ''failed to listen''
      | None \<Rightarrow> do {
          perform (Listen addr);
          perform (Serve name addr);
          (case ou_serve ou of
             Some e \<Rightarrow> fatal ''gRPC server failed''
           | None \<Rightarrow> do {
               perform StopServer;
               perform (Close Bus);
               main_returns }) }) }"

definition default_keys :: "(string \<Rightarrow> string) \<Rightarrow> bool" where
  "default_keys env \<longleftrightarrow> env ''JWT_PRIVATE_KEY_PATH'' = '''' \<and> env ''JWT_ACCESS_SECRET'' = ''''"

definition user_main :: "outside \<Rightarrow> user_service option proc" where
  "user_main ou = do {
     let cfg = Load (ou_env ou);
     r \<leftarrow> NewPool ou (cf_Postgres cfg);
     (case r of
        Inl e \<Rightarrow> do { fatal ''failed to connect to postgres''; State_Monad.return None }
      | Inr pool \<Rightarrow> do {
          defers (Close Pool);
          open_redis cfg;
          open_bus (createEventBus cfg ''user-service'');
          defers (Close Bus);
          (case loadAuthService (ou_load ou) (ou_env ou) cfg of
             Inl msg \<Rightarrow> do { fatal msg; State_Monad.return None }
           | Inr authSvc \<Rightarrow> do {
               (if default_keys (ou_env ou) then warn ''using dev JWT secrets'' else State_Monad.return ());
               let userSvc = user_NewService authSvc (cf_Env cfg = ''production'');
               serve_grpc ou cfg ''UserService'';
               State_Monad.return (Some userSvc) }) }) }"

text \<open>The master seed of the wallet, in the wallet service and in the gateway.\<close>

definition wallet_seed :: "outside \<Rightarrow> crypto \<Rightarrow> Config \<Rightarrow> wallet_service \<Rightarrow> wallet_service option proc" where
  "wallet_seed ou cr cfg walletSvc =
     (let seedHex = ou_env ou ''WALLET_MASTER_SEED_HEX'' in
      if seedHex \<noteq> '''' then
        (case LoadMasterSeed cr seedHex walletSvc of
           (Some e, _) \<Rightarrow> do { fatal ''failed to load wallet master seed''; State_Monad.return None }
         | (None, walletSvc') \<Rightarrow> State_Monad.return (Some walletSvc'))
      else if cf_Env cfg = ''production'' then do {
        fatal ''WALLET_MASTER_SEED_HEX must be set in production''; State_Monad.return None }
      else do {
        warn ''WALLET_MASTER_SEED_HEX not set, using random keys (dev only)'';
        State_Monad.return (Some walletSvc) })"

definition wallet_main :: "outside \<Rightarrow> crypto \<Rightarrow> wallet_service option proc" where
  "wallet_main ou cr = do {
     let cfg = Load (ou_env ou);
     r \<leftarrow> NewPool ou (cf_Postgres cfg);
     (case r of
        Inl e \<Rightarrow> do { fatal ''failed to connect to postgres''; State_Monad.return None }
      | Inr pool \<Rightarrow> do {
          defers (Close Pool);
          open_redis cfg;
          let eventBus = createEventBus cfg ''wallet-service'';
          open_bus eventBus;
          defers (Close Bus);
          seeded \<leftarrow> wallet_seed ou cr cfg (wallet_NewService True);
          (case seeded of
             None \<Rightarrow> State_Monad.return None
           | Some walletSvc \<Rightarrow> do {
               _ \<leftarrow> bus_Subscribe eventBus ''deposit.detected'' ''wallet'';
               serve_grpc ou cfg ''WalletService'';
               State_Monad.return (Some walletSvc) }) }) }"

subsection \<open>API gateway (cmd/api-gateway)\<close>

record api =
  ap_gateway :: gateway
  ap_engine :: Engine
  ap_bus :: "redis MemoryEventBus option"
  ap_wallet :: "wallet_service option"
  ap_health :: "string list"
  ap_addr :: string
  ap_readTimeout :: int
  ap_writeTimeout :: int
  ap_rates :: "nat \<times> nat"
  ap_cleanup :: "int \<times> int"

text \<open>
  What the gateway is when it starts to listen, \<open>None\<close> when it does not get there. A missing
  database is not fatal. \<open>tid\<close> is the identifier that the market data service gives a trade. The
  rate limiter is given by its two rates and by the interval and life time of its clean-up, in
  nanoseconds like the time-outs of the server.
\<close>

definition gateway_boot :: "outside \<Rightarrow> crypto \<Rightarrow> string \<Rightarrow> api option proc" where
  "gateway_boot ou cr tid = do {
     let cfg = Load (ou_env ou);
     perform (Open Bus ''memory'');
     let eventBus = NewMemoryEventBus;
     r \<leftarrow> NewPool ou (cf_Postgres cfg);
     let pool = \<not> isl r;
     (if pool then defers (Close Pool)
      else warn ''postgres not available, running without persistence'');
     open_redis cfg;
     let engine = snd (AddSymbol ''ETH-USDT'' (NewEngine True));
     (case gateway_authService (ou_load ou) (ou_env ou) cfg of
        Inl msg \<Rightarrow> do { fatal msg; State_Monad.return None }
      | Inr authSvc \<Rightarrow> do {
          (if default_keys (ou_env ou) then warn ''using default JWT secrets - not for production use''
           else State_Monad.return ());
          let orderSvc = gateway_orderService pool;
          let (err, bus) = market_Start tid (Some eventBus);
          (case err of
             Some e \<Rightarrow> perform (LogLine ''error'' ''failed to start market data subscription'')
           | None \<Rightarrow> State_Monad.return ());
          seeded \<leftarrow> (if pool then wallet_seed ou cr cfg (wallet_NewService True)
                    else State_Monad.return None);
          (if pool \<and> seeded = None then State_Monad.return None
           else State_Monad.return (Some
             \<lparr>ap_gateway = \<lparr>gw_auth = authSvc, gw_orders = orderSvc, gw_hasWallet = pool\<rparr>,
              ap_engine = engine, ap_bus = bus, ap_wallet = seeded,
              ap_health = (if pool then [''postgres'', ''redis''] else []),
              ap_addr = port_addr (sv_HTTPPort (cf_Server cfg)),
              ap_readTimeout = sv_ReadTimeout (cf_Server cfg), ap_writeTimeout = sv_ReadTimeout (cf_Server cfg),
              ap_rates = (100, 50), ap_cleanup = (60 * 1000000000, 300 * 1000000000)\<rparr>)) }) }"

definition gateway_main :: "outside \<Rightarrow> crypto \<Rightarrow> string \<Rightarrow> Engine option proc" where
  "gateway_main ou cr tid = do {
     started \<leftarrow> gateway_boot ou cr tid;
     (case started of
        None \<Rightarrow> State_Monad.return None
      | Some g \<Rightarrow> do {
          perform (Serve ''http'' (ap_addr g));
          (case ou_serve ou of
             Some e \<Rightarrow> do { fatal ''server failed''; State_Monad.return (Some (ap_engine g)) }
           | None \<Rightarrow> do {
               perform StopServer;
               let stopped = StopEngine (ap_engine g);
               perform (Close Bus);
               os_Exit 0;
               State_Monad.return (Some stopped) }) }) }"

subsection \<open>Blockchain monitor (cmd/blockchain-monitor)\<close>

text \<open>A run-time panic unwinds \<open>main\<close>, deferred calls included.\<close>

definition panics :: "unit proc" where
  "panics = State_Monad.update
     (\<lambda>p. p\<lparr>pr_log := pr_log p @ pr_deferred p, pr_deferred := [], pr_exit := Some 2\<rparr>)"

lemma run_panics [simp]:
  "run_state panics p = ((), p\<lparr>pr_log := pr_log p @ pr_deferred p, pr_deferred := [], pr_exit := Some 2\<rparr>)"
  by (simp add: panics_def State_Monad.update_def)

text \<open>The addresses in the table when the process starts, as \<open>Next\<close> and \<open>Scan\<close> deliver them; a row that
  does not scan is skipped.\<close>

fun watch_rows :: "(error + string \<times> string) list \<Rightarrow> Scanner \<Rightarrow> Scanner" where
  "watch_rows [] s = s"
| "watch_rows (Inl e # rows) s = watch_rows rows s"
| "watch_rows (Inr (uid, address) # rows) s = watch_rows rows (WatchAddress address uid s)"

text \<open>The loop: the node and the answers of \<open>Publish\<close> in every tick until the signal. It returns the
  events that went out.\<close>

fun publish_deposits :: "(json_object \<Rightarrow> error option) \<Rightarrow> scanned_deposit list \<Rightarrow> json_object list proc" where
  "publish_deposits pub [] = State_Monad.return []"
| "publish_deposits pub (d # ds) = do {
     let evt = deposit_payload d;
     (case pub evt of
        Some e \<Rightarrow> do { warn ''failed to publish deposit event''; publish_deposits pub ds }
      | None \<Rightarrow> do { evs \<leftarrow> publish_deposits pub ds; State_Monad.return (evt # evs) }) }"

fun monitor_loop ::
  "(string \<Rightarrow> string) \<Rightarrow> (node \<times> (json_object \<Rightarrow> error option)) list \<Rightarrow> Scanner \<Rightarrow> json_object list proc" where
  "monitor_loop hex [] s = do { main_returns; State_Monad.return [] }"
| "monitor_loop hex ((n, pub) # ticks) s =
     (case ScanNewBlocks hex n s of
        (Inl e, s') \<Rightarrow> do { warn ''block scan error''; monitor_loop hex ticks s' }
      | (Inr deposits, s') \<Rightarrow> do {
          sent \<leftarrow> publish_deposits pub deposits;
          later \<leftarrow> monitor_loop hex ticks s';
          State_Monad.return (sent @ later) })"

definition monitor_boot :: "outside \<Rightarrow> Scanner option proc" where
  "monitor_boot ou = do {
     let cfg = Load (ou_env ou);
     r \<leftarrow> NewPool ou (cf_Postgres cfg);
     (case r of
        Inl e \<Rightarrow> do { fatal ''failed to connect to postgres''; State_Monad.return None }
      | Inr pool \<Rightarrow> do {
          defers (Close Pool);
          open_redis cfg;
          (case cf_Chains cfg of
             [] \<Rightarrow> do { open_bus monitor_bus; defers (Close Bus); panics; State_Monad.return None }
           | chain # _ \<Rightarrow>
               (case cc_RPCURLs chain of
                  [] \<Rightarrow> do { panics; State_Monad.return None }
                | url # _ \<Rightarrow> do {
                    client \<leftarrow> eth_NewClient ou url;
                    (case client of
                       Inl e \<Rightarrow> do { fatal ''failed to connect to ethereum node''; State_Monad.return None }
                     | Inr ethClient \<Rightarrow> do {
                         defers (Close EthNode);
                         open_bus monitor_bus;
                         defers (Close Bus);
                         let scanner = NewScanner (unat (cc_ConfirmationDepth chain));
                         scanner' \<leftarrow> (case ou_addresses ou of
                            Inl e \<Rightarrow> State_Monad.return scanner
                          | Inr rows \<Rightarrow> do {
                              perform (Open RowSet ''deposit_addresses'');
                              defers (Close RowSet);
                              State_Monad.return (watch_rows rows scanner) });
                         perform (Open Ticker '''');
                         defers (Close Ticker);
                         State_Monad.return (Some scanner') }) })) }) }"

definition monitor_main ::
  "outside \<Rightarrow> (string \<Rightarrow> string) \<Rightarrow> (node \<times> (json_object \<Rightarrow> error option)) list \<Rightarrow> json_object list proc" where
  "monitor_main ou hex ticks = do {
     started \<leftarrow> monitor_boot ou;
     (case started of
        None \<Rightarrow> State_Monad.return []
      | Some scanner \<Rightarrow> monitor_loop hex ticks scanner) }"

subsection \<open>What a process is when it serves\<close>

lemma NewPool_cases:
  obtains (failed) e as where "run_state (NewPool ou c) p = (Inl e, p\<lparr>pr_log := pr_log p @ as\<rparr>)"
      "as = [] \<or> as = [Open Pool (DSN c)]"
    | (opened) pool where "run_state (NewPool ou c) p = (Inr pool, p\<lparr>pr_log := pr_log p @ [Open Pool (DSN c)]\<rparr>)"
      "ou_ping ou = None"
proof (cases "ou_parse ou (DSN c)")
  case None
  let ?c = "\<lparr>po_DSN = DSN c, po_MaxConns = ucast (pg_MaxConns c), po_MinConns = 5\<rparr> :: pool_config"
  show thesis
  proof (cases "ou_create ou ?c")
    case None
    then show thesis
      using failed [of _ "[Open Pool (DSN c)]"] opened [of ?c] \<open>ou_parse ou (DSN c) = None\<close>
      by (cases "ou_ping ou") (auto simp: NewPool_def)
  next
    case (Some e)
    then show thesis using failed [of _ "[]"] \<open>ou_parse ou (DSN c) = None\<close> by (auto simp: NewPool_def)
  qed
next
  case (Some e)
  then show thesis using failed [of _ "[]"] by (auto simp: NewPool_def)
qed

definition configured_auth :: "outside \<Rightarrow> AuthService \<Rightarrow> bool" where
  "configured_auth ou a \<longleftrightarrow>
     (\<exists>priv pub. ou_env ou ''JWT_PRIVATE_KEY_PATH'' \<noteq> '''' \<and> ou_env ou ''JWT_PUBLIC_KEY_PATH'' \<noteq> '''' \<and>
        ou_load ou (ou_env ou ''JWT_PRIVATE_KEY_PATH'') (ou_env ou ''JWT_PUBLIC_KEY_PATH'') = Inr (priv, pub) \<and>
        a = NewAuthService (Some priv) (Some pub)) \<or>
     (ou_env ou ''JWT_ACCESS_SECRET'' \<noteq> '''' \<and>
        a = NewAuthServiceWithSecrets (ou_env ou ''JWT_ACCESS_SECRET'') (ou_env ou ''JWT_REFRESH_SECRET''))"

lemma production_env: "env ''ENV'' = ''production'' \<Longrightarrow> cf_Env (Load env) = ''production''"
  by (simp add: Load_def envOrDefault_def)

lemma production_auth:
  assumes "cf_Env cfg = ''production''"
  shows "loadAuthService (ou_load ou) (ou_env ou) cfg = Inr a \<Longrightarrow> configured_auth ou a"
    and "gateway_authService (ou_load ou) (ou_env ou) cfg = Inr a \<Longrightarrow> configured_auth ou a"
  using assms
  by (auto simp: loadAuthService_def gateway_authService_def configured_auth_def Let_def split: if_splits sum.splits)

lemma LoadMasterSeed_master: "LoadMasterSeed cr h ws = (None, w) \<Longrightarrow> ws_master w \<noteq> None"
  by (auto simp: LoadMasterSeed_def split: sum.splits)

lemma wallet_seed_run:
  assumes "run_state (wallet_seed ou cr cfg ws) p = (r, p')"
  shows "\<exists>as. pr_log p' = pr_log p @ as \<and> (\<forall>a\<in>set as. \<exists>l m. a = LogLine l m) \<and> pr_deferred p' = pr_deferred p \<and>
    (r \<noteq> None \<longrightarrow> pr_exit p' = pr_exit p) \<and> (r = None \<longrightarrow> pr_exit p' = Some 1) \<and>
    (\<forall>w. r = Some w \<longrightarrow> cf_Env cfg = ''production'' \<longrightarrow>
      LoadMasterSeed cr (ou_env ou ''WALLET_MASTER_SEED_HEX'') ws = (None, w) \<and> ws_master w \<noteq> None)"
  using assms LoadMasterSeed_master by (auto simp: wallet_seed_def Let_def split: if_splits prod.splits option.splits)

lemma serve_grpc_run:
  assumes "run_state (serve_grpc ou cfg name) p = (u, p')"
  shows "\<exists>as. pr_log p' = pr_log p @ as \<and>
    (ou_listen ou (port_addr (sv_GRPCPort (cf_Server cfg))) = None \<and> ou_serve ou = None \<longrightarrow>
      as = [Listen (port_addr (sv_GRPCPort (cf_Server cfg))), Serve name (port_addr (sv_GRPCPort (cf_Server cfg))),
        StopServer, Close Bus] @ pr_deferred p \<and> pr_exit p' = Some 0) \<and>
    (\<not> (ou_listen ou (port_addr (sv_GRPCPort (cf_Server cfg))) = None \<and> ou_serve ou = None) \<longrightarrow>
      (\<forall>r. Close r \<notin> set as) \<and> pr_exit p' = Some 1)"
  using assms by (auto simp: serve_grpc_def Let_def split: option.splits)

lemma user_serves:
  assumes "run_state (user_main ou) new_process = (u, p)" "Serve n a \<in> set (pr_log p)"
  shows "ou_ping ou = None \<and> (\<exists>us. u = Some us \<and>
    loadAuthService (ou_load ou) (ou_env ou) (Load (ou_env ou)) = Inr (usv_auth us) \<and>
    usv_productionMode us = (cf_Env (Load (ou_env ou)) = ''production''))"
proof (cases rule: NewPool_cases [of ou "cf_Postgres (Load (ou_env ou))" new_process])
  case (failed e as)
  then show ?thesis using assms by (auto simp: user_main_def new_process_def Let_def)
next
  case (opened pool)
  then show ?thesis
    using assms
    by (auto simp: user_main_def new_process_def Let_def user_NewService_def open_redis_def open_bus_def
        split: sum.splits prod.splits if_splits)
qed

lemma wallet_main_run:
  assumes "run_state (NewPool ou (cf_Postgres (Load (ou_env ou)))) new_process = (Inr pool, p)" "pr_deferred p = []"
    "\<And>a. a \<in> set (pr_log p) \<Longrightarrow> \<exists>s. a = Open Pool s"
  shows "\<exists>q r q'. (\<forall>a\<in>set (pr_log q). \<exists>r s. a = Open r s) \<and> pr_deferred q = [Close Bus, Close Pool] \<and>
    run_state (wallet_seed ou cr (Load (ou_env ou)) (wallet_NewService True)) q = (r, q') \<and>
    run_state (wallet_main ou cr) new_process =
      (case r of None \<Rightarrow> (None, q')
       | Some ws \<Rightarrow> (Some ws, snd (run_state (serve_grpc ou (Load (ou_env ou)) ''WalletService'')
           (q'\<lparr>pr_log := pr_log q' @ [Consume (createEventBus (Load (ou_env ou)) ''wallet-service'')
              ''deposit.detected'' ''wallet'']\<rparr>))))"
proof -
  let ?cfg = "Load (ou_env ou)"
  let ?q = "p\<lparr>pr_log := pr_log p @ [Open RedisConn (Addr (cf_Redis ?cfg)),
      Open Bus (bus_name (createEventBus ?cfg ''wallet-service''))], pr_deferred := [Close Bus, Close Pool]\<rparr>"
  obtain r q' where s: "run_state (wallet_seed ou cr ?cfg (wallet_NewService True)) ?q = (r, q')" by fastforce
  then have "run_state (wallet_main ou cr) new_process =
      (case r of None \<Rightarrow> (None, q')
       | Some ws \<Rightarrow> (Some ws, snd (run_state (serve_grpc ou ?cfg ''WalletService'')
           (q'\<lparr>pr_log := pr_log q' @ [Consume (createEventBus ?cfg ''wallet-service'') ''deposit.detected'' ''wallet'']\<rparr>))))"
    using assms(1,2)
    by (simp add: wallet_main_def Let_def open_redis_def open_bus_def bus_Subscribe_def split: option.split prod.split)
  moreover have "\<forall>a\<in>set (pr_log ?q). \<exists>r s. a = Open r s" by (auto dest!: assms(3))
  moreover have "pr_deferred ?q = [Close Bus, Close Pool]" by simp
  ultimately show ?thesis using s by blast
qed

lemma wallet_serves:
  assumes "run_state (wallet_main ou cr) new_process = (w, p)" "Serve n a \<in> set (pr_log p)"
  shows "ou_ping ou = None \<and> (\<exists>ws q q'. w = Some ws \<and>
    run_state (wallet_seed ou cr (Load (ou_env ou)) (wallet_NewService True)) q = (Some ws, q'))"
proof (cases rule: NewPool_cases [of ou "cf_Postgres (Load (ou_env ou))" new_process])
  case (failed e as)
  then show ?thesis using assms by (auto simp: wallet_main_def new_process_def Let_def)
next
  case (opened pool)
  obtain q r q' where q: "\<forall>a\<in>set (pr_log q). \<exists>r s. a = Open r s"
    "run_state (wallet_seed ou cr (Load (ou_env ou)) (wallet_NewService True)) q = (r, q')"
    "run_state (wallet_main ou cr) new_process = (case r of None \<Rightarrow> (None, q')
       | Some ws \<Rightarrow> (Some ws, snd (run_state (serve_grpc ou (Load (ou_env ou)) ''WalletService'')
           (q'\<lparr>pr_log := pr_log q' @ [Consume (createEventBus (Load (ou_env ou)) ''wallet-service'')
              ''deposit.detected'' ''wallet'']\<rparr>))))"
    using wallet_main_run [OF opened(1), of cr] by (auto simp: new_process_def)
  show ?thesis
  proof (cases r)
    case None
    with q(3) assms(1) have "pr_log p = pr_log q'" by simp
    with wallet_seed_run [OF q(2)] q(1) assms(2) show ?thesis by auto
  next
    case (Some ws)
    with q assms(1) opened(2) show ?thesis by auto
  qed
qed

lemma gateway_boots:
  assumes "run_state (gateway_boot ou cr tid) new_process = (Some g, p)"
  shows "gateway_authService (ou_load ou) (ou_env ou) (Load (ou_env ou)) = Inr (gw_auth (ap_gateway g)) \<and>
    gw_orders (ap_gateway g) = gateway_orderService (gw_hasWallet (ap_gateway g)) \<and>
    ap_engine g = snd (AddSymbol ''ETH-USDT'' (NewEngine True)) \<and>
    ap_bus g = snd (market_Start tid (Some NewMemoryEventBus)) \<and>
    (gw_hasWallet (ap_gateway g) \<longrightarrow> (\<exists>ws q q'. ap_wallet g = Some ws \<and>
      run_state (wallet_seed ou cr (Load (ou_env ou)) (wallet_NewService True)) q = (Some ws, q'))) \<and>
    (\<forall>b t g. Consume b t g \<notin> set (pr_log p)) \<and> pr_exit p = None"
proof -
  let ?cfg = "Load (ou_env ou)"
  obtain r q where r: "run_state (NewPool ou (cf_Postgres ?cfg)) (new_process\<lparr>pr_log := [Open Bus ''memory'']\<rparr>) = (r, q)"
    "\<forall>b t g. Consume b t g \<notin> set (pr_log q)" "pr_exit q = None"
  proof (cases rule: NewPool_cases [of ou "cf_Postgres ?cfg" "new_process\<lparr>pr_log := [Open Bus ''memory'']\<rparr>"])
    case (failed e as)
    then show thesis by (intro that [of "Inl e" "new_process\<lparr>pr_log := [Open Bus ''memory''] @ as\<rparr>"]) (auto simp: new_process_def)
  next
    case (opened pool)
    then show thesis by (intro that [of "Inr pool"]) (auto simp: new_process_def)
  qed
  obtain b where b: "market_Start tid (Some NewMemoryEventBus) = (None, Some b)"
    by (simp add: market_Start_def Subscribe_def)
  show ?thesis
  proof (cases r)
    case (Inl e)
    then show ?thesis
      using assms r b
      by (auto simp: gateway_boot_def new_process_def Let_def open_redis_def split: sum.splits if_splits)
  next
    case (Inr pool)
    show ?thesis
    proof (cases "gateway_authService (ou_load ou) (ou_env ou) ?cfg")
      case (Inr a)
      let ?q = "q\<lparr>pr_deferred := Close Pool # pr_deferred q, pr_log := (pr_log q @ [Open RedisConn (Addr (cf_Redis ?cfg))]) @
          (if default_keys (ou_env ou) then [LogLine ''warn'' ''using default JWT secrets - not for production use''] else [])\<rparr>"
      obtain w q' where s: "run_state (wallet_seed ou cr ?cfg (wallet_NewService True)) ?q = (w, q')" by fastforce
      have run: "run_state (gateway_boot ou cr tid) new_process =
          (if w = None then (None, q') else (Some \<lparr>ap_gateway = \<lparr>gw_auth = a, gw_orders = gateway_orderService True,
            gw_hasWallet = True\<rparr>, ap_engine = snd (AddSymbol ''ETH-USDT'' (NewEngine True)), ap_bus = Some b,
            ap_wallet = w, ap_health = [''postgres'', ''redis''], ap_addr = port_addr (sv_HTTPPort (cf_Server ?cfg)),
            ap_readTimeout = sv_ReadTimeout (cf_Server ?cfg), ap_writeTimeout = sv_ReadTimeout (cf_Server ?cfg),
            ap_rates = (100, 50), ap_cleanup = (60 * 1000000000, 300 * 1000000000)\<rparr>, q'))"
        using r(1) \<open>r = Inr pool\<close> Inr b s
        by (simp add: gateway_boot_def new_process_def Let_def open_redis_def split: if_splits)
      show ?thesis
      proof (cases w)
        case None
        with run assms show ?thesis by simp
      next
        case (Some ws)
        obtain as where as: "pr_log q' = pr_log ?q @ as" "\<forall>a\<in>set as. \<exists>l m. a = LogLine l m" "pr_exit q' = pr_exit ?q"
          using wallet_seed_run [OF s] Some by blast
        have "\<forall>b t g. Consume b t g \<notin> set (pr_log q')" unfolding as(1) using as(2) r(2) by auto
        moreover have "pr_exit q' = None" using as(3) r(3) by simp
        moreover have "p = q'" "g = \<lparr>ap_gateway = \<lparr>gw_auth = a, gw_orders = gateway_orderService True,
            gw_hasWallet = True\<rparr>, ap_engine = snd (AddSymbol ''ETH-USDT'' (NewEngine True)), ap_bus = Some b,
            ap_wallet = Some ws, ap_health = [''postgres'', ''redis''], ap_addr = port_addr (sv_HTTPPort (cf_Server ?cfg)),
            ap_readTimeout = sv_ReadTimeout (cf_Server ?cfg), ap_writeTimeout = sv_ReadTimeout (cf_Server ?cfg),
            ap_rates = (100, 50), ap_cleanup = (60 * 1000000000, 300 * 1000000000)\<rparr>"
          using run assms Some by simp_all
        ultimately show ?thesis using Inr b s Some by (simp; blast)
      qed
    next
      case (Inl msg)
      then show ?thesis using assms r(1) \<open>r = Inr pool\<close> by (auto simp: gateway_boot_def new_process_def Let_def open_redis_def)
    qed
  qed
qed

text \<open>C35. In production no server comes up with a secret of the source or with wallet keys that are not
  derived from the configured seed: when the user service or the wallet service serves, its database
  answered, tokens are signed with the configured keys and addresses derive from the configured seed;
  and the gateway starts to listen only with the configured token keys and, when it has a database,
  the configured seed.\<close>

theorem production_start_checked:
  assumes env: "ou_env ou ''ENV'' = ''production''"
    and runs: "run_state (user_main ou) new_process = (u, p)" "run_state (wallet_main ou cr) new_process = (w, q)"
      "run_state (gateway_boot ou cr tid) new_process = (g, r)"
  shows "(\<forall>n a. Serve n a \<in> set (pr_log p) \<longrightarrow> ou_ping ou = None \<and>
      (\<exists>us. u = Some us \<and> configured_auth ou (usv_auth us) \<and> usv_productionMode us)) \<and>
    (\<forall>n a. Serve n a \<in> set (pr_log q) \<longrightarrow> ou_ping ou = None \<and>
      (\<exists>ws. w = Some ws \<and> ws_master ws \<noteq> None \<and>
        LoadMasterSeed cr (ou_env ou ''WALLET_MASTER_SEED_HEX'') (wallet_NewService True) = (None, ws))) \<and>
    (\<forall>api. g = Some api \<longrightarrow> configured_auth ou (gw_auth (ap_gateway api)) \<and>
      (gw_hasWallet (ap_gateway api) \<longrightarrow> (\<exists>ws. ap_wallet api = Some ws \<and> ws_master ws \<noteq> None \<and>
        LoadMasterSeed cr (ou_env ou ''WALLET_MASTER_SEED_HEX'') (wallet_NewService True) = (None, ws))))"
proof -
  have prod: "cf_Env (Load (ou_env ou)) = ''production''" by (rule production_env) (rule env)
  have seed: "ws_master ws \<noteq> None \<and>
      LoadMasterSeed cr (ou_env ou ''WALLET_MASTER_SEED_HEX'') (wallet_NewService True) = (None, ws)"
    if "run_state (wallet_seed ou cr (Load (ou_env ou)) (wallet_NewService True)) x = (Some ws, x')" for ws x x'
    using wallet_seed_run [OF that] prod by auto
  show ?thesis
  proof (intro conjI allI impI)
    fix n a
    assume s: "Serve n a \<in> set (pr_log p)"
    show "ou_ping ou = None" "\<exists>us. u = Some us \<and> configured_auth ou (usv_auth us) \<and> usv_productionMode us"
      using user_serves [OF runs(1) s] production_auth(1) [OF prod] prod by blast+
  next
    fix n a
    assume s: "Serve n a \<in> set (pr_log q)"
    show "ou_ping ou = None" "\<exists>ws. w = Some ws \<and> ws_master ws \<noteq> None \<and>
        LoadMasterSeed cr (ou_env ou ''WALLET_MASTER_SEED_HEX'') (wallet_NewService True) = (None, ws)"
      using wallet_serves [OF runs(2) s] seed by blast+
  next
    fix api
    assume "g = Some api"
    note b = gateway_boots [OF runs(3) [unfolded this]]
    show "configured_auth ou (gw_auth (ap_gateway api))" using b production_auth(2) [OF prod] by blast
    show "\<exists>ws. ap_wallet api = Some ws \<and> ws_master ws \<noteq> None \<and>
        LoadMasterSeed cr (ou_env ou ''WALLET_MASTER_SEED_HEX'') (wallet_NewService True) = (None, ws)"
      if "gw_hasWallet (ap_gateway api)" using b that seed by blast
  qed
qed

subsection \<open>Where trades go\<close>

definition takes_in :: "action \<Rightarrow> bool" where
  "takes_in a \<longleftrightarrow> (\<exists>b t g. a = Consume b t g) \<or> (\<exists>s. a = Listen s) \<or> (\<exists>n s. a = Serve n s)"

lemma settlement_consumes:
  assumes "Consume b t g \<in> set (pr_log (snd (run_state (settlement_main ou) new_process)))"
  shows "t = ''trade.executed'' \<and> b = createEventBus (Load (ou_env ou)) ''settlement-service''"
  using assms
  by (cases rule: NewPool_cases [of ou "cf_Postgres (Load (ou_env ou))" new_process])
    (auto simp: settlement_main_def new_process_def Let_def open_redis_def open_bus_def bus_Subscribe_def)

lemma matching_idle:
  "\<exists>e p. run_state (matching_main ou) new_process = (Some e, p) \<and> en_log e = [] \<and> en_calls e = Map.empty \<and>
     (\<forall>a\<in>set (pr_log p). \<not> takes_in a) \<and> pr_exit p = Some 0"
  by (auto simp: matching_main_def engine_Start_def Let_def open_redis_def open_bus_def new_process_def AddSymbol_def NewEngine_def
      StopEngine_def takes_in_def)

text \<open>C36. What is traded at the gateway is not settled: its engine publishes on an in-memory bus whose one
  handler is that of the market data service, whatever the configuration says; the settlement
  service listens on Kafka or Redis; and the one other process with an engine neither serves nor
  consumes anything, so no order reaches it and it publishes nothing.\<close>

theorem gateway_trades_unsettled:
  assumes "run_state (gateway_boot ou cr tid) new_process = (Some g, p)"
  shows "(\<exists>b. ap_bus g = Some b \<and> (\<forall>topic. bus_handlers b topic =
        (if topic = ''trade.executed'' then [\<lparr>he_handler = market_handler tid, he_group = ''marketdata''\<rparr>] else []))) \<and>
    (\<forall>b t grp. Consume b t grp \<notin> set (pr_log p)) \<and>
    (\<exists>e q. run_state (matching_main ou') new_process = (Some e, q) \<and> en_log e = [] \<and> (\<forall>a\<in>set (pr_log q). \<not> takes_in a)) \<and>
    (\<forall>b t grp. Consume b t grp \<in> set (pr_log (snd (run_state (settlement_main ou'') new_process))) \<longrightarrow>
      t = ''trade.executed'' \<and> (b = RedisBus \<or> (\<exists>brokers. b = KafkaBus brokers ''settlement-service'')))"
proof (intro conjI)
  show "\<exists>b. ap_bus g = Some b \<and> (\<forall>topic. bus_handlers b topic =
      (if topic = ''trade.executed'' then [\<lparr>he_handler = market_handler tid, he_group = ''marketdata''\<rparr>] else []))"
    using gateway_boots [OF assms] by (simp add: market_Start_def Subscribe_def NewMemoryEventBus_def)
  show "\<forall>b t grp. Consume b t grp \<notin> set (pr_log p)" using gateway_boots [OF assms] by blast
  show "\<exists>e q. run_state (matching_main ou') new_process = (Some e, q) \<and> en_log e = [] \<and> (\<forall>a\<in>set (pr_log q). \<not> takes_in a)"
    using matching_idle by blast
  have "createEventBus cfg grp = RedisBus \<or> (\<exists>brokers. createEventBus cfg grp = KafkaBus brokers grp)" for cfg grp
    by (auto simp: createEventBus_def split: list.split)
  then show "\<forall>b t grp. Consume b t grp \<in> set (pr_log (snd (run_state (settlement_main ou'') new_process))) \<longrightarrow>
      t = ''trade.executed'' \<and> (b = RedisBus \<or> (\<exists>brokers. b = KafkaBus brokers ''settlement-service''))"
    using settlement_consumes by metis
qed

subsection \<open>How processes end\<close>

lemma user_ends:
  assumes "run_state (user_main ou) new_process = (u, p)"
  shows "pr_exit p = Some 0 \<and> closes Pool (pr_log p) = 1 \<and> closes Bus (pr_log p) = 2 \<or>
    pr_exit p = Some 1 \<and> (\<forall>r. Close r \<notin> set (pr_log p))"
proof (cases rule: NewPool_cases [of ou "cf_Postgres (Load (ou_env ou))" new_process])
  case (failed e as)
  then show ?thesis using assms by (auto simp: user_main_def new_process_def Let_def)
next
  case (opened pool)
  then show ?thesis
    using assms
    by (auto simp: user_main_def new_process_def Let_def open_redis_def open_bus_def serve_grpc_def
        split: sum.splits if_splits option.splits)
qed

lemma wallet_ends:
  assumes "run_state (wallet_main ou cr) new_process = (w, p)"
  shows "pr_exit p = Some 0 \<and> closes Pool (pr_log p) = 1 \<and> closes Bus (pr_log p) = 2 \<or>
    pr_exit p = Some 1 \<and> (\<forall>r. Close r \<notin> set (pr_log p))"
proof (cases rule: NewPool_cases [of ou "cf_Postgres (Load (ou_env ou))" new_process])
  case (failed e as)
  then show ?thesis using assms by (auto simp: wallet_main_def new_process_def Let_def)
next
  case (opened pool)
  obtain q r q' where q: "\<forall>a\<in>set (pr_log q). \<exists>r s. a = Open r s" "pr_deferred q = [Close Bus, Close Pool]"
    "run_state (wallet_seed ou cr (Load (ou_env ou)) (wallet_NewService True)) q = (r, q')"
    "run_state (wallet_main ou cr) new_process = (case r of None \<Rightarrow> (None, q')
       | Some ws \<Rightarrow> (Some ws, snd (run_state (serve_grpc ou (Load (ou_env ou)) ''WalletService'')
           (q'\<lparr>pr_log := pr_log q' @ [Consume (createEventBus (Load (ou_env ou)) ''wallet-service'')
              ''deposit.detected'' ''wallet'']\<rparr>))))"
    using wallet_main_run [OF opened(1), of cr] by (auto simp: new_process_def)
  obtain as where as: "pr_log q' = pr_log q @ as" "\<forall>a\<in>set as. \<exists>l m. a = LogLine l m"
    "pr_deferred q' = [Close Bus, Close Pool]" "r = None \<longrightarrow> pr_exit q' = Some 1"
    using wallet_seed_run [OF q(3)] q(2) by auto
  have no: "Close res \<notin> set (pr_log q')" for res using as q(1) by auto
  show ?thesis
  proof (cases r)
    case None
    then show ?thesis using q(4) assms no as(4) by auto
  next
    case (Some ws)
    obtain u p' where s: "run_state (serve_grpc ou (Load (ou_env ou)) ''WalletService'')
        (q'\<lparr>pr_log := pr_log q' @ [Consume (createEventBus (Load (ou_env ou)) ''wallet-service'')
            ''deposit.detected'' ''wallet'']\<rparr>) = (u, p')" by (metis surj_pair)
    have p: "p = p'" using q(4) assms Some s by simp
    have c: "closes res (pr_log q') = 0" for res using no [of res] by (auto simp: closes_def filter_empty_conv)
    show ?thesis using serve_grpc_run [OF s] as(3) no c unfolding p
      by (cases "ou_listen ou (port_addr (sv_GRPCPort (cf_Server (Load (ou_env ou))))) = None \<and> ou_serve ou = None") auto
  qed
qed

lemma settlement_ends:
  assumes "run_state (settlement_main ou) new_process = (u, p)"
  shows "pr_exit p = Some 0 \<and> opens Pool (pr_log p) = 1 \<and> closes Pool (pr_log p) = 0 \<and> closes Bus (pr_log p) = 1 \<or>
    pr_exit p = Some 1 \<and> (\<forall>r. Close r \<notin> set (pr_log p))"
proof (cases rule: NewPool_cases [of ou "cf_Postgres (Load (ou_env ou))" new_process])
  case (failed e as)
  then show ?thesis using assms by (auto simp: settlement_main_def new_process_def Let_def)
next
  case (opened pool)
  then show ?thesis
    using assms by (auto simp: settlement_main_def new_process_def Let_def open_redis_def open_bus_def bus_Subscribe_def)
qed

text \<open>Every process ends, with the code 0 after its signal and with 1 on a fatal error, and then it
  closes nothing. The user and the wallet service close their pool when they end, and their bus
  twice; the settlement service leaves through \<open>os.Exit\<close>, which skips the deferred calls, so its
  pool is never closed.\<close>

theorem processes_end:
  "(\<exists>u p. run_state (user_main ou) new_process = (u, p) \<and>
      (pr_exit p = Some 0 \<and> closes Pool (pr_log p) = 1 \<and> closes Bus (pr_log p) = 2 \<or>
       pr_exit p = Some 1 \<and> (\<forall>r. Close r \<notin> set (pr_log p)))) \<and>
   (\<exists>w p. run_state (wallet_main ou cr) new_process = (w, p) \<and>
      (pr_exit p = Some 0 \<and> closes Pool (pr_log p) = 1 \<and> closes Bus (pr_log p) = 2 \<or>
       pr_exit p = Some 1 \<and> (\<forall>r. Close r \<notin> set (pr_log p)))) \<and>
   (\<exists>u p. run_state (settlement_main ou) new_process = (u, p) \<and>
      (pr_exit p = Some 0 \<and> opens Pool (pr_log p) = 1 \<and> closes Pool (pr_log p) = 0 \<and> closes Bus (pr_log p) = 1 \<or>
       pr_exit p = Some 1 \<and> (\<forall>r. Close r \<notin> set (pr_log p))))"
proof -
  obtain u p where u: "run_state (user_main ou) new_process = (u, p)" by (metis surj_pair)
  obtain w q where w: "run_state (wallet_main ou cr) new_process = (w, q)" by (metis surj_pair)
  obtain v r where v: "run_state (settlement_main ou) new_process = (v, r)" by (metis surj_pair)
  show ?thesis using user_ends [OF u] wallet_ends [OF w] settlement_ends [OF v] u w v by simp
qed

subsection \<open>The monitor's loop\<close>

abbreviation unsent :: action where
  "unsent \<equiv> LogLine ''warn'' ''failed to publish deposit event''"

lemma publish_deposits_run:
  "\<exists>evs as. run_state (publish_deposits pub ds) p = (evs, p\<lparr>pr_log := pr_log p @ as\<rparr>) \<and>
     subseq evs (map deposit_payload ds) \<and> set as \<subseteq> {unsent} \<and> length evs + length as = length ds"
proof (induction ds arbitrary: p)
  case (Cons d ds)
  show ?case
  proof (cases "pub (deposit_payload d)")
    case None
    obtain evs as where "run_state (publish_deposits pub ds) p = (evs, p\<lparr>pr_log := pr_log p @ as\<rparr>)"
      "subseq evs (map deposit_payload ds)" "set as \<subseteq> {unsent}" "length evs + length as = length ds"
      using Cons.IH by blast
    with None show ?thesis
      by (intro exI [of _ "deposit_payload d # evs"] exI [of _ as]) (simp add: subseq_Cons2)
  next
    case (Some e)
    let ?p = "p\<lparr>pr_log := pr_log p @ [unsent]\<rparr>"
    obtain evs as where "run_state (publish_deposits pub ds) ?p = (evs, ?p\<lparr>pr_log := pr_log ?p @ as\<rparr>)"
      "subseq evs (map deposit_payload ds)" "set as \<subseteq> {unsent}" "length evs + length as = length ds"
      using Cons.IH by blast
    with Some show ?thesis
      by (intro exI [of _ evs] exI [of _ "unsent # as"]) (simp add: list_emb_Cons)
  qed
qed simp

lemma monitor_loop_run:
  assumes "run_state (monitor_loop hex ticks s) p = (evs, p')"
  shows "subseq evs (map deposit_payload (scan_all hex (map fst ticks) s)) \<and>
    (\<exists>as. pr_log p' = pr_log p @ as @ pr_deferred p \<and>
      (\<forall>a\<in>set as. a = unsent \<or> a = LogLine ''warn'' ''block scan error'') \<and>
      length evs + count_list as unsent = length (scan_all hex (map fst ticks) s)) \<and> pr_exit p' = Some 0"
  using assms
proof (induction hex ticks s arbitrary: p evs p' rule: monitor_loop.induct)
  case (2 hex n pub ticks s)
  obtain r s' where scan: "ScanNewBlocks hex n s = (r, s')" by fastforce
  show ?case
  proof (cases r)
    case (Inl e)
    let ?w = "LogLine ''warn'' ''block scan error''"
    have run: "run_state (monitor_loop hex ticks s') (p\<lparr>pr_log := pr_log p @ [?w]\<rparr>) = (evs, p')"
      using "2.prems" scan Inl by simp
    obtain as where "subseq evs (map deposit_payload (scan_all hex (map fst ticks) s'))"
      "pr_log p' = (pr_log p @ [?w]) @ as @ pr_deferred p" "\<forall>a\<in>set as. a = unsent \<or> a = ?w"
      "length evs + count_list as unsent = length (scan_all hex (map fst ticks) s')" "pr_exit p' = Some 0"
      using "2.IH"(1) [OF scan [symmetric] Inl run] by auto
    with scan Inl show ?thesis by (auto intro!: exI [of _ "?w # as"])
  next
    case (Inr ds)
    obtain sent as where pub: "run_state (publish_deposits pub ds) p = (sent, p\<lparr>pr_log := pr_log p @ as\<rparr>)"
      "subseq sent (map deposit_payload ds)" "set as \<subseteq> {unsent}" "length sent + length as = length ds"
      using publish_deposits_run by blast
    obtain later where later: "run_state (monitor_loop hex ticks s') (p\<lparr>pr_log := pr_log p @ as\<rparr>) = (later, p')"
      "evs = sent @ later"
      using "2.prems" scan Inr pub(1) by (auto split: prod.splits)
    obtain bs where bs: "subseq later (map deposit_payload (scan_all hex (map fst ticks) s'))"
      "pr_log p' = (pr_log p @ as) @ bs @ pr_deferred p" "\<forall>a\<in>set bs. a = unsent \<or> a = LogLine ''warn'' ''block scan error''"
      "length later + count_list bs unsent = length (scan_all hex (map fst ticks) s')" "pr_exit p' = Some 0"
      using "2.IH"(2) [OF scan [symmetric] Inr later(1)] by auto
    have "count_list as unsent = length as" using pub(3) by (induction as) auto
    with scan Inr pub bs later(2) show ?thesis
      by (auto intro!: exI [of _ "as @ bs"] list_emb_append_mono)
  qed
qed (auto intro: exI [of _ "[]"])

lemma ScanNewBlocks_watched:
  assumes "ScanNewBlocks hex n s = (r, s')"
  shows "sc_watchedAddrs s' = sc_watchedAddrs s \<and>
    (\<forall>ds d. r = Inr ds \<longrightarrow> d \<in> set ds \<longrightarrow> sd_ToAddress d \<in> dom (sc_watchedAddrs s))"
proof -
  have "\<exists>y. sc_watchedAddrs s (sd_ToAddress d) = Some y" if "d \<in> set (scan_block hex n s cur b)" for d cur b
  proof -
    have to: "sd_ToAddress (buildDepositEvent tx block a uid c s) = a" for tx block a uid c
      by (simp add: buildDepositEvent_def)
    show ?thesis
      using that by (auto simp: scan_block_def scan_tx_def Let_def to split: sum.split_asm if_split_asm option.split_asm)
        metis+
  qed
  with assms show ?thesis by (auto simp: ScanNewBlocks_def split: sum.splits if_splits dest: domD)
qed

lemma scan_all_watched: "d \<in> set (scan_all hex ns s) \<Longrightarrow> sd_ToAddress d \<in> dom (sc_watchedAddrs s)"
proof (induction ns arbitrary: s)
  case (Cons n ns)
  obtain r s' where scan: "ScanNewBlocks hex n s = (r, s')" by fastforce
  note w = ScanNewBlocks_watched [OF scan]
  have "sd_ToAddress d \<in> dom (sc_watchedAddrs s)" if "d \<in> set (scan_all hex ns s')"
    using Cons.IH [OF that] w by simp
  with Cons.prems scan w show ?case by (cases r) auto
qed simp

lemma watch_rows_watched:
  "dom (sc_watchedAddrs (watch_rows rows s)) = dom (sc_watchedAddrs s) \<union> {a. \<exists>uid. Inr (uid, a) \<in> set rows}"
  by (induction rows s rule: watch_rows.induct) (auto simp: WatchAddress_def split: if_splits)

lemma monitor_boot_scanner:
  assumes "run_state (monitor_boot ou) new_process = (Some s, p)"
  shows "(\<forall>a\<in>dom (sc_watchedAddrs s). \<exists>uid rows. ou_addresses ou = Inr rows \<and> Inr (uid, a) \<in> set rows) \<and>
    unsent \<notin> set (pr_log p @ pr_deferred p)"
proof (cases rule: NewPool_cases [of ou "cf_Postgres (Load (ou_env ou))" new_process])
  case (failed e as)
  then show ?thesis using assms by (auto simp: monitor_boot_def new_process_def Let_def)
next
  case (opened pool)
  have "dom (sc_watchedAddrs (NewScanner n)) = {}" for n by (simp add: NewScanner_def)
  then have w: "\<exists>uid. Inr (uid, a) \<in> set rows"
    if "sc_watchedAddrs (watch_rows rows (NewScanner n)) a = Some y" for a y n rows
    using that watch_rows_watched [of rows "NewScanner n"] by blast
  have e: "sc_watchedAddrs (NewScanner n) = Map.empty" for n by (simp add: NewScanner_def)
  then show ?thesis
    using opened assms
    by (auto simp: monitor_boot_def new_process_def Let_def open_redis_def open_bus_def eth_NewClient_def
        e split: sum.split_asm list.split_asm option.split_asm dest: w)
qed

text \<open>The monitor tries to publish every deposit it scans exactly once: what goes out are deposits in
  the order of their scan, each deposit that does not is a warning, and a failed publication is not
  tried again. Only the addresses in the table when the process started are watched: no
  deposit to an address generated later is ever reported.\<close>

theorem monitor_publishes_once:
  assumes "run_state (monitor_boot ou) new_process = (Some s, p)"
    "run_state (monitor_main ou hex ticks) new_process = (evs, q)"
  shows "subseq evs (map deposit_payload (scan_all hex (map fst ticks) s)) \<and>
    length evs + count_list (pr_log q) unsent = length (scan_all hex (map fst ticks) s) \<and> pr_exit q = Some 0 \<and>
    (\<forall>ev\<in>set evs. \<exists>d uid rows. ev = deposit_payload d \<and> ou_addresses ou = Inr rows \<and> Inr (uid, sd_ToAddress d) \<in> set rows)"
proof -
  note b = monitor_boot_scanner [OF assms(1)]
  have "run_state (monitor_loop hex ticks s) p = (evs, q)" using assms by (simp add: monitor_main_def)
  note r = monitor_loop_run [OF this]
  then obtain as where as: "pr_log q = pr_log p @ as @ pr_deferred p"
    "length evs + count_list as unsent = length (scan_all hex (map fst ticks) s)" by blast
  have "count_list (pr_log q) unsent = count_list as unsent" using as(1) b by (simp add: count_list_0_iff)
  moreover have "\<exists>d uid rows. ev = deposit_payload d \<and> ou_addresses ou = Inr rows \<and> Inr (uid, sd_ToAddress d) \<in> set rows"
    if "ev \<in> set evs" for ev
  proof -
    have "ev \<in> deposit_payload ` set (scan_all hex (map fst ticks) s)"
      using r that by (auto dest: list_emb_set)
    with scan_all_watched [of _ hex "map fst ticks" s] b show ?thesis by blast
  qed
  ultimately show ?thesis using r as(2) by simp
qed

subsection \<open>Witnesses\<close>

definition prod_env :: "string \<Rightarrow> string" where
  "prod_env k = (if k = ''ENV'' then ''production'' else if k = ''JWT_ACCESS_SECRET'' then ''s3cret''
     else if k = ''WALLET_MASTER_SEED_HEX'' then ''00'' else '''')"

definition all_well :: "(string \<Rightarrow> string) \<Rightarrow> outside" where
  "all_well env = \<lparr>ou_env = env, ou_load = (\<lambda>_ _. Inl (Errorf ''no file'')), ou_parse = (\<lambda>_. None),
     ou_create = (\<lambda>_. None), ou_ping = None, ou_redisPing = None, ou_dial = (\<lambda>_. None), ou_chainID = Inr 1,
     ou_migrator = (\<lambda>_ _. None), ou_migrate = (\<lambda>_. Migrated), ou_listen = (\<lambda>_. None), ou_serve = None,
     ou_addresses = Inr [Inr (''u1'', ''0xaa'')]\<rparr>"

lemma all_well_simps [simp]:
  "ou_env (all_well env) = env" "ou_load (all_well env) = (\<lambda>_ _. Inl (Errorf ''no file''))"
  "ou_parse (all_well env) = (\<lambda>_. None)" "ou_create (all_well env) = (\<lambda>_. None)" "ou_ping (all_well env) = None"
  "ou_dial (all_well env) = (\<lambda>_. None)" "ou_chainID (all_well env) = Inr 1" "ou_listen (all_well env) = (\<lambda>_. None)"
  "ou_serve (all_well env) = None" "ou_addresses (all_well env) = Inr [Inr (''u1'', ''0xaa'')]"
  by (simp_all add: all_well_def)

lemma prod_env_values:
  "prod_env ''ENV'' = ''production''" "prod_env ''JWT_PRIVATE_KEY_PATH'' = ''''" "prod_env ''JWT_ACCESS_SECRET'' = ''s3cret''"
  by (simp_all add: prod_env_def)

lemma production_user_runs:
  "\<exists>us p. run_state (user_main (all_well prod_env)) new_process = (Some us, p) \<and> (\<exists>n a. Serve n a \<in> set (pr_log p))"
proof -
  have "loadAuthService load prod_env cfg = Inr (NewAuthServiceWithSecrets ''s3cret'' (prod_env ''JWT_REFRESH_SECRET''))" for load cfg
    by (simp add: loadAuthService_def prod_env_values)
  then show ?thesis
    by (auto simp: user_main_def Let_def NewPool_def open_redis_def open_bus_def new_process_def serve_grpc_def
        default_keys_def prod_env_values)
qed

theorem production_start_checked_witness:
  "\<exists>us. fst (run_state (user_main (all_well prod_env)) new_process) = Some us \<and>
     configured_auth (all_well prod_env) (usv_auth us) \<and> usv_productionMode us"
proof -
  obtain us p n a where u: "run_state (user_main (all_well prod_env)) new_process = (Some us, p)" "Serve n a \<in> set (pr_log p)"
    using production_user_runs by blast
  obtain w q where w: "run_state (wallet_main (all_well prod_env) sample_crypto) new_process = (w, q)" by fastforce
  obtain g r where g: "run_state (gateway_boot (all_well prod_env) sample_crypto '''') new_process = (g, r)" by fastforce
  have "ou_env (all_well prod_env) ''ENV'' = ''production''" by (simp add: prod_env_values)
  from production_start_checked [OF this u(1) w g] u show ?thesis by auto
qed

definition no_database :: outside where
  "no_database = (all_well prod_env)\<lparr>ou_ping := Some (Errorf ''refused'')\<rparr>"

theorem gateway_trades_unsettled_witness:
  "\<exists>g b. fst (run_state (gateway_boot no_database sample_crypto ''t'') new_process) = Some g \<and> ap_bus g = Some b \<and>
     bus_handlers b ''trade.executed'' = [\<lparr>he_handler = market_handler ''t'', he_group = ''marketdata''\<rparr>]"
proof -
  have "gateway_authService load prod_env cfg = Inr (NewAuthServiceWithSecrets ''s3cret'' (prod_env ''JWT_REFRESH_SECRET''))" for load cfg
    by (simp add: gateway_authService_def prod_env_values)
  then obtain g p where g: "run_state (gateway_boot no_database sample_crypto ''t'') new_process = (Some g, p)"
    by (auto simp: gateway_boot_def Let_def NewPool_def open_redis_def new_process_def no_database_def
        default_keys_def prod_env_values market_Start_def Subscribe_def)
  from gateway_trades_unsettled [OF g, of no_database no_database] g show ?thesis by auto
qed

definition watch_tick :: "nat \<Rightarrow> error option \<Rightarrow> node \<times> (json_object \<Rightarrow> error option)" where
  "watch_tick h answer = (\<lparr>nd_BlockNumber = Inr h, nd_BlockByNumber = (\<lambda>b. Inr \<lparr>bk_Number = b, bk_Transactions =
      [\<lparr>tx_Hash = ''0x1'', tx_To = Some ''0xaa'', tx_Value = 1, tx_Sender = None\<rparr>]\<rparr>)\<rparr>, (\<lambda>_. answer))"

theorem monitor_publishes_once_witness:
  "\<exists>evs q. run_state (monitor_main (all_well (\<lambda>_. '''')) id
      [watch_tick 5 None, watch_tick 6 None, watch_tick 7 (Some (Errorf ''down''))]) new_process = (evs, q) \<and>
     length evs + count_list (pr_log q) unsent = 4 \<and> pr_exit q = Some 0"
proof -
  let ?ou = "all_well (\<lambda>_. '''')" and ?ticks = "[watch_tick 5 None, watch_tick 6 None, watch_tick 7 (Some (Errorf ''down''))]"
  obtain s p where b: "run_state (monitor_boot ?ou) new_process = (Some s, p)" "sc_lastBlock s = 0"
    "sc_watchedAddrs s ''0xaa'' = Some ''u1''"
    by (auto simp: monitor_boot_def Let_def NewPool_def open_redis_def open_bus_def new_process_def eth_NewClient_def
        Load_def envOrDefault_def WatchAddress_def NewScanner_def)
  obtain evs q where m: "run_state (monitor_main ?ou id ?ticks) new_process = (evs, q)" by fastforce
  have "length (scan_all id (map fst ?ticks) s) = 4"
    using b(2,3) by (simp add: watch_tick_def ScanNewBlocks_def scan_block_def scan_tx_def upt_rec Let_def)
  with monitor_publishes_once [OF b(1) m] m show ?thesis by simp
qed

end
