(* ===== verification/Spec2Isabelle.thy ===== *)
theory Spec2Isabelle
  imports Order_Service Wallet Cold_Wallet Risk Margin Fix_Session Gateway Kyc Grpc_Servers
    Chain_Scanner Telemetry Startup Event_Transport Exchange Matching_Loop
    Object_Pools Identifiers Clickhouse Withdraw_Processor Processes
begin

text \<open>
  A verification development for the cryptocurrency exchange in \<open>src/\<close> (Go).

  \<^bold>\<open>The program.\<close> An HTTP gateway (\<open>internal/gateway\<close>) authenticates requests and hands them to
  services. The order service (\<open>internal/order\<close>) validates an order against the market rules and the
  user's balance, freezes its cost in the accounts table, stores it and submits it to the matching
  engine (\<open>internal/matching\<close>): one goroutine per symbol that owns an order book and handles orders
  and cancellations in turn. The engine publishes domain events (\<open>internal/events\<close>) over an
  in-memory, Kafka or Redis bus; the settlement service (\<open>internal/settlement\<close>) books trades on the
  accounts and the market data service (\<open>internal/marketdata\<close>) keeps recent trades in Redis. The
  wallet service (\<open>internal/wallet\<close>) derives deposit addresses, credits deposits that the blockchain
  monitor reports and takes withdrawals. Users, KYC, risk controls, margin positions, FIX messages
  and gRPC servers stand beside these. Money is a fixed-point number with 18 places
  (\<open>internal/common/decimal\<close>).

  \<^bold>\<open>Conventions.\<close> Go structs are records, open string enumerations are strings, a Go string is a list
  of bytes. Errors are values of the datatype \<open>error\<close> (the sentinel errors of \<open>common/errors.go\<close> and
  what \<open>fmt.Errorf\<close> builds), a fallible result is a sum with the error on the left; a panic is a
  value of \<open>panic\<close>. State is passed explicitly. \<open>int64\<close> and \<open>uint64\<close> are 64-bit words where they can
  wrap around (sequence numbers, metrics counters, parsed integers), and integers where the code only
  copies or compares them. Clock readings, random identifiers and the answers of libraries and
  servers are arguments. Laws that a theorem needs of a library are hypotheses by name: \<open>jwt_laws\<close>
  (a token parses iff it was signed with the matching key), \<open>bcrypt_law\<close> (a hash verifies its own
  password), decoding inverts encoding for event transports, \<open>records_trade_only\<close> (the trade statement
  touches no other table); each of these has a concrete instance in a witness. \<open>ulid_layout\<close>,
  \<open>stores_rows\<close> and \<open>accepts_only\<close> state the documented layout of a ULID, that a ClickHouse server
  stores a row as it is sent, and that a node keeps the transactions it accepts.

  \<^bold>\<open>Theories and the code they model.\<close>
  \<^item> \<open>Go_Prelude\<close>: what the code uses of Go's standard library (big integers as text, trimming,
    \<open>Quo\<close> and \<open>Rem\<close>, \<open>sort.Search\<close>); \<open>Common_Types\<close>: \<open>common/types.go\<close>, \<open>errors.go\<close>; \<open>Decimal\<close>:
    \<open>decimal.go\<close>, with the arithmetic as integer operations on the unscaled value, the exact rounding
    of the parser and the round trip of texts.
  \<^item> \<open>Order_Queue\<close>, \<open>Queue_Heap\<close>, \<open>Object_Pools\<close>, \<open>Order_Book\<close>, \<open>Matcher\<close>, \<open>Matching_Facts\<close>,
    \<open>Matching_Loop\<close>: \<open>orderbook.go\<close>, \<open>matching/types.go\<close>, \<open>pool.go\<close>, \<open>matcher.go\<close>. A level's queue is a
    list; \<open>Queue_Heap\<close> shows that the linked nodes of the code implement it, through the invariant
    \<open>queue_at\<close>, and \<open>Object_Pools\<close> that they do so with their nodes taken from one shared pool. The locales
    \<open>order_fifo\<close>, \<open>price_side\<close> and \<open>matching_side\<close> hold what is proved once for both sides of the
    book; they are interpreted on bids and asks. The loops refine a reference matcher on flat order
    lists, and from it price-time priority, conservation of quantity and exactness of the
    fill-or-kill check follow. The loops terminate by a measure, so no fuel is used; \<open>Matching_Loop\<close>
    runs them once more as \<open>for\<close> statements under \<open>while_option\<close>, where not ending would be a value.
  \<^item> \<open>Engine\<close>, \<open>Engine_Steps\<close>, \<open>Engine_Trace\<close>: \<open>engine.go\<close>. \<open>processOrder\<close> with its events and the
    shard invariant; then callers and shards as an inductive step relation (send, take, answer, give
    up, add and remove a symbol, stop), with safety and progress by rule induction; and whose orders
    the published trades are between.
  \<^item> \<open>Events\<close>, \<open>Event_Transport\<close>: \<open>events/types.go\<close>, \<open>producer.go\<close>, \<open>kafka_bus.go\<close>, \<open>redis_bus.go\<close>.
  \<^item> \<open>Database\<close>: the tables of \<open>migrations/\<close> with their constraints, transactions and a list of
    statement faults, so that every error branch behind a query can be taken. \<open>Order_Balances\<close>,
    \<open>Order_Lifecycle\<close>, \<open>Order_Repository\<close>, \<open>Order_Validator\<close>, \<open>Order_Service\<close>: the files of
    \<open>internal/order\<close>; the locale \<open>balance_store\<close> is what the service needs of the balances.
  \<^item> \<open>Settlement\<close>: \<open>settlement/service.go\<close>, \<open>fees.go\<close>. \<open>Hd_Wallet\<close>, \<open>Wallet\<close>, \<open>Cold_Wallet\<close>:
    \<open>internal/wallet\<close> over a record of elliptic-curve primitives.
  \<^item> \<open>Auth\<close>, \<open>User_Service\<close>, \<open>Kyc\<close>: \<open>user/auth.go\<close>, \<open>user/service.go\<close>, \<open>internal/kyc\<close>. \<open>Market_Data\<close>:
    \<open>marketdata/service.go\<close>. \<open>Middleware\<close>, \<open>Gateway\<close>, \<open>Grpc_Servers\<close>: \<open>internal/gateway\<close> and
    \<open>internal/grpc\<close>, every handler composed by the route table in the order of the code.
  \<^item> \<open>Chain_Scanner\<close>: \<open>blockchain/ethereum/scanner.go\<close>, the monitor's tick and the deposit handler of
    \<open>cmd/wallet-service\<close>. \<open>Risk\<close>, \<open>Margin\<close>, \<open>Fix_Session\<close>: \<open>internal/risk\<close>, \<open>internal/trading\<close>.
    \<open>Withdraw_Processor\<close>: \<open>blockchain/ethereum/withdraw_processor.go\<close>. \<open>Identifiers\<close>: \<open>common/idgen.go\<close>.
  \<^item> \<open>Startup\<close>, \<open>Connections\<close>, \<open>Processes\<close>: \<open>config.go\<close>, the constructors of \<open>internal/db\<close> and of the
    Ethereum client, and the six \<open>main\<close> functions of \<open>cmd\<close>, as programs in a state monad over the
    actions of a process (what it opens, closes, serves, subscribes to and logs, with its deferred
    calls and its exit code). \<open>Clickhouse\<close>: \<open>db/clickhouse/writer.go\<close>. \<open>Telemetry\<close>:
    \<open>telemetry/metrics.go\<close>, \<open>logging.go\<close>.
  \<^item> \<open>Ledger\<close>, \<open>Exchange\<close>: no code of their own. \<open>Ledger\<close> states what every operation on the tables
    keeps (locale \<open>table_invariant\<close> and its extensions, interpreted on the statements of the services)
    and the surplus of a currency. \<open>Exchange\<close> composes order service, engine, settlement and wallet
    into one step relation over one set of tables: \<open>PlaceOrder\<close> and \<open>CancelOrder\<close> are split at their
    engine call (and proved to be the whole functions), the engine runs in all its interleavings in
    between, and any other call, settlement, deposit, withdrawal or statement fault may come between
    the halves. The statements of one half run without another service's in between.

  \<^bold>\<open>What the theorems show.\<close> The matching core does what it promises: the loops refine the reference,
  trades respect price and time, no quantity is lost, the book's invariant holds in every reachable
  engine state, an accepted fill-or-kill order is filled. Around it, order handling never moves money
  between users, only an owner cancels, a settled trade conserves each currency, a deposit is
  credited once and a withdrawal debits amount and fee, a request through the gateway acts only for
  the user its token names. For the system as a whole: the exchange is solvent in every reachable state
  (what users own is covered by confirmed deposits less withdrawals, no balance is negative), and every
  published trade is between stored orders of the users it names, under the assumptions that the texts
  name. The processes start in production only with their secrets, and end with the right code.
  Other theorems state what the code does where that is not what it means
  to do; their texts say so (an unfilled market order rests at price zero, no trade settles against
  PostgreSQL because of its misordered \<open>INSERT\<close>, deposits reported by the monitor never decode, a
  negative withdrawal credits, a default secret signs tokens outside \<open>production\<close>, what the gateway
  trades never reaches the settlement service).

  \<^bold>\<open>Bounds.\<close> Quantities and prices are unbounded integers, as in the code. Recursions with a bound:
  UTF-8 decoding takes as many rounds as the string has bytes; the binary exponent search of the
  ether conversion tries 130 places and the decimal one 40, enough for the divisor $10^{18}$.

  \<^bold>\<open>Not modelled.\<close> \<open>Decimal.Float64\<close> (IEEE arithmetic, without a caller); the gRPC clients and
  generated code, and the chain adapter, an interface that nothing implements; informational log
  lines, the time-outs of a shutdown and the output format of the logger; key generation; the
  WebSocket and FIX session layers, which are libraries. Creation and update times of rows are left
  out. Goroutine scheduling appears as the interleaving of atomic steps, a mutex as the atomicity of
  the operation it guards. In \<open>Processes\<close> a main function runs alone: what its servers and
  subscriptions do meanwhile is the subject of the other theories.
\<close>

end
